(* ===== verification/Prelude.thy ===== *)
theory Prelude
  imports Complex_Main
begin

text \<open>
  Shared vocabulary of the cart development. JavaScript mutates an object that
  \<open>Array.prototype.find\<close> returned; on a list this is an update of the first element
  that satisfies the search predicate (\<open>update_first\<close>). The lemmas here are the
  list facts that the component theories share: how \<open>update_first\<close>, \<open>filter\<close> and
  \<open>find\<close> interact with projections, distinctness and membership.
\<close>

named_theorems cart_simps "facts that evaluate the cart operations"
named_theorems wf_intros "facts that establish the cart well-formedness invariant"

subsection \<open>Updating the element that \<open>find\<close> returns\<close>

fun update_first :: "('a \<Rightarrow> bool) \<Rightarrow> ('a \<Rightarrow> 'a) \<Rightarrow> 'a list \<Rightarrow> 'a list" where
  "update_first P f [] = []"
| "update_first P f (x # xs) = (if P x then f x # xs else x # update_first P f xs)"

lemma length_update_first [simp]: "length (update_first P f xs) = length xs"
  by (induction xs) auto

lemma update_first_no_match [simp]:
  "\<not> (\<exists>x\<in>set xs. P x) \<Longrightarrow> update_first P f xs = xs"
  by (induction xs) auto

lemma update_first_append_no_match:
  "\<not> (\<exists>x\<in>set xs. P x) \<Longrightarrow> update_first P f (xs @ ys) = xs @ update_first P f ys"
  by (induction xs) auto

lemma map_update_first:
  "(\<And>x. g (f x) = g x) \<Longrightarrow> map g (update_first P f xs) = map g xs"
  by (induction xs) auto

lemma set_update_first: "set (update_first P f xs) \<subseteq> set xs \<union> f ` set xs"
  by (induction xs) auto

lemma find_update_first:
  "(\<And>x. P (f x) = P x) \<Longrightarrow> find P (update_first P f xs) = map_option f (find P xs)"
  by (induction xs) auto

lemma update_first_find:
  "find P xs = Some y \<Longrightarrow>
     \<exists>us vs. xs = us @ y # vs \<and> (\<forall>u\<in>set us. \<not> P u) \<and> update_first P f xs = us @ f y # vs"
proof (induction xs)
  case Nil
  then show ?case by simp
next
  case (Cons x xs)
  show ?case
  proof (cases "P x")
    case True
    with Cons.prems show ?thesis by (intro exI [of _ "[]"] exI [of _ xs]) auto
  next
    case False
    with Cons obtain us vs where "xs = us @ y # vs" "\<forall>u\<in>set us. \<not> P u"
      "update_first P f xs = us @ f y # vs" by auto
    with False show ?thesis by (intro exI [of _ "x # us"] exI [of _ vs]) auto
  qed
qed

subsection \<open>Joining with a separator\<close>

text \<open>\<open>Array.prototype.join\<close> with a separator, on lists of strings.\<close>

fun join_with :: "'a list \<Rightarrow> 'a list list \<Rightarrow> 'a list" where
  "join_with sep [] = []"
| "join_with sep [x] = x"
| "join_with sep (x # y # ys) = x @ sep @ join_with sep (y # ys)"

subsection \<open>Searching by key\<close>

lemma find_map_key_None [simp]:
  "(find (\<lambda>x. k x = a) xs = None) = (a \<notin> set (map k xs))"
  by (induction xs) auto

lemma find_key_absent [simp]: "a \<notin> set (map k xs) \<Longrightarrow> find (\<lambda>x. k x = a) xs = None"
  by simp

lemma find_Some_key: "find (\<lambda>x. k x = a) xs = Some y \<Longrightarrow> y \<in> set xs \<and> k y = a"
  by (induction xs) (auto split: if_splits)

lemma distinct_map_filter_key [intro]:
  "distinct (map k xs) \<Longrightarrow> distinct (map k (filter P xs))"
  by (induction xs) auto

lemma key_notin_filter [simp]: "a \<notin> set (map k (filter (\<lambda>x. k x \<noteq> a) xs))"
  by (induction xs) auto

lemma filter_key_absent [simp]:
  "a \<notin> set (map k xs) \<Longrightarrow> filter (\<lambda>x. k x \<noteq> a) xs = xs"
  by (induction xs) auto

subsection \<open>Lists of records read as maps from a key field\<close>

text \<open>
  A list of records with a key field \<open>key\<close> and a value field \<open>val\<close> is read as the
  map \<open>map_of (map (\<lambda>x. (key x, val x)) xs)\<close>: the first record with a key wins,
  as \<open>find\<close> does. These lemmas say how the list operations act on that map, for
  any key and value projections.
\<close>

abbreviation key_map :: "('a \<Rightarrow> 'k) \<Rightarrow> ('a \<Rightarrow> 'v) \<Rightarrow> 'a list \<Rightarrow> 'k \<Rightarrow> 'v option" where
  "key_map key val xs \<equiv> map_of (map (\<lambda>x. (key x, val x)) xs)"

lemma key_map_find:
  "find (\<lambda>x. key x = k) xs = Some y \<Longrightarrow> key_map key val xs k = Some (val y)"
  by (induction xs) (auto split: if_splits)

lemma key_map_None [simp]: "(key_map key val xs k = None) = (k \<notin> set (map key xs))"
  by (induction xs) auto

lemma key_map_absent [simp]: "k \<notin> set (map key xs) \<Longrightarrow> key_map key val xs k = None"
  by simp

lemma key_map_filter [simp]:
  "key_map key val (filter (\<lambda>x. key x \<noteq> k) xs) = (key_map key val xs)(k := None)"
  by (induction xs) (auto simp: fun_eq_iff)

lemma key_map_snoc_new:
  "key y \<notin> set (map key xs) \<Longrightarrow> key_map key val (xs @ [y]) = (key_map key val xs)(key y \<mapsto> val y)"
  by (induction xs) (auto simp: fun_eq_iff)

lemma key_map_update_first:
  assumes "\<And>x. key (f x) = key x"
  shows "key_map key val (update_first (\<lambda>x. key x = k) f xs) =
           (case find (\<lambda>x. key x = k) xs of
              None \<Rightarrow> key_map key val xs
            | Some y \<Rightarrow> (key_map key val xs)(k \<mapsto> val (f y)))"
  using assms by (induction xs) (auto simp: fun_eq_iff key_map_find dest: find_Some_key split: option.splits)

end
