(* ===== verification/Gsap.thy ===== *)
theory Gsap
  imports Prelude
begin

text \<open>
  The part of the GSAP 3 animation library that script.js calls, modelled from its
  documentation (the library is not part of the repository): the easing curves
  the script names, a tween's values at a given time after it was created, the end
  state a finished tween leaves, the placement of children in a timeline and the
  start times of a staggered target list. A style is the current value of every
  animatable property (GSAP reads the computed value of a property it animates),
  a function from property names to numbers.
\<close>

type_synonym style = "string \<Rightarrow> rat"

text \<open>The style with the given properties set to the given values.\<close>

definition set_vars :: "style \<Rightarrow> (string \<times> rat) list \<Rightarrow> style" where
  "set_vars cur vs = (\<lambda>k. case map_of vs k of Some v \<Rightarrow> v | None \<Rightarrow> cur k)"

text \<open>
  The eases the script names, and \<open>power1.out\<close>, the default. GSAP's \<open>powerN\<close> is
  the polynomial of degree \<open>N + 1\<close>; \<open>back.out(c)\<close> overshoots by the amount \<open>c\<close>.
\<close>

datatype ease = Power1Out | Power3Out | Power3In | EaseNone | BackOut rat

fun ease_at :: "ease \<Rightarrow> rat \<Rightarrow> rat" where
  "ease_at Power1Out p = 1 - (1 - p) ^ 2"
| "ease_at Power3Out p = 1 - (1 - p) ^ 4"
| "ease_at Power3In p = p ^ 4"
| "ease_at EaseNone p = p"
| "ease_at (BackOut c) p = (p - 1) ^ 2 * ((c + 1) * (p - 1) + c) + 1"

text \<open>
  \<open>gsap.to\<close> animates from the current values to the given ones, \<open>gsap.from\<close> from
  the given values to the current ones, \<open>gsap.fromTo\<close> between two given sets.
\<close>

datatype tween_kind = To | From | FromTo "(string \<times> rat) list"

text \<open>
  A tween's target or a scroll trigger's element: a CSS selector, or the \<open>i\<close>-th
  element of \<open>gsap.utils.toArray(selector)\<close>.
\<close>

datatype target = Sel string | Nth string nat

record scroll_trigger =
  st_trigger :: target
  st_start :: string
  st_end :: "string option"
  st_scrub :: bool

record tween =
  tw_kind :: tween_kind
  tw_vars :: "(string \<times> rat) list"
  tw_duration :: rat
  tw_ease :: ease
  tw_delay :: rat
  tw_stagger :: rat
  tw_repeat :: nat
  tw_yoyo :: bool
  tw_scroll :: "scroll_trigger option"

text \<open>A tween with GSAP's defaults: 0.5 s, \<open>power1.out\<close>, no delay, no repeat.\<close>

definition base_tween :: "tween_kind \<Rightarrow> (string \<times> rat) list \<Rightarrow> tween" where
  "base_tween k vs =
     \<lparr>tw_kind = k, tw_vars = vs, tw_duration = 1 / 2, tw_ease = Power1Out, tw_delay = 0,
      tw_stagger = 0, tw_repeat = 0, tw_yoyo = False, tw_scroll = None\<rparr>"

text \<open>
  The values a tween interpolates between, on an element whose current style is
  \<open>cur\<close> when the tween is created: \<open>from\<close> records the current values as its
  destination.
\<close>

definition tween_ends :: "tween \<Rightarrow> style \<Rightarrow> style \<times> style" where
  "tween_ends tw cur =
     (case tw_kind tw of
        To \<Rightarrow> (cur, set_vars cur (tw_vars tw))
      | From \<Rightarrow> (set_vars cur (tw_vars tw), cur)
      | FromTo fr \<Rightarrow> (set_vars cur fr, set_vars cur (tw_vars tw)))"

text \<open>
  The progress of the ease at time \<open>u\<close> after the tween was created: 0 before the
  delay has passed, then each of the \<open>repeat + 1\<close> iterations runs forwards, or,
  with \<open>yoyo\<close>, every second one backwards; after the last iteration the tween stays
  at its end, which with \<open>yoyo\<close> and an odd repeat count is its start.
\<close>

definition tween_progress :: "tween \<Rightarrow> rat \<Rightarrow> rat" where
  "tween_progress tw u =
     (let t = u - tw_delay tw; d = tw_duration tw; total = d * of_nat (Suc (tw_repeat tw))
      in if t \<le> 0 then 0
         else if total \<le> t then (if tw_yoyo tw \<and> odd (tw_repeat tw) then 0 else 1)
         else (let k = \<lfloor>t / d\<rfloor>; fr = t / d - of_int k
               in if tw_yoyo tw \<and> odd k then 1 - fr else fr))"

definition interpolate :: "ease \<Rightarrow> rat \<Rightarrow> style \<Rightarrow> style \<Rightarrow> style" where
  "interpolate e p a b = (\<lambda>k. a k + (b k - a k) * ease_at e p)"

text \<open>The element's style at time \<open>u\<close> after the tween was created on style \<open>cur\<close>.\<close>

definition style_at :: "tween \<Rightarrow> style \<Rightarrow> rat \<Rightarrow> style" where
  "style_at tw cur u =
     (let (a, b) = tween_ends tw cur in interpolate (tw_ease tw) (tween_progress tw u) a b)"

text \<open>The time at which the tween has finished: its delay and all its iterations.\<close>

definition tween_end_time :: "tween \<Rightarrow> rat" where
  "tween_end_time tw = tw_delay tw + tw_duration tw * of_nat (Suc (tw_repeat tw))"

text \<open>
  The style a finished tween leaves: its destination, or, for a \<open>yoyo\<close> tween with
  an odd repeat count, its start.
\<close>

definition settle :: "tween \<Rightarrow> style \<Rightarrow> style" where
  "settle tw cur =
     (let (a, b) = tween_ends tw cur in if tw_yoyo tw \<and> odd (tw_repeat tw) then a else b)"

text \<open>
  A staggered target list: the \<open>i\<close>-th element starts \<open>i \<times> stagger\<close> after the
  delay.
\<close>

definition stagger_start :: "tween \<Rightarrow> nat \<Rightarrow> rat" where
  "stagger_start tw i = tw_delay tw + of_nat i * tw_stagger tw"

text \<open>
  A timeline's children with their position parameter: by default a child starts
  at the end of the timeline so far, with \<open>"-=x"\<close> \<open>x\<close> seconds before it. The end
  of the timeline is the latest end of its children.
\<close>

datatype position = AtEnd | BeforeEnd rat

fun timeline_place :: "rat \<Rightarrow> (tween \<times> position) list \<Rightarrow> (rat \<times> tween) list" where
  "timeline_place e [] = []"
| "timeline_place e ((tw, p) # ts) =
     (let s = (case p of AtEnd \<Rightarrow> e | BeforeEnd x \<Rightarrow> e - x)
      in (s, tw) # timeline_place (max e (s + tween_end_time tw)) ts)"

fun timeline_end :: "rat \<Rightarrow> (tween \<times> position) list \<Rightarrow> rat" where
  "timeline_end e [] = e"
| "timeline_end e ((tw, p) # ts) =
     (let s = (case p of AtEnd \<Rightarrow> e | BeforeEnd x \<Rightarrow> e - x)
      in timeline_end (max e (s + tween_end_time tw)) ts)"

subsection \<open>Eases and finished tweens\<close>

lemma ease_at_0 [simp]: "ease_at e 0 = 0"
  by (cases e) simp_all

lemma ease_at_1 [simp]: "ease_at e 1 = 1"
  by (cases e) simp_all

lemma interpolate_0 [simp]: "interpolate e 0 a b = a"
  by (simp add: interpolate_def)

lemma interpolate_1 [simp]: "interpolate e 1 a b = b"
  by (simp add: interpolate_def)

text \<open>Once its delay and iterations are over, a tween leaves its \<open>settle\<close> style.\<close>

lemma style_at_finished:
  assumes "0 < tw_duration tw" "tween_end_time tw \<le> u"
  shows "style_at tw cur u = settle tw cur"
proof -
  have pos: "0 < tw_duration tw * of_nat (Suc (tw_repeat tw))" using assms(1) by simp
  have "tween_progress tw u = (if tw_yoyo tw \<and> odd (tw_repeat tw) then 0 else 1)"
    using assms(2) pos by (simp add: tween_progress_def tween_end_time_def Let_def)
  then show ?thesis by (simp add: style_at_def settle_def split: prod.split)
qed

text \<open>Before its delay has passed a tween shows its start values at once.\<close>

lemma style_at_waiting: "u \<le> tw_delay tw \<Longrightarrow> style_at tw cur u = fst (tween_ends tw cur)"
  by (simp add: style_at_def tween_progress_def split: prod.split)

lemma settle_From:
  "tw_kind tw = From \<Longrightarrow> \<not> (tw_yoyo tw \<and> odd (tw_repeat tw)) \<Longrightarrow> settle tw cur = cur"
  by (auto simp: settle_def tween_ends_def)

lemma settle_To:
  "tw_kind tw = To \<Longrightarrow> \<not> (tw_yoyo tw \<and> odd (tw_repeat tw)) \<Longrightarrow> settle tw cur = set_vars cur (tw_vars tw)"
  by (auto simp: settle_def tween_ends_def)

lemma settle_To_yoyo:
  "tw_kind tw = To \<Longrightarrow> tw_yoyo tw \<Longrightarrow> odd (tw_repeat tw) \<Longrightarrow> settle tw cur = cur"
  by (simp add: settle_def tween_ends_def)

lemma set_vars_Cons: "set_vars cur ((k, v) # vs) = (set_vars cur vs)(k := v)"
  by (auto simp: set_vars_def)

lemma set_vars_Nil [simp]: "set_vars cur [] = cur"
  by (simp add: set_vars_def)

end
