(* ===== verification/JsNum.thy ===== *)
theory JsNum
  imports Prelude
begin

text \<open>
  The JavaScript number semantics that the cart code relies on, as the ECMAScript
  specification states it: the value domain (finite values, the two infinities, NaN),
  \<open>+\<close> and \<open>*\<close>, the global \<open>parseFloat\<close> and \<open>parseInt\<close>, \<open>Number::toString\<close> and
  \<open>Number.prototype.toFixed\<close>. These are the language's built-ins, not repository
  code. Finite values are exact rationals: the model does not round to binary64,
  so it has no overflow to Infinity, no underflow and no signed zero (-0 is 0; the
  code never distinguishes them, see the header of \<open>Spec2Isabelle\<close>).
  Characters are bytes, so only the ASCII white space characters are trimmed.
\<close>

datatype jsnum = Fin rat | PosInf | NegInf | NaN

subsection \<open>Arithmetic\<close>

fun js_neg :: "jsnum \<Rightarrow> jsnum" where
  "js_neg (Fin a) = Fin (- a)"
| "js_neg PosInf = NegInf"
| "js_neg NegInf = PosInf"
| "js_neg NaN = NaN"

fun js_add :: "jsnum \<Rightarrow> jsnum \<Rightarrow> jsnum" where
  "js_add (Fin a) (Fin b) = Fin (a + b)"
| "js_add NaN y = NaN"
| "js_add x NaN = NaN"
| "js_add PosInf NegInf = NaN"
| "js_add NegInf PosInf = NaN"
| "js_add PosInf y = PosInf"
| "js_add NegInf y = NegInf"
| "js_add (Fin a) y = y"

text \<open>A finite factor times an infinity: the sign rule, and NaN for a zero factor.\<close>

definition js_scale_inf :: "rat \<Rightarrow> jsnum \<Rightarrow> jsnum" where
  "js_scale_inf a y = (if a = 0 then NaN else if 0 < a then y else js_neg y)"

fun js_mul :: "jsnum \<Rightarrow> jsnum \<Rightarrow> jsnum" where
  "js_mul (Fin a) (Fin b) = Fin (a * b)"
| "js_mul NaN y = NaN"
| "js_mul x NaN = NaN"
| "js_mul (Fin a) y = js_scale_inf a y"
| "js_mul x (Fin b) = js_scale_inf b x"
| "js_mul PosInf PosInf = PosInf"
| "js_mul NegInf NegInf = PosInf"
| "js_mul PosInf NegInf = NegInf"
| "js_mul NegInf PosInf = NegInf"

subsection \<open>Characters and digits\<close>

definition is_js_space :: "char \<Rightarrow> bool" where
  "is_js_space c \<longleftrightarrow> of_char c \<in> {9, 10, 11, 12, 13, 32 :: nat}"

definition trim_start :: "string \<Rightarrow> string" where
  "trim_start s = dropWhile is_js_space s"

text \<open>The value of a character as a digit in radix \<open>R\<close> (0-9, then a-z or A-Z).\<close>

definition radix_digit :: "int \<Rightarrow> char \<Rightarrow> int option" where
  "radix_digit R c =
     (let n = of_char c :: int;
          d = (if 48 \<le> n \<and> n \<le> 57 then n - 48
               else if 97 \<le> n \<and> n \<le> 122 then n - 87
               else if 65 \<le> n \<and> n \<le> 90 then n - 55 else R)
      in if d < R then Some d else None)"

fun radix_prefix :: "int \<Rightarrow> string \<Rightarrow> int list" where
  "radix_prefix R [] = []"
| "radix_prefix R (c # cs) =
     (case radix_digit R c of None \<Rightarrow> [] | Some d \<Rightarrow> d # radix_prefix R cs)"

definition digits_value :: "int \<Rightarrow> int list \<Rightarrow> int" where
  "digits_value R ds = foldl (\<lambda>a d. R * a + d) 0 ds"

subsection \<open>parseFloat\<close>

text \<open>
  The exponent part of a \<open>StrDecimalLiteral\<close>: \<open>e\<close> or \<open>E\<close>, an optional sign and at
  least one digit. Without a digit there is no exponent part, and the longest valid
  prefix ends before the \<open>e\<close>: the exponent is 0.
\<close>

definition parse_exponent :: "string \<Rightarrow> int" where
  "parse_exponent r =
     (case r of
        c # r' \<Rightarrow>
          if c = CHR ''e'' \<or> c = CHR ''E'' then
            (let (sg, t) = (case r' of
                              d # t \<Rightarrow> if d = CHR ''-'' then (-1 :: int, t)
                                       else if d = CHR ''+'' then (1, t) else (1, r')
                            | [] \<Rightarrow> (1, []));
                 ds = radix_prefix 10 t
             in if ds = [] then 0 else sg * digits_value 10 ds)
          else 0
      | [] \<Rightarrow> 0)"

definition scale10 :: "rat \<Rightarrow> int \<Rightarrow> rat" where
  "scale10 x e = (if 0 \<le> e then x * 10 ^ nat e else x / 10 ^ nat (- e))"

text \<open>
  \<open>StrUnsignedDecimalLiteral\<close>: \<open>Infinity\<close>, or digits with an optional fraction
  (\<open>1.\<close>, \<open>.5\<close>, \<open>1.5\<close>; not \<open>.\<close>) and an optional exponent. \<open>None\<close>: no prefix
  of the input is such a literal.
\<close>

definition parse_unsigned_decimal :: "string \<Rightarrow> jsnum option" where
  "parse_unsigned_decimal s =
     (if take 8 s = ''Infinity'' then Some PosInf
      else
        (let ip = radix_prefix 10 s;
             r1 = drop (length ip) s;
             (fp, r2) = (case r1 of
                           c # t \<Rightarrow> if c = CHR ''.''
                                    then (radix_prefix 10 t, drop (length (radix_prefix 10 t)) t)
                                    else ([], r1)
                         | [] \<Rightarrow> ([], []))
         in if ip = [] \<and> fp = [] then None
            else Some (Fin (scale10 (of_int (digits_value 10 (ip @ fp)))
                                    (parse_exponent r2 - int (length fp))))))"

definition parse_float :: "string \<Rightarrow> jsnum" where
  "parse_float s =
     (let t = trim_start s
      in case t of
           c # r \<Rightarrow>
             if c = CHR ''-'' then (case parse_unsigned_decimal r of Some v \<Rightarrow> js_neg v | None \<Rightarrow> NaN)
             else if c = CHR ''+'' then (case parse_unsigned_decimal r of Some v \<Rightarrow> v | None \<Rightarrow> NaN)
             else (case parse_unsigned_decimal t of Some v \<Rightarrow> v | None \<Rightarrow> NaN)
         | [] \<Rightarrow> NaN)"

subsection \<open>parseInt (no radix argument)\<close>

text \<open>
  \<open>parseInt(s)\<close>: leading white space and one sign are skipped; a \<open>0x\<close> or \<open>0X\<close>
  prefix selects radix 16, otherwise radix 10; the longest prefix of radix digits is
  read. No digit gives NaN, here \<open>None\<close>. The result is always an integer.
\<close>

definition parse_int :: "string \<Rightarrow> int option" where
  "parse_int s =
     (let t = trim_start s;
          (sg, u) = (case t of
                       c # r \<Rightarrow> if c = CHR ''-'' then (-1 :: int, r)
                                else if c = CHR ''+'' then (1, r) else (1, t)
                     | [] \<Rightarrow> (1, []));
          hex = (take 2 u = ''0x'' \<or> take 2 u = ''0X'');
          R = (if hex then 16 else 10);
          ds = radix_prefix R (if hex then drop 2 u else u)
      in if ds = [] then None else Some (sg * digits_value R ds))"

subsection \<open>Number::toString\<close>

definition digit_char :: "int \<Rightarrow> char" where
  "digit_char d = char_of (48 + d)"

text \<open>The decimal digits of a non-negative integer, most significant first.\<close>

function int_digits :: "int \<Rightarrow> int list" where
  "int_digits n = (if n < 10 then [n] else int_digits (n div 10) @ [n mod 10])"
  by pat_completeness auto
termination
  by (relation "measure nat") auto

definition int_to_string :: "int \<Rightarrow> string" where
  "int_to_string n = map digit_char (int_digits n)"

text \<open>
  The least \<open>e\<close> from the start value up with \<open>q\<close> dividing \<open>10 ^ e\<close>; the search
  stops at \<open>q\<close>, which suffices: when such an \<open>e\<close> exists the least one is below \<open>q\<close>.
\<close>

function dec_exp_search :: "nat \<Rightarrow> int \<Rightarrow> nat option" where
  "dec_exp_search e q =
     (if q dvd 10 ^ e then Some e else if q \<le> int e then None else dec_exp_search (Suc e) q)"
  by pat_completeness auto
termination
  by (relation "measure (\<lambda>(e, q). nat q - e)") auto

text \<open>
  A positive value \<open>p / q\<close> as \<open>m / 10 ^ e\<close>, with \<open>e\<close> least when the value is a
  finite decimal, as every value the cart computes is. A value that is not (no
  binary64 number is such a rational) is read from its rounding to 20 places.
\<close>

definition dec_parts :: "int \<Rightarrow> int \<Rightarrow> int \<times> nat" where
  "dec_parts p q =
     (case dec_exp_search 0 q of
        Some e \<Rightarrow> (p * (10 ^ e div q), e)
      | None \<Rightarrow> ((2 * p * 10 ^ 20 + q) div (2 * q), 20))"

function strip10 :: "int \<Rightarrow> int \<times> nat" where
  "strip10 m =
     (if 0 < m \<and> m mod 10 = 0 then (case strip10 (m div 10) of (s, z) \<Rightarrow> (s, Suc z)) else (m, 0))"
  by pat_completeness auto
termination
  by (relation "measure nat") auto

definition exp_suffix :: "int \<Rightarrow> string" where
  "exp_suffix t = ''e'' @ (if 0 \<le> t then ''+'' else ''-'') @ int_to_string \<bar>t\<bar>"

text \<open>
  \<open>Number::toString\<close> for a positive finite value \<open>p / q\<close>: \<open>s\<close> the digits without
  trailing zeros (\<open>k\<close> of them) and \<open>n\<close> the position of the decimal point, so that
  the value is \<open>s \<times> 10 ^ (n - k)\<close>; the five cases of the specification follow.
\<close>

definition pos_to_string :: "int \<Rightarrow> int \<Rightarrow> string" where
  "pos_to_string p q =
     (let (m, e) = dec_parts p q;
          (s, z) = strip10 m;
          ds = int_to_string s;
          k = int (length ds);
          n = k + int z - int e
      in if k \<le> n \<and> n \<le> 21 then ds @ replicate (nat (n - k)) CHR ''0''
         else if 0 < n \<and> n \<le> 21 then take (nat n) ds @ ''.'' @ drop (nat n) ds
         else if -6 < n \<and> n \<le> 0 then ''0.'' @ replicate (nat (- n)) CHR ''0'' @ ds
         else if k = 1 then ds @ exp_suffix (n - 1)
         else take 1 ds @ ''.'' @ drop 1 ds @ exp_suffix (n - 1))"

fun js_to_string :: "jsnum \<Rightarrow> string" where
  "js_to_string NaN = ''NaN''"
| "js_to_string PosInf = ''Infinity''"
| "js_to_string NegInf = ''-Infinity''"
| "js_to_string (Fin x) =
     (let (p, q) = quotient_of x
      in if p = 0 then ''0'' else if p < 0 then ''-'' @ pos_to_string (- p) q else pos_to_string p q)"

subsection \<open>Number.prototype.toFixed\<close>

text \<open>
  \<open>x.toFixed(f)\<close>: a value that is not finite or whose magnitude is at least
  \<open>10 ^ 21\<close> is printed by \<open>toString\<close>; otherwise the sign, then the integer \<open>n\<close>
  nearest to \<open>|x| \<times> 10 ^ f\<close> (the larger one on a tie, so the floor of
  \<open>|x| \<times> 10 ^ f + 1/2\<close>, computed on \<open>x = p / q\<close>) with a point before its last
  \<open>f\<close> digits, padded with zeros to at least \<open>f + 1\<close> digits.
\<close>

definition to_fixed :: "nat \<Rightarrow> jsnum \<Rightarrow> string" where
  "to_fixed f v =
     (case v of
        Fin x \<Rightarrow>
          (let (p, q) = quotient_of x
           in if 10 ^ 21 * q \<le> \<bar>p\<bar> then js_to_string v
              else
                (let sg = (if p < 0 then ''-'' else '''');
                     n = (2 * \<bar>p\<bar> * 10 ^ f + q) div (2 * q);
                     m = int_to_string n
                 in if f = 0 then sg @ m
                    else
                      (let m' = (if length m \<le> f then replicate (f + 1 - length m) CHR ''0'' @ m else m);
                           k = length m'
                       in sg @ take (k - f) m' @ ''.'' @ drop (k - f) m')))
      | _ \<Rightarrow> js_to_string v)"

subsection \<open>The shape of toFixed\<close>

text \<open>Below \<open>10 ^ 21\<close> the value takes the fixed-point branch of \<open>to_fixed\<close>.\<close>

lemma to_fixed_small: "\<bar>x\<bar> < 10 ^ 21 \<Longrightarrow> quotient_of x = (p, q) \<Longrightarrow> \<not> 10 ^ 21 * q \<le> \<bar>p\<bar>"
proof -
  assume small: "\<bar>x\<bar> < 10 ^ 21" and pq: "quotient_of x = (p, q)"
  have q: "(0::rat) < of_int q" using quotient_of_denom_pos [OF pq] by simp
  have x: "x = of_int p / of_int q" using pq by (rule quotient_of_div)
  have "of_int \<bar>p\<bar> / of_int q < (10 ^ 21 :: rat)"
    using small q by (simp only: x abs_divide of_int_abs abs_of_pos)
  then have "of_int \<bar>p\<bar> < (10 ^ 21 :: rat) * of_int q"
    using q by (simp only: pos_divide_less_eq)
  then have "of_int \<bar>p\<bar> < (of_int (10 ^ 21 * q) :: rat)" by simp
  then show ?thesis by (simp only: of_int_less_iff not_le)
qed

text \<open>
  Two decimals: for every finite value of magnitude below \<open>10 ^ 21\<close>,
  \<open>toFixed(2)\<close>, which formats the cart total (line 28), is an integer part, a
  point and exactly two digits.
\<close>

theorem to_fixed_two_places:
  "\<bar>x\<bar> < 10 ^ 21 \<Longrightarrow> \<exists>a b. to_fixed 2 (Fin x) = a @ ''.'' @ b \<and> length b = 2"
proof -
  assume small: "\<bar>x\<bar> < 10 ^ 21"
  obtain p q where pq: "quotient_of x = (p, q)" by (cases "quotient_of x")
  have big: "\<not> 10 ^ 21 * q \<le> \<bar>p\<bar>" using small pq by (rule to_fixed_small)
  define m where "m = int_to_string ((2 * \<bar>p\<bar> * 10 ^ 2 + q) div (2 * q))"
  define m' where "m' = (if length m \<le> 2 then replicate (2 + 1 - length m) CHR ''0'' @ m else m)"
  have len: "2 < length m'" by (simp add: m'_def)
  have "to_fixed 2 (Fin x) = (if p < 0 then ''-'' else []) @ take (length m' - 2) m' @ ''.'' @ drop (length m' - 2) m'"
    using big by (simp only: to_fixed_def jsnum.case pq prod.case if_False Let_def m_def [symmetric] m'_def [symmetric]) simp
  moreover have "length (drop (length m' - 2) m') = 2" using len by simp
  ultimately show ?thesis
    by (intro exI [of _ "(if p < 0 then ''-'' else []) @ take (length m' - 2) m'"]
              exI [of _ "drop (length m' - 2) m'"]) simp
qed

theorem to_fixed_two_places_witness:
  "\<bar>4999 / 100 :: rat\<bar> < 10 ^ 21 \<and> to_fixed 2 (Fin (4999 / 100)) = ''49'' @ ''.'' @ ''99''"
proof -
  have h: "\<bar>4999 / 100 :: rat\<bar> < 10 ^ 21" by simp
  have "to_fixed 2 (Fin (4999 / 100)) = ''49'' @ ''.'' @ ''99''" by code_simp
  with h to_fixed_two_places [OF h] show ?thesis by blast
qed

end
