(* ===== verification/CartStore.thy ===== *)
theory CartStore
  imports JsNum
begin

text \<open>
  The Cart Store of \<open>src/script.js\<close>: the global \<open>cart\<close> array (line 3) of line-item
  objects and the mutations the event handlers perform on it. A product card's
  \<open>dataset\<close> (lines 36-43) is the record \<open>product\<close>; a line item is the record
  \<open>item\<close> with the fields the code creates (\<open>id\<close>, \<open>name\<close>, \<open>price\<close>, \<open>image\<close>,
  \<open>quantity\<close>). The item's \<open>price\<close> is a JavaScript number, or \<open>null\<close> (here
  \<open>None\<close>) when a NaN or infinite price has been saved by \<open>JSON.stringify\<close> and
  read back. Each mutation is a function from the old array to the new one:
  \<open>add_or_increment\<close> (lines 37-50), \<open>remove_item\<close> (the \<open>filter\<close> of lines 80 and
  95), \<open>set_quantity\<close> (line 92) and \<open>quantity_change\<close> (lines 88-97, \<open>None\<close> when
  the handler changes nothing and does not redraw). The invariant \<open>cart_wf\<close> (ids
  unique, quantities positive) and the abstraction \<open>cart_qty\<close> to a map from ids to
  quantities come with one preservation and one refinement lemma per operation.
\<close>

record product =
  card_id :: string
  card_name :: string
  card_price :: string
  card_image :: string

record item =
  item_id :: string
  item_name :: string
  price :: "jsnum option"
  image :: string
  quantity :: int

type_synonym cart = "item list"

subsection \<open>Operations\<close>

text \<open>The item built from a product card (lines 37-43): the price string is parsed.\<close>

definition new_item :: "product \<Rightarrow> item" where
  "new_item p =
     \<lparr>item_id = card_id p, item_name = card_name p, price = Some (parse_float (card_price p)),
      image = card_image p, quantity = 1\<rparr>"

text \<open>\<open>cart.find(item => item.id === id)\<close> (lines 45 and 90).\<close>

definition find_item :: "string \<Rightarrow> cart \<Rightarrow> item option" where
  "find_item k c = find (\<lambda>i. item_id i = k) c"

text \<open>
  Lines 45-50: the first item with the card's id has its quantity incremented in
  place; otherwise the new item is pushed at the end. The name, price and image of
  an existing item are kept.
\<close>

definition add_or_increment :: "product \<Rightarrow> cart \<Rightarrow> cart" where
  "add_or_increment p c =
     (let it = new_item p
      in case find_item (item_id it) c of
           Some _ \<Rightarrow> update_first (\<lambda>i. item_id i = item_id it) (\<lambda>i. i\<lparr>quantity := quantity i + 1\<rparr>) c
         | None \<Rightarrow> c @ [it])"

text \<open>\<open>cart = cart.filter(item => item.id !== id)\<close> (lines 80 and 95).\<close>

definition remove_item :: "string \<Rightarrow> cart \<Rightarrow> cart" where
  "remove_item k c = filter (\<lambda>i. item_id i \<noteq> k) c"

text \<open>\<open>item.quantity = quantity\<close> on the item that \<open>find\<close> returned (line 92).\<close>

definition set_quantity :: "string \<Rightarrow> int \<Rightarrow> cart \<Rightarrow> cart" where
  "set_quantity k n c = update_first (\<lambda>i. item_id i = k) (\<lambda>i. i\<lparr>quantity := n\<rparr>) c"

text \<open>
  Lines 88-97: the raw field value is read with \<open>parseInt\<close>. With an item and a
  positive number the quantity is set; with an item and a number \<open>\<le> 0\<close> the item is
  removed; otherwise (no item, or NaN, for which both comparisons are false) the
  handler does nothing, which is \<open>None\<close>.
\<close>

definition quantity_change :: "string \<Rightarrow> string \<Rightarrow> cart \<Rightarrow> cart option" where
  "quantity_change k raw c =
     (case find_item k c of
        None \<Rightarrow> None
      | Some _ \<Rightarrow>
          (case parse_int raw of
             None \<Rightarrow> None
           | Some n \<Rightarrow> if 0 < n then Some (set_quantity k n c) else Some (remove_item k c)))"

subsection \<open>Invariant and abstraction\<close>

definition cart_wf :: "cart \<Rightarrow> bool" where
  "cart_wf c \<longleftrightarrow> distinct (map item_id c) \<and> list_all (\<lambda>i. 0 < quantity i) c"

text \<open>The cart as a map from ids to quantities (the first item with an id wins).\<close>

definition cart_qty :: "cart \<Rightarrow> string \<Rightarrow> int option" where
  "cart_qty c = key_map item_id quantity c"

text \<open>
  The contract of the Cart Store on that map (spec section 4.1): add-or-increment,
  remove, and set-quantity with untrusted input (\<open>None\<close> for input that is not a
  number).
\<close>

definition spec_add :: "string \<Rightarrow> (string \<Rightarrow> int option) \<Rightarrow> (string \<Rightarrow> int option)" where
  "spec_add k m = m(k \<mapsto> (case m k of None \<Rightarrow> 1 | Some q \<Rightarrow> q + 1))"

definition spec_remove :: "string \<Rightarrow> (string \<Rightarrow> int option) \<Rightarrow> (string \<Rightarrow> int option)" where
  "spec_remove k m = m(k := None)"

definition spec_set_quantity ::
  "string \<Rightarrow> int option \<Rightarrow> (string \<Rightarrow> int option) \<Rightarrow> (string \<Rightarrow> int option)" where
  "spec_set_quantity k n m =
     (case (m k, n) of
        (Some _, Some q) \<Rightarrow> if 1 \<le> q then m(k \<mapsto> q) else m(k := None)
      | _ \<Rightarrow> m)"

lemmas cart_defs [cart_simps] =
  add_or_increment_def remove_item_def set_quantity_def quantity_change_def find_item_def new_item_def

subsection \<open>Characteristic equations\<close>

lemma add_or_increment_new:
  "card_id p \<notin> set (map item_id c) \<Longrightarrow> add_or_increment p c = c @ [new_item p]"
  by (simp add: add_or_increment_def find_item_def new_item_def Let_def)

lemma add_or_increment_existing:
  "card_id p \<in> set (map item_id c) \<Longrightarrow>
     add_or_increment p c = update_first (\<lambda>i. item_id i = card_id p) (\<lambda>i. i\<lparr>quantity := quantity i + 1\<rparr>) c"
  by (auto simp: add_or_increment_def find_item_def new_item_def Let_def split: option.splits)

subsection \<open>The invariant is kept\<close>

lemma cart_wf_Nil [simp]: "cart_wf []"
  by (simp add: cart_wf_def)

lemma ids_set_quantity [simp]: "map item_id (set_quantity k n c) = map item_id c"
  by (simp add: set_quantity_def map_update_first)

lemma ids_increment [simp]:
  "map item_id (update_first P (\<lambda>i. i\<lparr>quantity := quantity i + 1\<rparr>) c) = map item_id c"
  by (simp add: map_update_first)

lemma list_all_update_first [wf_intros]:
  "list_all Q xs \<Longrightarrow> (\<And>x. Q x \<Longrightarrow> Q (f x)) \<Longrightarrow> list_all Q (update_first P f xs)"
  by (induction xs) auto

lemma add_or_increment_wf [wf_intros]: "cart_wf c \<Longrightarrow> cart_wf (add_or_increment p c)"
  by (cases "card_id p \<in> set (map item_id c)")
     (auto simp: cart_wf_def add_or_increment_new add_or_increment_existing new_item_def
           intro: list_all_update_first)

lemma remove_item_wf [wf_intros]: "cart_wf c \<Longrightarrow> cart_wf (remove_item k c)"
  by (auto simp: cart_wf_def remove_item_def list_all_iff)

lemma set_quantity_wf [wf_intros]: "cart_wf c \<Longrightarrow> 0 < n \<Longrightarrow> cart_wf (set_quantity k n c)"
  unfolding cart_wf_def by (simp add: set_quantity_def map_update_first list_all_update_first)

lemma quantity_change_wf [wf_intros]:
  "cart_wf c \<Longrightarrow> quantity_change k raw c = Some c' \<Longrightarrow> cart_wf c'"
  unfolding quantity_change_def
  by (auto simp: remove_item_wf set_quantity_wf split: if_splits option.splits)

subsection \<open>Refinement of the contract\<close>

lemma cart_qty_remove_item: "cart_qty (remove_item k c) = spec_remove k (cart_qty c)"
  by (simp add: cart_qty_def remove_item_def spec_remove_def)

lemma cart_qty_set_quantity:
  "k \<in> set (map item_id c) \<Longrightarrow> cart_qty (set_quantity k n c) = (cart_qty c)(k \<mapsto> n)"
  by (cases "find (\<lambda>i. item_id i = k) c")
     (auto simp: cart_qty_def set_quantity_def key_map_update_first)

subsection \<open>Properties\<close>

text \<open>
  C4 (add refines the contract): on the map from ids to quantities, adding a card
  sets the card's id to its old quantity plus one, or to 1 if it was absent, and
  changes no other id; this holds for every cart, well-formed or not.
\<close>

theorem add_or_increment_refines:
  "cart_qty (add_or_increment p c) = spec_add (card_id p) (cart_qty c)"
proof (cases "find (\<lambda>i. item_id i = card_id p) c")
  case None
  then have "card_id p \<notin> set (map item_id c)" by simp
  with None show ?thesis
    using key_map_snoc_new [of item_id "new_item p" c quantity]
    by (simp add: add_or_increment_def find_item_def new_item_def cart_qty_def spec_add_def Let_def)
next
  case (Some y)
  then have "key_map item_id quantity c (card_id p) = Some (quantity y)" by (rule key_map_find)
  with Some show ?thesis
    by (simp add: add_or_increment_def find_item_def new_item_def cart_qty_def spec_add_def Let_def
                  key_map_update_first)
qed

text \<open>
  C5 (quantity edit refines the contract): on the map from ids to quantities, the
  quantity-change handler (lines 86-99), with the cart kept when it does nothing,
  is the contract's set-quantity applied to \<open>parseInt\<close> of the raw value: a number
  \<open>\<ge> 1\<close> on a present id replaces the quantity, a number \<open>\<le> 0\<close> removes the id, and
  NaN or an absent id leave the map unchanged.
\<close>

theorem quantity_change_refines:
  "cart_qty (case quantity_change k raw c of None \<Rightarrow> c | Some c' \<Rightarrow> c') =
     spec_set_quantity k (parse_int raw) (cart_qty c)"
proof (cases "find (\<lambda>i. item_id i = k) c")
  case None
  then have "cart_qty c k = None" by (simp add: cart_qty_def)
  with None show ?thesis
    by (simp add: quantity_change_def find_item_def spec_set_quantity_def)
next
  case (Some y)
  then have q: "cart_qty c k = Some (quantity y)" by (simp add: cart_qty_def key_map_find)
  from Some have "k \<in> set (map item_id c)"
    by (metis find_Some_key image_eqI list.set_map)
  with Some q show ?thesis
    by (auto simp: quantity_change_def find_item_def spec_set_quantity_def int_one_le_iff_zero_less
                   cart_qty_set_quantity cart_qty_remove_item spec_remove_def split: option.split)
qed

text \<open>
  C6 (uniqueness and quantity floor under add): adding a product card to a
  well-formed cart, by incrementing the item with the card's id or appending a new
  item with quantity 1, leaves at most one item per id and every quantity positive.
\<close>

theorem add_or_increment_keeps_wf: "cart_wf c \<Longrightarrow> cart_wf (add_or_increment p c)"
  unfolding cart_wf_def add_or_increment_def find_item_def Let_def
  by (auto simp: map_update_first new_item_def intro: list_all_update_first split: option.splits)

theorem add_or_increment_keeps_wf_witness:
  "cart_wf [\<lparr>item_id = ''P1'', item_name = ''Rose'', price = Some (Fin 10), image = ''r.png'', quantity = 1\<rparr>] \<and>
   cart_wf (add_or_increment \<lparr>card_id = ''P1'', card_name = ''Rose'', card_price = ''10'', card_image = ''r.png''\<rparr>
              [\<lparr>item_id = ''P1'', item_name = ''Rose'', price = Some (Fin 10), image = ''r.png'', quantity = 1\<rparr>])"
proof -
  have wf: "cart_wf [\<lparr>item_id = ''P1'', item_name = ''Rose'', price = Some (Fin 10), image = ''r.png'', quantity = 1\<rparr>]"
    by (simp add: cart_wf_def)
  show ?thesis using wf add_or_increment_keeps_wf [OF wf] by simp
qed

text \<open>
  C7 (quantity floor under quantity edits): a quantity-field change on a
  well-formed cart that the handler acts on yields a well-formed cart: a positive
  parsed quantity replaces the old one, a quantity \<open>\<le> 0\<close> removes the item, so no
  item with quantity \<open>\<le> 0\<close> remains.
\<close>

theorem quantity_change_keeps_wf:
  "cart_wf c \<Longrightarrow> quantity_change k raw c = Some c' \<Longrightarrow> cart_wf c'"
  unfolding quantity_change_def
  by (auto simp: remove_item_wf set_quantity_wf split: if_splits option.splits)

theorem quantity_change_keeps_wf_witness:
  "cart_wf [\<lparr>item_id = ''P1'', item_name = ''Rose'', price = Some (Fin 10), image = ''r.png'', quantity = 2\<rparr>] \<and>
   quantity_change ''P1'' ''0''
     [\<lparr>item_id = ''P1'', item_name = ''Rose'', price = Some (Fin 10), image = ''r.png'', quantity = 2\<rparr>] = Some [] \<and>
   cart_wf []"
proof -
  have wf: "cart_wf [\<lparr>item_id = ''P1'', item_name = ''Rose'', price = Some (Fin 10), image = ''r.png'', quantity = 2\<rparr>]"
    by (simp add: cart_wf_def)
  have q: "quantity_change ''P1'' ''0''
     [\<lparr>item_id = ''P1'', item_name = ''Rose'', price = Some (Fin 10), image = ''r.png'', quantity = 2\<rparr>] = Some []"
    by code_simp
  show ?thesis using wf q quantity_change_keeps_wf [OF wf q] by simp
qed

text \<open>
  C21 (an existing item keeps what it was added with): adding a card whose id is
  already in the cart changes only the quantity of the first item with that id;
  its name, price and image stay those of the first add (the price is fixed at
  the time of add, spec section 3).
\<close>

theorem add_existing_keeps_fields:
  "find_item (card_id p) c = Some i \<Longrightarrow>
     find_item (card_id p) (add_or_increment p c) = Some (i\<lparr>quantity := quantity i + 1\<rparr>)"
proof -
  assume f: "find_item (card_id p) c = Some i"
  then have "i \<in> set c \<and> item_id i = card_id p"
    unfolding find_item_def by (rule find_Some_key)
  then have "card_id p \<in> set (map item_id c)" by force
  with f show ?thesis
    by (simp add: add_or_increment_existing find_item_def find_update_first)
qed

theorem add_existing_keeps_fields_witness:
  "find_item ''P1'' [\<lparr>item_id = ''P1'', item_name = ''Rose'', price = Some (Fin 10), image = ''r.png'', quantity = 1\<rparr>] =
     Some \<lparr>item_id = ''P1'', item_name = ''Rose'', price = Some (Fin 10), image = ''r.png'', quantity = 1\<rparr> \<and>
   find_item ''P1'' (add_or_increment \<lparr>card_id = ''P1'', card_name = ''Other'', card_price = ''99'', card_image = ''o.png''\<rparr>
     [\<lparr>item_id = ''P1'', item_name = ''Rose'', price = Some (Fin 10), image = ''r.png'', quantity = 1\<rparr>]) =
     Some \<lparr>item_id = ''P1'', item_name = ''Rose'', price = Some (Fin 10), image = ''r.png'', quantity = 2\<rparr>"
proof -
  have f: "find_item (card_id \<lparr>card_id = ''P1'', card_name = ''Other'', card_price = ''99'', card_image = ''o.png''\<rparr>)
     [\<lparr>item_id = ''P1'', item_name = ''Rose'', price = Some (Fin 10), image = ''r.png'', quantity = 1\<rparr>] =
     Some \<lparr>item_id = ''P1'', item_name = ''Rose'', price = Some (Fin 10), image = ''r.png'', quantity = 1\<rparr>"
    by (simp add: find_item_def)
  show ?thesis using f add_existing_keeps_fields [OF f] by simp
qed

text \<open>
  C22 (remove refines the contract): on the map from ids to quantities, the
  \<open>filter\<close> of the remove handler deletes the id and nothing else; an absent id is a
  no-op.
\<close>

theorem remove_item_refines: "cart_qty (remove_item k c) = spec_remove k (cart_qty c)"
  by (rule cart_qty_remove_item)

end
