(* ===== verification/Json.thy ===== *)
theory Json
  imports JsNum
begin

text \<open>
  \<open>JSON.stringify\<close> and \<open>JSON.parse\<close>, the built-ins through which the cart is saved
  (script.js line 30) and loaded (line 3), after the ECMAScript and JSON (RFC 8259)
  specifications. A JSON value is the datatype \<open>json\<close>; numbers are exact
  rationals as in \<open>JsNum\<close>. \<open>JSON.parse\<close> builds an object by setting properties in
  order, so a repeated key keeps its first position and takes its last value
  (\<open>obj_set\<close>). Strings are byte strings: \<open>\\uXXXX\<close> escapes are decoded to UTF-8
  (a surrogate pair to one four-byte sequence, a lone surrogate to its three-byte
  form), bytes from 0x80 up are kept as they are. The parser is recursive descent
  with fuel; \<open>json_parse\<close> gives it one unit per input character, and each level
  of the descent spends one.
\<close>

datatype json = JNull | JBool bool | JNum rat | JStr string | JArr "json list"
  | JObj "(string \<times> json) list"

subsection \<open>JSON.stringify\<close>

definition hex_digit :: "int \<Rightarrow> char" where
  "hex_digit d = (if d < 10 then char_of (48 + d) else char_of (87 + d))"

text \<open>\<open>QuoteJSONString\<close>, one code unit: the two-character escapes, \<open>\\u00xx\<close> for the
  other control characters, the character itself otherwise.\<close>

definition quote_char :: "char \<Rightarrow> string" where
  "quote_char c =
     (let n = of_char c :: int
      in if n = 34 then [CHR 0x5C, CHR 0x22]
         else if n = 92 then [CHR 0x5C, CHR 0x5C]
         else if n = 8 then [CHR 0x5C, CHR ''b'']
         else if n = 12 then [CHR 0x5C, CHR ''f'']
         else if n = 10 then [CHR 0x5C, CHR ''n'']
         else if n = 13 then [CHR 0x5C, CHR ''r'']
         else if n = 9 then [CHR 0x5C, CHR ''t'']
         else if n < 32 then [CHR 0x5C, CHR ''u'', CHR ''0'', CHR ''0'', hex_digit (n div 16), hex_digit (n mod 16)]
         else [c])"

definition json_quote :: "string \<Rightarrow> string" where
  "json_quote s = CHR 0x22 # concat (map quote_char s) @ [CHR 0x22]"

fun json_text :: "json \<Rightarrow> string" where
  "json_text JNull = ''null''"
| "json_text (JBool b) = (if b then ''true'' else ''false'')"
| "json_text (JNum r) = js_to_string (Fin r)"
| "json_text (JStr s) = json_quote s"
| "json_text (JArr vs) = ''['' @ join_with '','' (map json_text vs) @ '']''"
| "json_text (JObj ps) =
     ''{'' @ join_with '','' (map (\<lambda>(k, v). json_quote k @ '':'' @ json_text v) ps) @ ''}''"

subsection \<open>JSON.parse\<close>

definition is_json_ws :: "char \<Rightarrow> bool" where
  "is_json_ws c \<longleftrightarrow> of_char c \<in> {9, 10, 13, 32 :: int}"

definition skip_ws :: "string \<Rightarrow> string" where
  "skip_ws s = dropWhile is_json_ws s"

text \<open>
  A JSON number: \<open>-\<close>?, then \<open>0\<close> or a non-zero digit and digits, then optionally
  \<open>.\<close> and at least one digit, then optionally \<open>e\<close>/\<open>E\<close>, a sign and at least one
  digit. A point or an exponent marker not followed by a digit is a syntax error.
\<close>

definition parse_json_number :: "string \<Rightarrow> (rat \<times> string) option" where
  "parse_json_number s =
     (let (neg, s1) = (case s of c # r \<Rightarrow> if c = CHR ''-'' then (True, r) else (False, s) | [] \<Rightarrow> (False, []));
          ip = (case s1 of c # r \<Rightarrow> if c = CHR ''0'' then [0] else radix_prefix 10 s1 | [] \<Rightarrow> []);
          s2 = drop (length ip) s1;
          fr = (case s2 of c # r \<Rightarrow> if c = CHR ''.'' then Some (radix_prefix 10 r) else None | [] \<Rightarrow> None);
          s3 = (case fr of Some fp \<Rightarrow> drop (Suc (length fp)) s2 | None \<Rightarrow> s2);
          fp = (case fr of Some fp \<Rightarrow> fp | None \<Rightarrow> []);
          ex = (case s3 of
                  c # r \<Rightarrow>
                    if c = CHR ''e'' \<or> c = CHR ''E'' then
                      (let (sg, t) = (case r of
                                        d # t \<Rightarrow> if d = CHR ''-'' then (-1 :: int, t)
                                                 else if d = CHR ''+'' then (1, t) else (1, r)
                                      | [] \<Rightarrow> (1, []));
                           ds = radix_prefix 10 t
                       in Some (ds, sg * digits_value 10 ds, drop (length ds) t))
                    else None
                | [] \<Rightarrow> None)
      in if ip = [] \<or> fr = Some [] \<or> (case ex of Some (ds, _, _) \<Rightarrow> ds = [] | None \<Rightarrow> False) then None
         else
           (let e = (case ex of Some (_, e, _) \<Rightarrow> e | None \<Rightarrow> 0);
                rest = (case ex of Some (_, _, t) \<Rightarrow> t | None \<Rightarrow> s3);
                v = scale10 (of_int (digits_value 10 (ip @ fp))) (e - int (length fp))
            in Some (if neg then - v else v, rest)))"

text \<open>The UTF-8 bytes of a code point (any value below \<open>0x110000\<close>).\<close>

definition utf8_bytes :: "int \<Rightarrow> string" where
  "utf8_bytes u =
     (if u < 128 then [char_of u]
      else if u < 2048 then [char_of (192 + u div 64), char_of (128 + u mod 64)]
      else if u < 65536 then
        [char_of (224 + u div 4096), char_of (128 + (u div 64) mod 64), char_of (128 + u mod 64)]
      else [char_of (240 + u div 262144), char_of (128 + (u div 4096) mod 64),
            char_of (128 + (u div 64) mod 64), char_of (128 + u mod 64)])"

definition hex4 :: "string \<Rightarrow> int option" where
  "hex4 s = (let ds = radix_prefix 16 (take 4 s) in if length ds = 4 then Some (digits_value 16 ds) else None)"

definition simple_escape :: "char \<Rightarrow> char option" where
  "simple_escape e =
     (if e = CHR 0x22 \<or> e = CHR 0x5C \<or> e = CHR ''/'' then Some e
      else if e = CHR ''b'' then Some (char_of (8 :: int))
      else if e = CHR ''f'' then Some (char_of (12 :: int))
      else if e = CHR ''n'' then Some (char_of (10 :: int))
      else if e = CHR ''r'' then Some (char_of (13 :: int))
      else if e = CHR ''t'' then Some (char_of (9 :: int))
      else None)"

text \<open>
  The body of a string literal after its opening quote, up to and without the
  closing quote: the decoded bytes and the rest of the input. A control character
  or an unknown escape is a syntax error.
\<close>

function parse_str_body :: "string \<Rightarrow> (string \<times> string) option" where
  "parse_str_body [] = None"
| "parse_str_body (c # cs) =
     (if c = CHR 0x22 then Some ([], cs)
      else if c = CHR 0x5C then
        (case cs of
           [] \<Rightarrow> None
         | e # r \<Rightarrow>
             if e = CHR ''u'' then
               (case hex4 r of
                  None \<Rightarrow> None
                | Some u \<Rightarrow>
                    (let r' = drop 4 r
                     in if 55296 \<le> u \<and> u < 56320 \<and> take 2 r' = [CHR 0x5C, CHR ''u'']
                           \<and> (case hex4 (drop 2 r') of Some l \<Rightarrow> 56320 \<le> l \<and> l < 57344 | None \<Rightarrow> False)
                        then (let l = the (hex4 (drop 2 r'))
                              in map_option (\<lambda>(t, rest). (utf8_bytes (65536 + (u - 55296) * 1024 + (l - 56320)) @ t, rest))
                                   (parse_str_body (drop 6 r')))
                        else map_option (\<lambda>(t, rest). (utf8_bytes u @ t, rest)) (parse_str_body r')))
             else
               (case simple_escape e of
                  None \<Rightarrow> None
                | Some d \<Rightarrow> map_option (\<lambda>(t, rest). (d # t, rest)) (parse_str_body r)))
      else if (of_char c :: int) < 32 then None
      else map_option (\<lambda>(t, rest). (c # t, rest)) (parse_str_body cs))"
  by pat_completeness auto
termination
  by (relation "measure length") auto

text \<open>
  An object is built by setting its properties in order (\<open>CreateDataProperty\<close>):
  a key already present keeps its position and takes the new value.
\<close>

definition obj_set :: "string \<Rightarrow> json \<Rightarrow> (string \<times> json) list \<Rightarrow> (string \<times> json) list" where
  "obj_set k v ps =
     (if k \<in> set (map fst ps) then update_first (\<lambda>p. fst p = k) (\<lambda>p. (k, v)) ps else ps @ [(k, v)])"

text \<open>
  Recursive descent with fuel \<open>f\<close>: \<open>parse_value\<close> reads one value after white
  space; \<open>parse_elems\<close> reads the rest of an array after an element (a comma and an
  element, or the closing bracket), \<open>parse_membs\<close> the rest of an object after a
  member. Running out of fuel gives \<open>None\<close>.
\<close>

function (sequential) parse_value :: "nat \<Rightarrow> string \<Rightarrow> (json \<times> string) option"
and parse_elems :: "nat \<Rightarrow> json list \<Rightarrow> string \<Rightarrow> (json list \<times> string) option"
and parse_member :: "nat \<Rightarrow> (string \<times> json) list \<Rightarrow> string \<Rightarrow> ((string \<times> json) list \<times> string) option"
and parse_membs :: "nat \<Rightarrow> (string \<times> json) list \<Rightarrow> string \<Rightarrow> ((string \<times> json) list \<times> string) option"
where
  "parse_value 0 s = None"
| "parse_value (Suc f) s =
     (case skip_ws s of
        [] \<Rightarrow> None
      | c # r \<Rightarrow>
          if c = CHR ''n'' \<and> take 3 r = ''ull'' then Some (JNull, drop 3 r)
          else if c = CHR ''t'' \<and> take 3 r = ''rue'' then Some (JBool True, drop 3 r)
          else if c = CHR ''f'' \<and> take 4 r = ''alse'' then Some (JBool False, drop 4 r)
          else if c = CHR 0x22 then map_option (\<lambda>(t, rest). (JStr t, rest)) (parse_str_body r)
          else if c = CHR ''['' then
            (case skip_ws r of
               d # r' \<Rightarrow> if d = CHR '']'' then Some (JArr [], r')
                        else (case parse_value f r of
                                None \<Rightarrow> None
                              | Some (v, r'') \<Rightarrow> map_option (\<lambda>(vs, rest). (JArr vs, rest)) (parse_elems f [v] r''))
             | [] \<Rightarrow> None)
          else if c = CHR ''{'' then
            (case skip_ws r of
               d # r' \<Rightarrow> if d = CHR ''}'' then Some (JObj [], r')
                        else map_option (\<lambda>(ps, rest). (JObj ps, rest)) (parse_member f [] r)
             | [] \<Rightarrow> None)
          else map_option (\<lambda>(x, rest). (JNum x, rest)) (parse_json_number (c # r)))"
| "parse_elems 0 vs s = None"
| "parse_elems (Suc f) vs s =
     (case skip_ws s of
        d # r \<Rightarrow>
          if d = CHR '']'' then Some (vs, r)
          else if d = CHR '','' then
            (case parse_value f r of None \<Rightarrow> None | Some (v, r') \<Rightarrow> parse_elems f (vs @ [v]) r')
          else None
      | [] \<Rightarrow> None)"
| "parse_member 0 ps s = None"
| "parse_member (Suc f) ps s =
     (case skip_ws s of
        d # r \<Rightarrow>
          if d = CHR 0x22 then
            (case parse_str_body r of
               None \<Rightarrow> None
             | Some (k, r') \<Rightarrow>
                 (case skip_ws r' of
                    e # r'' \<Rightarrow>
                      if e = CHR '':'' then
                        (case parse_value f r'' of
                           None \<Rightarrow> None
                         | Some (v, r''') \<Rightarrow> parse_membs f (obj_set k v ps) r''')
                      else None
                  | [] \<Rightarrow> None))
          else None
      | [] \<Rightarrow> None)"
| "parse_membs 0 ps s = None"
| "parse_membs (Suc f) ps s =
     (case skip_ws s of
        d # r \<Rightarrow>
          if d = CHR ''}'' then Some (ps, r)
          else if d = CHR '','' then parse_member f ps r
          else None
      | [] \<Rightarrow> None)"
  by pat_completeness auto
termination
  by (relation "measure (case_sum (case_sum fst fst) (case_sum fst fst))") auto

text \<open>\<open>JSON.parse(text)\<close>: one value, then only white space; \<open>None\<close> is the \<open>SyntaxError\<close>.\<close>

definition json_parse :: "string \<Rightarrow> json option" where
  "json_parse s =
     (case parse_value (Suc (length s)) s of
        Some (v, rest) \<Rightarrow> if skip_ws rest = [] then Some v else None
      | None \<Rightarrow> None)"

end
