(* ===== verification/JsonText.thy ===== *)
theory JsonText
  imports Json
begin

text \<open>
  The text-level round trip of the JSON built-ins: what \<open>JSON.stringify\<close>
  (\<open>json_text\<close>) writes, \<open>JSON.parse\<close> (\<open>json_parse\<close>) reads back as the same value,
  for every value whose numbers are finite decimals (\<open>is_decimal\<close>, which every
  number the cart holds is) and whose objects have distinct keys (\<open>json_ok\<close>).
  The proof goes bottom-up: digit lists (\<open>int_digits\<close>, \<open>digits_value\<close>); the
  generic number literal that \<open>parse_json_number\<close> reads
  (\<open>parse_json_number_lit\<close>); the five output forms of \<open>Number::toString\<close>
  (\<open>pos_to_string_lit\<close>), which needs \<open>dec_exp_search\<close> to find the exponent of
  every finite decimal (\<open>dvd_pow10_bound\<close>); string quoting (\<open>parse_str_body_quote\<close>);
  and values by induction on the nested datatype, with fuel at least the length of
  the text (\<open>json_text_reads_back\<close>), which \<open>json_parse\<close> provides.
\<close>

text \<open>The unfolding equations of the digit functions loop under \<open>simp\<close>; the lemmas below
  unfold them one step at a time.\<close>

declare int_digits.simps [simp del] strip10.simps [simp del] dec_exp_search.simps [simp del]

definition is_digit :: "int \<Rightarrow> bool" where
  "is_digit d \<longleftrightarrow> 0 \<le> d \<and> d < 10"

lemma scale10_powi: "scale10 x e = x * power_int 10 e"
proof (cases "0 \<le> e")
  case True
  then show ?thesis by (simp add: scale10_def power_int_def)
next
  case False
  then show ?thesis unfolding scale10_def power_int_def by (simp only: if_False power_inverse divide_inverse)
qed

lemma foldl_digits_shift:
  "foldl (\<lambda>a d. R * a + d) (a :: int) ds = a * R ^ length ds + foldl (\<lambda>a d. R * a + d) 0 ds"
proof (induction ds arbitrary: a)
  case Nil then show ?case by simp
next
  case (Cons d ds)
  have "foldl (\<lambda>a d. R * a + d) (R * a + d) ds = (R * a + d) * R ^ length ds + foldl (\<lambda>a d. R * a + d) 0 ds"
    by (rule Cons.IH)
  moreover have "foldl (\<lambda>a d. R * a + d) d ds = d * R ^ length ds + foldl (\<lambda>a d. R * a + d) 0 ds"
    by (rule Cons.IH)
  ultimately show ?case by (simp add: algebra_simps)
qed

lemma digits_value_append:
  "digits_value R (xs @ ys) = digits_value R xs * R ^ length ys + digits_value R ys"
  unfolding digits_value_def by (simp only: foldl_append) (rule foldl_digits_shift)

lemma digits_value_Nil [simp]: "digits_value R [] = 0"
  by (simp add: digits_value_def)

lemma digits_value_replicate_0 [simp]: "digits_value R (replicate n 0) = 0"
  by (induction n) (simp_all add: digits_value_def)

lemma digits_value_zero_Cons [simp]: "digits_value R (0 # ds) = digits_value R ds"
  using digits_value_append [of R "[0]" ds] by (simp add: digits_value_def)

lemma digits_value_zeros_append [simp]: "digits_value R (replicate j 0 @ ds) = digits_value R ds"
  by (induction j) simp_all

lemma int_digits_unfold: "int_digits n = (if n < 10 then [n] else int_digits (n div 10) @ [n mod 10])"
  by (rule int_digits.simps)

lemma int_digits_small: "n < 10 \<Longrightarrow> int_digits n = [n]"
  by (subst int_digits_unfold) simp

lemma int_digits_big: "\<not> n < 10 \<Longrightarrow> int_digits n = int_digits (n div 10) @ [n mod 10]"
  by (subst int_digits_unfold) simp

lemma int_digits_props:
  "0 \<le> n \<Longrightarrow> list_all is_digit (int_digits n) \<and> digits_value 10 (int_digits n) = n \<and>
     (0 < n \<longrightarrow> 0 < hd (int_digits n))"
proof (induction n rule: int_digits.induct)
  case (1 n)
  show ?case
  proof (cases "n < 10")
    case True
    then show ?thesis using "1.prems" by (simp add: int_digits_small is_digit_def digits_value_def)
  next
    case False
    then have ih: "list_all is_digit (int_digits (n div 10)) \<and> digits_value 10 (int_digits (n div 10)) = n div 10 \<and>
        (0 < n div 10 \<longrightarrow> 0 < hd (int_digits (n div 10)))"
      using "1.IH" by simp
    have ne: "int_digits (n div 10) \<noteq> []" by (subst int_digits_unfold) simp
    have dv: "digits_value 10 (int_digits (n div 10) @ [n mod 10]) = n"
      using ih by (simp add: digits_value_append) (simp add: digits_value_def)
    have "is_digit (n mod 10)" by (simp add: is_digit_def)
    with False ih ne dv show ?thesis by (simp add: int_digits_big hd_append)
  qed
qed

lemma int_digits_ne [simp]: "int_digits n \<noteq> []"
  by (cases "n < 10") (simp_all add: int_digits_small int_digits_big)

lemma radix_digit_digit_char: "is_digit d \<Longrightarrow> radix_digit 10 (digit_char d) = Some d"
  by (simp add: is_digit_def radix_digit_def digit_char_def)

lemma radix_prefix_digits:
  "list_all is_digit ds \<Longrightarrow> radix_prefix 10 (map digit_char ds @ t) = ds @ radix_prefix 10 t"
  by (induction ds) (simp_all add: radix_digit_digit_char)

lemma of_char_digit_char: "is_digit d \<Longrightarrow> (of_char (digit_char d) :: int) = 48 + d"
  by (simp add: is_digit_def digit_char_def)

lemma digit_char_eq_iff: "is_digit d \<Longrightarrow> digit_char d = c \<longleftrightarrow> (of_char c :: int) = 48 + d"
proof -
  assume d: "is_digit d"
  have "digit_char d = c \<longleftrightarrow> (of_char (digit_char d) :: int) = of_char c" by (rule of_char_eq_iff [symmetric])
  with d show ?thesis by (simp add: of_char_digit_char eq_commute)
qed

definition num_stop :: "string \<Rightarrow> bool" where
  "num_stop r =
     (case r of [] \<Rightarrow> True
      | c # _ \<Rightarrow> radix_digit 10 c = None \<and> c \<noteq> CHR ''.'' \<and> c \<noteq> CHR ''e'' \<and> c \<noteq> CHR ''E'')"

definition frac_text :: "int list \<Rightarrow> string" where
  "frac_text fp = (if fp = [] then [] else CHR ''.'' # map digit_char fp)"

definition exp_text :: "int option \<Rightarrow> string" where
  "exp_text ex = (case ex of None \<Rightarrow> [] | Some x \<Rightarrow> exp_suffix x)"

definition int_part :: "int list \<Rightarrow> bool" where
  "int_part ip \<longleftrightarrow> ip \<noteq> [] \<and> list_all is_digit ip \<and> (hd ip = 0 \<longrightarrow> ip = [0])"

lemma num_stop_prefix: "num_stop r \<Longrightarrow> radix_prefix 10 r = []"
  unfolding num_stop_def by (auto split: list.splits)

lemma exp_text_eq:
  "exp_text (Some x) =
     CHR ''e'' # (if 0 \<le> x then CHR ''+'' else CHR ''-'') # map digit_char (int_digits \<bar>x\<bar>)"
  by (simp add: exp_text_def exp_suffix_def int_to_string_def)

lemma num_stop_no_exp:
  "num_stop rest \<Longrightarrow>
     (case rest of c # r \<Rightarrow> if c = CHR ''e'' \<or> c = CHR ''E'' then F c r else None | [] \<Rightarrow> None) = None"
  unfolding num_stop_def by (auto split: list.splits)

lemma drop_map_append: "drop (length ds) (map f ds @ ys) = ys"
  by simp

lemma exp_part:
  assumes "num_stop rest"
  shows "(case exp_text ex @ rest of
            c # r \<Rightarrow>
              if c = CHR ''e'' \<or> c = CHR ''E'' then
                (let (sg, t) = (case r of
                                  d # t \<Rightarrow> if d = CHR ''-'' then (-1 :: int, t)
                                           else if d = CHR ''+'' then (1, t) else (1, r)
                                | [] \<Rightarrow> (1, []));
                     ds = radix_prefix 10 t
                 in Some (ds, sg * digits_value 10 ds, drop (length ds) t))
              else None
          | [] \<Rightarrow> None) =
         (case ex of None \<Rightarrow> None | Some x \<Rightarrow> Some (int_digits \<bar>x\<bar>, x, rest))"
proof (cases ex)
  case None
  then show ?thesis using assms by (simp only: exp_text_def option.case append_Nil num_stop_no_exp)
next
  case (Some x)
  define a where "a = \<bar>x\<bar>"
  have d: "list_all is_digit (int_digits a)" "digits_value 10 (int_digits a) = a"
    using int_digits_props [of a] by (simp_all add: a_def)
  have r: "radix_prefix 10 (map digit_char (int_digits a) @ rest) = int_digits a"
    by (simp only: radix_prefix_digits [OF d(1)] num_stop_prefix [OF assms] append_Nil2)
  have e: "exp_text (Some x) = CHR ''e'' # (if 0 \<le> x then CHR ''+'' else CHR ''-'') # map digit_char (int_digits a)"
    by (simp only: exp_text_eq a_def)
  have pm: "(CHR ''+'' = CHR ''-'') = False" by simp
  show ?thesis
  proof (cases "0 \<le> x")
    case True
    then show ?thesis
      by (simp only: Some option.case e if_True if_False append_Cons list.case simp_thms pm Let_def prod.case r
          drop_map_append d(2) a_def [symmetric]) (simp add: a_def)
  next
    case False
    then show ?thesis
      by (simp only: Some option.case e if_True if_False append_Cons list.case simp_thms Let_def prod.case r
          drop_map_append d(2) a_def [symmetric]) (simp add: a_def)
  qed
qed

definition frac_stop :: "string \<Rightarrow> bool" where
  "frac_stop u = (case u of [] \<Rightarrow> True | c # _ \<Rightarrow> radix_digit 10 c = None \<and> c \<noteq> CHR ''.'')"

lemma radix_digit_e: "radix_digit 10 (CHR ''e'') = None"
  by (simp add: radix_digit_def)

lemma frac_stop_exp: "num_stop rest \<Longrightarrow> frac_stop (exp_text ex @ rest)"
proof (cases ex)
  case None
  then show "num_stop rest \<Longrightarrow> frac_stop (exp_text ex @ rest)"
    unfolding frac_stop_def num_stop_def exp_text_def by (auto split: list.splits)
next
  case (Some x)
  then show "num_stop rest \<Longrightarrow> frac_stop (exp_text ex @ rest)"
    by (simp add: frac_stop_def exp_text_eq radix_digit_e)
qed

lemma frac_stop_prefix: "frac_stop u \<Longrightarrow> radix_prefix 10 u = []"
  unfolding frac_stop_def by (auto split: list.splits)

lemma sign_stage:
  assumes "int_part ip"
  shows "(case (if neg then ''-'' else []) @ map digit_char ip @ t of
            c # r \<Rightarrow> if c = CHR ''-'' then (True, r) else (False, (if neg then ''-'' else []) @ map digit_char ip @ t)
          | [] \<Rightarrow> (False, [])) = (neg, map digit_char ip @ t)"
proof -
  obtain d ds where ip: "ip = d # ds" and d: "is_digit d" using assms by (cases ip) (auto simp: int_part_def)
  have "digit_char d \<noteq> CHR ''-''" using d by (simp add: digit_char_eq_iff is_digit_def)
  then show ?thesis by (cases neg) (simp_all add: ip)
qed

lemma int_stage:
  assumes "int_part ip" and "radix_prefix 10 t = []"
  shows "(case map digit_char ip @ t of
            c # r \<Rightarrow> if c = CHR ''0'' then [0] else radix_prefix 10 (map digit_char ip @ t)
          | [] \<Rightarrow> []) = ip"
proof -
  obtain d ds where ip: "ip = d # ds" and d: "is_digit d" and z: "d = 0 \<longrightarrow> ds = []"
    using assms(1) by (cases ip) (auto simp: int_part_def)
  have all: "list_all is_digit ip" using assms(1) by (simp add: int_part_def)
  show ?thesis
  proof (cases "d = 0")
    case True
    then show ?thesis using z d by (simp add: ip digit_char_eq_iff)
  next
    case False
    then have "digit_char d \<noteq> CHR ''0''" using d by (simp add: digit_char_eq_iff)
    then show ?thesis using radix_prefix_digits [OF all, of t] assms(2) by (simp add: ip)
  qed
qed

lemma frac_stage_none:
  "frac_stop u \<Longrightarrow> (case u of c # r \<Rightarrow> if c = CHR ''.'' then Some (radix_prefix 10 r) else None | [] \<Rightarrow> None) = None"
  unfolding frac_stop_def by (auto split: list.splits)

lemma frac_stage_some:
  "list_all is_digit fp \<Longrightarrow> frac_stop u \<Longrightarrow>
     (case CHR ''.'' # map digit_char fp @ u of
        c # r \<Rightarrow> if c = CHR ''.'' then Some (radix_prefix 10 r) else None | [] \<Rightarrow> None) = Some fp"
  by (simp add: radix_prefix_digits frac_stop_prefix)

definition lit_value :: "int list \<Rightarrow> int list \<Rightarrow> int option \<Rightarrow> rat" where
  "lit_value ip fp ex =
     scale10 (of_int (digits_value 10 (ip @ fp))) ((case ex of None \<Rightarrow> 0 | Some x \<Rightarrow> x) - int (length fp))"

lemma radix_digit_point: "radix_digit 10 (CHR ''.'') = None"
  by (simp add: radix_digit_def)

lemma parse_json_number_lit:
  assumes ip: "int_part ip" and fp: "list_all is_digit fp" and rest: "num_stop rest"
  shows "parse_json_number ((if neg then ''-'' else []) @ map digit_char ip @ frac_text fp @ exp_text ex @ rest) =
         Some (if neg then - lit_value ip fp ex else lit_value ip fp ex, rest)"
proof -
  define u where "u = exp_text ex @ rest"
  have fs: "frac_stop u" using rest by (simp add: u_def frac_stop_exp)
  have E: "(case u of
            c # r \<Rightarrow>
              if c = CHR ''e'' \<or> c = CHR ''E'' then
                (let (sg, t) = (case r of
                                  d # t \<Rightarrow> if d = CHR ''-'' then (-1 :: int, t)
                                           else if d = CHR ''+'' then (1, t) else (1, r)
                                | [] \<Rightarrow> (1, []));
                     ds = radix_prefix 10 t
                 in Some (ds, sg * digits_value 10 ds, drop (length ds) t))
              else None
          | [] \<Rightarrow> None) =
         (case ex of None \<Rightarrow> None | Some x \<Rightarrow> Some (int_digits \<bar>x\<bar>, x, rest))"
    unfolding u_def by (rule exp_part [OF rest])
  have ne: "ip \<noteq> []" using ip by (simp add: int_part_def)
  show ?thesis
  proof (cases "fp = []")
    case True
    have A: "(case (if neg then ''-'' else []) @ map digit_char ip @ u of
            c # r \<Rightarrow> if c = CHR ''-'' then (True, r) else (False, (if neg then ''-'' else []) @ map digit_char ip @ u)
          | [] \<Rightarrow> (False, [])) = (neg, map digit_char ip @ u)" by (rule sign_stage [OF ip])
    have B: "(case map digit_char ip @ u of
            c # r \<Rightarrow> if c = CHR ''0'' then [0] else radix_prefix 10 (map digit_char ip @ u)
          | [] \<Rightarrow> []) = ip" by (rule int_stage [OF ip frac_stop_prefix [OF fs]])
    have ft: "frac_text fp @ u = u" using True by (simp add: frac_text_def)
    show ?thesis
      using True ne
      unfolding u_def [symmetric] ft parse_json_number_def Let_def
      by (simp only: A prod.case B drop_map_append frac_stage_none [OF fs] option.case E [unfolded Let_def])
         (cases ex; simp add: lit_value_def u_def exp_text_def)
  next
    case False
    define t where "t = CHR ''.'' # map digit_char fp @ u"
    have ft: "frac_text fp @ u = t" using False by (simp add: frac_text_def t_def)
    have rt: "radix_prefix 10 t = []" by (simp add: t_def radix_digit_point)
    have A: "(case (if neg then ''-'' else []) @ map digit_char ip @ t of
            c # r \<Rightarrow> if c = CHR ''-'' then (True, r) else (False, (if neg then ''-'' else []) @ map digit_char ip @ t)
          | [] \<Rightarrow> (False, [])) = (neg, map digit_char ip @ t)" by (rule sign_stage [OF ip])
    have B: "(case map digit_char ip @ t of
            c # r \<Rightarrow> if c = CHR ''0'' then [0] else radix_prefix 10 (map digit_char ip @ t)
          | [] \<Rightarrow> []) = ip" by (rule int_stage [OF ip rt])
    have F: "(case t of c # r \<Rightarrow> if c = CHR ''.'' then Some (radix_prefix 10 r) else None | [] \<Rightarrow> None) = Some fp"
      unfolding t_def by (rule frac_stage_some [OF fp fs])
    have D: "drop (Suc (length fp)) t = u" by (simp add: t_def)
    show ?thesis
      using False ne
      unfolding u_def [symmetric] ft parse_json_number_def Let_def
      by (simp only: A prod.case B drop_map_append F option.case D E [unfolded Let_def])
         (cases ex; simp add: lit_value_def u_def exp_text_def)
  qed
qed

subsection \<open>Finite decimals\<close>

lemma dvd_pow10_bound: "0 < q \<Longrightarrow> q dvd 10 ^ e \<Longrightarrow> q dvd (10 :: int) ^ nat q"
proof (induction e arbitrary: q)
  case 0
  then have "q = 1" by (simp add: zdvd1_eq)
  then show ?case by simp
next
  case (Suc e)
  define g where "g = gcd q 10"
  have g0: "0 < g" using Suc.prems(1) by (simp add: g_def)
  have gq: "g dvd q" and g10: "g dvd 10" by (simp_all add: g_def)
  have cop: "coprime (q div g) (10 div g)" using Suc.prems(1) by (simp add: g_def div_gcd_coprime)
  have "g * (q div g) dvd g * ((10 div g) * 10 ^ e)"
    using Suc.prems(2) gq g10 by (simp add: mult.assoc [symmetric])
  then have "q div g dvd (10 div g) * 10 ^ e" using g0 by simp
  then have d: "q div g dvd 10 ^ e" using cop by (simp add: coprime_dvd_mult_right_iff)
  have qg0: "0 < q div g" using Suc.prems(1) gq g0 by (simp add: pos_imp_zdiv_pos_iff zdvd_imp_le)
  have ih: "q div g dvd 10 ^ nat (q div g)" by (rule Suc.IH [OF qg0 d])
  show ?case
  proof (cases "g = 1")
    case True
    then show ?thesis using ih by simp
  next
    case False
    then have g2: "2 \<le> g" using g0 by simp
    have "q div g * 2 \<le> q div g * g" using g2 qg0 by (simp add: mult_left_mono)
    also have "\<dots> = q" using gq by simp
    finally have le: "nat (q div g) + 1 \<le> nat q" using qg0 by simp
    have "g * (q div g) dvd 10 * 10 ^ nat (q div g)" using g10 ih by (rule mult_dvd_mono)
    then have "q dvd 10 ^ (nat (q div g) + 1)" using gq by simp
    also have "\<dots> dvd 10 ^ nat q" using le by (rule le_imp_power_dvd)
    finally show ?thesis .
  qed
qed

lemma dec_exp_search_Some:
  "q dvd 10 ^ nat q \<Longrightarrow> e \<le> nat q \<Longrightarrow> \<exists>e'. dec_exp_search e q = Some e' \<and> q dvd 10 ^ e'"
proof (induction e q rule: dec_exp_search.induct)
  case (1 e q)
  show ?case
  proof (cases "q dvd 10 ^ e")
    case True
    then show ?thesis by (subst dec_exp_search.simps) simp
  next
    case False
    then have "e \<noteq> nat q" using "1.prems"(1) by auto
    then have "\<not> q \<le> int e" "Suc e \<le> nat q" using "1.prems"(2) by auto
    then show ?thesis using False "1.IH" "1.prems"(1) by (subst dec_exp_search.simps) simp
  qed
qed

lemma dec_exp_search_dvd: "dec_exp_search e0 q = Some e \<Longrightarrow> q dvd 10 ^ e"
proof (induction e0 q rule: dec_exp_search.induct)
  case (1 e0 q)
  then show ?case by (subst (asm) dec_exp_search.simps) (auto split: if_splits)
qed

lemma dec_parts_exact:
  assumes "0 < p" "0 < q" "dec_exp_search 0 q = Some e"
  shows "dec_parts p q = (p * (10 ^ e div q), e) \<and> 0 < p * (10 ^ e div q) \<and>
         (of_int (p * (10 ^ e div q)) :: rat) / 10 ^ e = of_int p / of_int q"
proof -
  have d: "q dvd 10 ^ e" using assms(3) by (rule dec_exp_search_dvd)
  then obtain t where t: "10 ^ e = q * t" by (rule dvdE)
  have t0: "0 < t" using t assms(2) by (metis zero_less_mult_iff zero_less_power zero_less_numeral not_less_iff_gr_or_eq)
  have "10 ^ e div q = t" using t assms(2) by simp
  moreover have "(of_int (p * t) :: rat) / 10 ^ e = of_int p / of_int q"
  proof -
    have "(10 :: rat) ^ e = of_int q * of_int t" using arg_cong [OF t, of "of_int :: int \<Rightarrow> rat"] by simp
    then show ?thesis using t0 assms(2) by (simp add: field_simps)
  qed
  ultimately show ?thesis using assms(1,3) t0 by (simp add: dec_parts_def)
qed

lemma strip10_props: "0 < m \<Longrightarrow> strip10 m = (s, z) \<Longrightarrow> 0 < s \<and> m = s * 10 ^ z"
proof (induction m arbitrary: s z rule: strip10.induct)
  case (1 m)
  show ?case
  proof (cases "m mod 10 = 0")
    case True
    obtain s' z' where st: "strip10 (m div 10) = (s', z')" by (cases "strip10 (m div 10)")
    have m10: "0 < m div 10" using "1.prems"(1) True by (auto simp: pos_imp_zdiv_pos_iff dest: mod_0_imp_dvd zdvd_imp_le)
    have ih: "0 < s' \<and> m div 10 = s' * 10 ^ z'" using "1.IH" [OF _ m10 st] "1.prems"(1) True by simp
    have "s = s' \<and> z = Suc z'" using "1.prems" True st by (subst (asm) strip10.simps) simp
    moreover have "m = 10 * (m div 10)" using True div_mult_mod_eq [of m 10] by simp
    ultimately show ?thesis using ih by simp
  next
    case False
    then show ?thesis using "1.prems" by (subst (asm) strip10.simps) simp
  qed
qed

lemma digit_char_0 [simp]: "digit_char 0 = CHR ''0''"
  by (simp add: digit_char_eq_iff is_digit_def)

lemma is_digit_0 [simp]: "is_digit 0"
  by (simp add: is_digit_def)

lemma list_all_digit_replicate_0 [simp]: "list_all is_digit (replicate j 0)"
  by (induction j) simp_all

lemma list_all_take_drop:
  "list_all P xs \<Longrightarrow> list_all P (take i xs) \<and> list_all P (drop i xs)"
  by (auto simp: list_all_iff dest: in_set_takeD in_set_dropD)

lemma power_int_nat_diff: "0 \<le> a \<Longrightarrow> (10 :: rat) ^ nat a = power_int 10 a"
  by (simp add: power_int_def)

lemma pos_to_string_lit:
  assumes p: "0 < p" and q: "0 < q" and dec: "dec_exp_search 0 q \<noteq> None"
  shows "\<exists>ip fp ex. pos_to_string p q = map digit_char ip @ frac_text fp @ exp_text ex \<and>
           int_part ip \<and> list_all is_digit fp \<and> lit_value ip fp ex = of_int p / of_int q"
proof -
  obtain e where se: "dec_exp_search 0 q = Some e" using dec by auto
  define m where "m = p * (10 ^ e div q)"
  have dp: "dec_parts p q = (m, e)" and m0: "0 < m" and mv: "(of_int m :: rat) / 10 ^ e = of_int p / of_int q"
    using dec_parts_exact [OF p q se] by (simp_all add: m_def)
  obtain s z where st: "strip10 m = (s, z)" by (cases "strip10 m")
  have s0: "0 < s" and ms: "m = s * 10 ^ z" using strip10_props [OF m0 st] by simp_all
  define D where "D = int_digits s"
  have Dd: "list_all is_digit D" and Dv: "digits_value 10 D = s" and Dh: "0 < hd D" and Dn: "D \<noteq> []"
    using int_digits_props [of s] s0 by (simp_all add: D_def)
  define k where "k = int (length D)"
  define n where "n = k + int z - int e"
  have val: "of_int p / of_int q = (of_int s :: rat) * power_int 10 (n - k)"
  proof -
    have "n - k = int z - int e" by (simp add: n_def)
    then have "(power_int 10 (n - k) :: rat) = 10 ^ z / 10 ^ e" by (simp add: power_int_diff)
    then show ?thesis using mv ms by simp
  qed
  have pts: "pos_to_string p q =
     (if k \<le> n \<and> n \<le> 21 then map digit_char D @ replicate (nat (n - k)) CHR ''0''
      else if 0 < n \<and> n \<le> 21 then take (nat n) (map digit_char D) @ ''.'' @ drop (nat n) (map digit_char D)
      else if -6 < n \<and> n \<le> 0 then ''0.'' @ replicate (nat (- n)) CHR ''0'' @ map digit_char D
      else if k = 1 then map digit_char D @ exp_suffix (n - 1)
      else take 1 (map digit_char D) @ ''.'' @ drop 1 (map digit_char D) @ exp_suffix (n - 1))"
    unfolding pos_to_string_def dp st Let_def prod.case int_to_string_def n_def k_def D_def by simp
  have k1: "1 \<le> k" using Dn by (simp add: k_def Suc_le_eq)
  consider (c1) "k \<le> n \<and> n \<le> 21" | (c2) "\<not> (k \<le> n \<and> n \<le> 21)" "0 < n \<and> n \<le> 21"
    | (c3) "\<not> (k \<le> n \<and> n \<le> 21)" "\<not> (0 < n \<and> n \<le> 21)" "-6 < n \<and> n \<le> 0"
    | (c4) "\<not> (k \<le> n \<and> n \<le> 21)" "\<not> (0 < n \<and> n \<le> 21)" "\<not> (-6 < n \<and> n \<le> 0)" "k = 1"
    | (c5) "\<not> (k \<le> n \<and> n \<le> 21)" "\<not> (0 < n \<and> n \<le> 21)" "\<not> (-6 < n \<and> n \<le> 0)" "k \<noteq> 1"
    by blast
  then show ?thesis
  proof cases
    case c1
    have t: "pos_to_string p q = map digit_char D @ replicate (nat (n - k)) CHR ''0''"
      unfolding pts by (simp only: if_P [OF c1])
    let ?ip = "D @ replicate (nat (n - k)) 0"
    have "lit_value ?ip [] None = of_int p / of_int q"
      using c1 by (simp add: lit_value_def scale10_def digits_value_append Dv val power_int_nat_diff)
    moreover have "int_part ?ip" using Dd Dn Dh by (simp add: int_part_def hd_append)
    ultimately have "pos_to_string p q = map digit_char ?ip @ frac_text [] @ exp_text None \<and> int_part ?ip \<and>
        list_all is_digit [] \<and> lit_value ?ip [] None = of_int p / of_int q"
      using c1 by (simp add: t frac_text_def exp_text_def)
    then show ?thesis by blast
  next
    case c2
    have t: "pos_to_string p q = take (nat n) (map digit_char D) @ ''.'' @ drop (nat n) (map digit_char D)"
      unfolding pts by (simp only: if_not_P [OF c2(1)] if_P [OF c2(2)])
    let ?ip = "take (nat n) D" and ?fp = "drop (nat n) D"
    have lt: "nat n < length D" using c2 by (simp add: k_def nat_less_iff)
    have "lit_value ?ip ?fp None = of_int p / of_int q"
      using lt c2 by (simp add: lit_value_def scale10_powi Dv val k_def)
    moreover have "int_part ?ip" using Dd Dn Dh c2 list_all_take_drop [OF Dd] by (simp add: int_part_def)
    moreover have "?fp \<noteq> []" using lt by simp
    ultimately have "pos_to_string p q = map digit_char ?ip @ frac_text ?fp @ exp_text None \<and> int_part ?ip \<and>
        list_all is_digit ?fp \<and> lit_value ?ip ?fp None = of_int p / of_int q"
      using c2 list_all_take_drop [OF Dd] by (simp add: t frac_text_def exp_text_def take_map drop_map)
    then show ?thesis by blast
  next
    case c3
    have t: "pos_to_string p q = ''0.'' @ replicate (nat (- n)) CHR ''0'' @ map digit_char D"
      unfolding pts by (simp only: if_not_P [OF c3(1)] if_not_P [OF c3(2)] if_P [OF c3(3)])
    let ?fp = "replicate (nat (- n)) 0 @ D"
    have "lit_value [0] ?fp None = of_int p / of_int q"
      using c3 by (simp add: lit_value_def scale10_powi digits_value_append Dv val k_def)
    moreover have "int_part [0]" by (simp add: int_part_def)
    ultimately have "pos_to_string p q = map digit_char [0] @ frac_text ?fp @ exp_text None \<and> int_part [0] \<and>
        list_all is_digit ?fp \<and> lit_value [0] ?fp None = of_int p / of_int q"
      using c3 Dd Dn by (simp add: t frac_text_def exp_text_def)
    then show ?thesis by blast
  next
    case c4
    have t: "pos_to_string p q = map digit_char D @ exp_suffix (n - 1)"
      unfolding pts by (simp only: if_not_P [OF c4(1)] if_not_P [OF c4(2)] if_not_P [OF c4(3)] if_P [OF c4(4)])
    have "lit_value D [] (Some (n - 1)) = of_int p / of_int q"
      using c4 by (simp add: lit_value_def scale10_powi Dv val)
    moreover have "int_part D" using Dd Dn Dh by (simp add: int_part_def)
    ultimately have "pos_to_string p q = map digit_char D @ frac_text [] @ exp_text (Some (n - 1)) \<and> int_part D \<and>
        list_all is_digit [] \<and> lit_value D [] (Some (n - 1)) = of_int p / of_int q"
      using c4 by (simp add: t frac_text_def exp_text_def)
    then show ?thesis by blast
  next
    case c5
    have t: "pos_to_string p q = take 1 (map digit_char D) @ ''.'' @ drop 1 (map digit_char D) @ exp_suffix (n - 1)"
      unfolding pts by (simp only: if_not_P [OF c5(1)] if_not_P [OF c5(2)] if_not_P [OF c5(3)] if_not_P [OF c5(4)])
    let ?ip = "take 1 D" and ?fp = "drop 1 D"
    have lt: "1 < length D" using c5 k1 by (simp add: k_def)
    have "lit_value ?ip ?fp (Some (n - 1)) = of_int p / of_int q"
      using lt by (simp add: lit_value_def scale10_powi Dv val k_def)
    moreover have "int_part ?ip" using Dd Dn Dh list_all_take_drop [OF Dd] by (simp add: int_part_def)
    moreover have "?fp \<noteq> []" using lt by simp
    ultimately have "pos_to_string p q = map digit_char ?ip @ frac_text ?fp @ exp_text (Some (n - 1)) \<and> int_part ?ip \<and>
        list_all is_digit ?fp \<and> lit_value ?ip ?fp (Some (n - 1)) = of_int p / of_int q"
      using c5 list_all_take_drop [OF Dd] by (simp add: t frac_text_def exp_text_def take_map drop_map)
    then show ?thesis by blast
  qed
qed

definition is_decimal :: "rat \<Rightarrow> bool" where
  "is_decimal r \<longleftrightarrow> dec_exp_search 0 (snd (quotient_of r)) \<noteq> None"

lemma is_decimalI: "quotient_of r = (p, q) \<Longrightarrow> q dvd 10 ^ e \<Longrightarrow> is_decimal r"
proof -
  assume pq: "quotient_of r = (p, q)" and d: "q dvd 10 ^ e"
  have q0: "0 < q" using quotient_of_denom_pos [OF pq] .
  have "q dvd 10 ^ nat q" using dvd_pow10_bound [OF q0 d] .
  then obtain e' where "dec_exp_search 0 q = Some e'" using dec_exp_search_Some [of q 0] by auto
  then show ?thesis using pq by (simp add: is_decimal_def)
qed

lemma js_to_string_lit:
  assumes dec: "is_decimal r"
  shows "\<exists>neg ip fp ex. js_to_string (Fin r) = (if neg then ''-'' else []) @ map digit_char ip @ frac_text fp @ exp_text ex \<and>
           int_part ip \<and> list_all is_digit fp \<and> (if neg then - lit_value ip fp ex else lit_value ip fp ex) = r"
proof -
  obtain p q where pq: "quotient_of r = (p, q)" by (cases "quotient_of r")
  have q0: "0 < q" using quotient_of_denom_pos [OF pq] .
  have r: "r = of_int p / of_int q" using pq by (rule quotient_of_div)
  have sd: "dec_exp_search 0 q \<noteq> None" using dec pq by (simp add: is_decimal_def)
  consider (z) "p = 0" | (n) "p < 0" | (ps) "0 < p" by linarith
  then show ?thesis
  proof cases
    case z
    have "js_to_string (Fin r) = (if False then ''-'' else []) @ map digit_char [0] @ frac_text [] @ exp_text None \<and>
        int_part [0] \<and> list_all is_digit [] \<and> (if False then - lit_value [0] [] None else lit_value [0] [] None) = r"
      using pq z r by (simp add: frac_text_def exp_text_def int_part_def lit_value_def scale10_def)
    then show ?thesis by blast
  next
    case n
    obtain ip fp ex where t: "pos_to_string (- p) q = map digit_char ip @ frac_text fp @ exp_text ex"
      and ip: "int_part ip" and fp: "list_all is_digit fp" and v: "lit_value ip fp ex = of_int (- p) / of_int q"
      using pos_to_string_lit [of "- p" q] n q0 sd by auto
    have "js_to_string (Fin r) = (if True then ''-'' else []) @ map digit_char ip @ frac_text fp @ exp_text ex \<and>
        int_part ip \<and> list_all is_digit fp \<and> (if True then - lit_value ip fp ex else lit_value ip fp ex) = r"
      using pq n t ip fp v r by simp
    then show ?thesis by blast
  next
    case ps
    obtain ip fp ex where t: "pos_to_string p q = map digit_char ip @ frac_text fp @ exp_text ex"
      and ip: "int_part ip" and fp: "list_all is_digit fp" and v: "lit_value ip fp ex = of_int p / of_int q"
      using pos_to_string_lit [of p q] ps q0 sd by auto
    have "js_to_string (Fin r) = (if False then ''-'' else []) @ map digit_char ip @ frac_text fp @ exp_text ex \<and>
        int_part ip \<and> list_all is_digit fp \<and> (if False then - lit_value ip fp ex else lit_value ip fp ex) = r"
      using pq ps t ip fp v r by simp
    then show ?thesis by blast
  qed
qed

lemma parse_js_to_string:
  assumes dec: "is_decimal r" and rest: "num_stop rest"
  shows "parse_json_number (js_to_string (Fin r) @ rest) = Some (r, rest)"
proof -
  obtain neg ip fp ex where t: "js_to_string (Fin r) = (if neg then ''-'' else []) @ map digit_char ip @ frac_text fp @ exp_text ex"
    and ip: "int_part ip" and fp: "list_all is_digit fp" and v: "(if neg then - lit_value ip fp ex else lit_value ip fp ex) = r"
    using js_to_string_lit [OF dec] by blast
  show ?thesis using parse_json_number_lit [OF ip fp rest, of neg ex] t v by simp
qed

lemma js_to_string_head:
  assumes dec: "is_decimal r"
  shows "\<exists>c t. js_to_string (Fin r) = c # t \<and> (c = CHR ''-'' \<or> (48 \<le> (of_char c :: int) \<and> (of_char c :: int) \<le> 57))"
proof -
  obtain neg ip fp ex where t: "js_to_string (Fin r) = (if neg then ''-'' else []) @ map digit_char ip @ frac_text fp @ exp_text ex"
    and ip: "int_part ip"
    using js_to_string_lit [OF dec] by blast
  obtain d ds where d: "ip = d # ds" "is_digit d" using ip by (cases ip) (auto simp: int_part_def)
  show ?thesis
  proof (cases neg)
    case True
    then show ?thesis using t by simp
  next
    case False
    then show ?thesis using t d of_char_digit_char [OF d(2)] by (simp add: is_digit_def)
  qed
qed

subsection \<open>Strings\<close>

lemma of_char_int_bounds: "0 \<le> (of_char c :: int) \<and> (of_char c :: int) < 256"
proof -
  have a: "0 \<le> (of_char c :: int) mod 256" by (rule pos_mod_sign) simp
  have b: "(of_char c :: int) mod 256 < 256" by (rule pos_mod_bound) simp
  from a b show ?thesis by (simp only: of_char_mod_256)
qed

lemma char_of_code: "(of_char c :: int) = of_char d \<Longrightarrow> c = d"
  by (rule of_char_eqI)

lemma radix_digit_hex: "0 \<le> d \<Longrightarrow> d < 16 \<Longrightarrow> radix_digit 16 (hex_digit d) = Some d"
  by (cases "d < 10") (simp_all add: radix_digit_def hex_digit_def)

lemma hex4_ctrl:
  assumes "0 \<le> n" "n < 32"
  shows "hex4 (CHR ''0'' # CHR ''0'' # hex_digit (n div 16) # hex_digit (n mod 16) # t) = Some n"
proof -
  have a: "radix_digit 16 (hex_digit (n div 16)) = Some (n div 16)" using assms by (simp add: radix_digit_hex)
  have b: "radix_digit 16 (hex_digit (n mod 16)) = Some (n mod 16)" using assms by (simp add: radix_digit_hex)
  have z: "radix_digit 16 (CHR ''0'') = Some 0" by (simp add: radix_digit_def)
  have "16 * (n div 16) + n mod 16 = n" by simp
  then show ?thesis using a b z by (simp add: hex4_def digits_value_def)
qed

lemma parse_str_body_quote_char:
  "parse_str_body (quote_char c @ t) = map_option (\<lambda>(x, rest). (c # x, rest)) (parse_str_body t)"
proof -
  define n where "n = (of_char c :: int)"
  have n0: "0 \<le> n" "n < 256" using of_char_int_bounds [of c] by (simp_all add: n_def)
  have c: "c = char_of n" by (simp add: n_def)
  have code: "\<And>d. (of_char d :: int) = n \<Longrightarrow> c = d" by (rule char_of_code) (simp add: n_def)
  consider "n = 34" | "n = 92" | "n = 8" | "n = 12" | "n = 10" | "n = 13" | "n = 9"
    | "n < 32" "n \<notin> {8, 9, 10, 12, 13}" | "32 \<le> n" "n \<noteq> 34" "n \<noteq> 92" by fastforce
  then show ?thesis
  proof cases
    case 1
    then have "c = CHR 0x22" by (intro code) simp
    then show ?thesis by (simp add: quote_char_def simple_escape_def)
  next
    case 2
    then have "c = CHR 0x5C" by (intro code) simp
    then show ?thesis by (simp add: quote_char_def simple_escape_def)
  next
    case 3
    then show ?thesis by (simp add: quote_char_def simple_escape_def n_def [symmetric] c)
  next
    case 4
    then show ?thesis by (simp add: quote_char_def simple_escape_def n_def [symmetric] c)
  next
    case 5
    then show ?thesis by (simp add: quote_char_def simple_escape_def n_def [symmetric] c)
  next
    case 6
    then show ?thesis by (simp add: quote_char_def simple_escape_def n_def [symmetric] c)
  next
    case 7
    then show ?thesis by (simp add: quote_char_def simple_escape_def n_def [symmetric] c)
  next
    case 8
    have q: "quote_char c = [CHR 0x5C, CHR ''u'', CHR ''0'', CHR ''0'', hex_digit (n div 16), hex_digit (n mod 16)]"
      using 8 by (simp add: quote_char_def n_def [symmetric] Let_def)
    have h: "hex4 (CHR ''0'' # CHR ''0'' # hex_digit (n div 16) # hex_digit (n mod 16) # t) = Some n"
      using 8 n0 by (intro hex4_ctrl) simp_all
    have u: "utf8_bytes n = [c]" using 8 by (simp add: utf8_bytes_def c)
    show ?thesis using 8 by (simp add: q h u)
  next
    case 9
    have q: "quote_char c = [c]" using 9 by (simp add: quote_char_def n_def [symmetric] Let_def)
    have "c \<noteq> CHR 0x22" "c \<noteq> CHR 0x5C" using 9 by (auto simp: n_def)
    then show ?thesis using 9 by (simp add: q n_def [symmetric])
  qed
qed

lemma parse_str_body_quote:
  "parse_str_body (concat (map quote_char s) @ CHR 0x22 # rest) = Some (s, rest)"
  by (induction s) (simp_all add: parse_str_body_quote_char)

subsection \<open>Values\<close>

fun json_ok :: "json \<Rightarrow> bool" where
  "json_ok (JNum r) = is_decimal r"
| "json_ok (JArr vs) = list_all json_ok vs"
| "json_ok (JObj ps) = (distinct (map fst ps) \<and> list_all (\<lambda>p. json_ok (snd p)) ps)"
| "json_ok _ = True"

definition member_text :: "string \<times> json \<Rightarrow> string" where
  "member_text p = json_quote (fst p) @ CHR '':'' # json_text (snd p)"

lemma join_with_Cons: "join_with sep (x # xs) = x @ concat (map (\<lambda>y. sep @ y) xs)"
  by (induction xs arbitrary: x) simp_all

lemma json_text_JArr_Cons:
  "json_text (JArr (v # vs)) = CHR ''['' # json_text v @ concat (map (\<lambda>x. CHR '','' # json_text x) vs) @ '']''"
  by (simp add: join_with_Cons comp_def)

lemma json_text_JObj_Cons:
  "json_text (JObj (p # ps)) = CHR ''{'' # member_text p @ concat (map (\<lambda>x. CHR '','' # member_text x) ps) @ ''}''"
  by (simp add: join_with_Cons comp_def member_text_def case_prod_beta)

lemma num_stop_punct [simp]:
  "num_stop []" "num_stop (CHR '','' # t)" "num_stop (CHR '']'' # t)" "num_stop (CHR ''}'' # t)"
  by (simp_all add: num_stop_def radix_digit_def)

lemma skip_ws_punct [simp]:
  "skip_ws (CHR '','' # t) = CHR '','' # t" "skip_ws (CHR '']'' # t) = CHR '']'' # t"
  "skip_ws (CHR ''}'' # t) = CHR ''}'' # t" "skip_ws (CHR '':'' # t) = CHR '':'' # t"
  "skip_ws (CHR 0x22 # t) = CHR 0x22 # t" "skip_ws (CHR ''['' # t) = CHR ''['' # t"
  "skip_ws (CHR ''{'' # t) = CHR ''{'' # t" "skip_ws [] = []"
  by (simp_all add: skip_ws_def is_json_ws_def)

lemma num_stop_elems: "num_stop (c # rest) \<Longrightarrow> num_stop (concat (map (\<lambda>x. CHR '','' # g x) xs) @ c # rest)"
  by (cases xs) simp_all

text \<open>What the induction on values provides for an element or a member value.\<close>

definition reads_back :: "json \<Rightarrow> bool" where
  "reads_back v \<longleftrightarrow>
     (\<forall>f rest. length (json_text v) \<le> f \<longrightarrow> num_stop rest \<longrightarrow> parse_value f (json_text v @ rest) = Some (v, rest))"

lemma parse_elems_text:
  assumes "list_all reads_back vs" and "length (concat (map (\<lambda>x. CHR '','' # json_text x) vs)) < f"
  shows "parse_elems f acc (concat (map (\<lambda>x. CHR '','' # json_text x) vs) @ CHR '']'' # rest) = Some (acc @ vs, rest)"
  using assms
proof (induction vs arbitrary: acc f)
  case Nil
  then obtain f' where "f = Suc f'" by (cases f) auto
  then show ?case by simp
next
  case (Cons x xs)
  then obtain f' where f: "f = Suc f'" by (cases f) auto
  define R where "R = concat (map (\<lambda>x. CHR '','' # json_text x) xs) @ CHR '']'' # rest"
  have len: "length (json_text x) \<le> f'" "length (concat (map (\<lambda>x. CHR '','' # json_text x) xs)) < f'"
    using Cons.prems(2) f by simp_all
  have x: "parse_value f' (json_text x @ R) = Some (x, R)"
    using Cons.prems(1) len(1) by (simp add: reads_back_def R_def num_stop_elems)
  have "parse_elems f' (acc @ [x]) R = Some ((acc @ [x]) @ xs, rest)"
    using Cons.IH [where acc = "acc @ [x]" and f = f'] Cons.prems(1) len(2) by (simp add: R_def)
  then show ?case using x by (simp add: f R_def [symmetric])
qed

lemma parse_member_step:
  assumes "reads_back v" "length (json_text v) \<le> f" "num_stop R" "k \<notin> set (map fst acc)"
  shows "parse_member (Suc f) acc (member_text (k, v) @ R) = parse_membs f (acc @ [(k, v)]) R"
proof -
  have "parse_value f (json_text v @ R) = Some (v, R)" using assms(1-3) by (simp add: reads_back_def)
  then show ?thesis using assms(4)
    by (simp add: member_text_def json_quote_def parse_str_body_quote obj_set_def)
qed

lemma length_member_text: "length (json_text (snd p)) + 3 \<le> length (member_text p)"
  by (simp add: member_text_def json_quote_def)

lemma parse_membs_text:
  assumes "list_all (\<lambda>p. reads_back (snd p)) ps" and "distinct (map fst (acc @ ps))"
    and "length (concat (map (\<lambda>x. CHR '','' # member_text x) ps)) < f"
  shows "parse_membs f acc (concat (map (\<lambda>x. CHR '','' # member_text x) ps) @ CHR ''}'' # rest) = Some (acc @ ps, rest)"
  using assms
proof (induction ps arbitrary: acc f)
  case Nil
  then obtain f' where "f = Suc f'" by (cases f) auto
  then show ?case by simp
next
  case (Cons p ps)
  obtain k v where p: "p = (k, v)" by (cases p)
  have lm: "length (json_text v) + 3 \<le> length (member_text p)" using length_member_text [of p] by (simp add: p)
  obtain f'' where f: "f = Suc (Suc f'')" using Cons.prems(3) lm by (cases f; cases "f - 1") auto
  define R where "R = concat (map (\<lambda>x. CHR '','' # member_text x) ps) @ CHR ''}'' # rest"
  have len: "length (json_text v) \<le> f''" "length (concat (map (\<lambda>x. CHR '','' # member_text x) ps)) < f''"
    using Cons.prems(3) f lm by simp_all
  have step: "parse_member (Suc f'') acc (member_text (k, v) @ R) = parse_membs f'' (acc @ [(k, v)]) R"
    using Cons.prems(1,2) len(1) by (intro parse_member_step) (simp_all add: p R_def num_stop_elems)
  have "parse_membs f'' (acc @ [p]) R = Some ((acc @ [p]) @ ps, rest)"
    using Cons.IH [where acc = "acc @ [p]" and f = f''] Cons.prems(1,2) len(2) by (simp add: R_def)
  then show ?case using step by (simp add: f p R_def [symmetric])
qed

lemma json_text_head:
  "json_ok v \<Longrightarrow> \<exists>c t. json_text v = c # t \<and> \<not> is_json_ws c \<and> c \<noteq> CHR '']'' \<and> c \<noteq> CHR ''}''"
proof (cases v)
  case (JNum r)
  assume ok: "json_ok v"
  then obtain c t where ct: "js_to_string (Fin r) = c # t"
    and c: "c = CHR ''-'' \<or> (48 \<le> (of_char c :: int) \<and> (of_char c :: int) \<le> 57)"
    using js_to_string_head [of r] JNum by auto
  have "\<not> is_json_ws c \<and> c \<noteq> CHR '']'' \<and> c \<noteq> CHR ''}''" using c by (auto simp: is_json_ws_def)
  then show ?thesis using JNum ct by simp
next
  case (JBool b)
  then show "json_ok v \<Longrightarrow> ?thesis" by (cases b) (simp_all add: is_json_ws_def)
qed (simp_all add: is_json_ws_def json_quote_def)

lemma skip_ws_json_text:
  "json_text v = c # t \<Longrightarrow> \<not> is_json_ws c \<Longrightarrow> skip_ws (json_text v @ rest) = json_text v @ rest"
  by (simp add: skip_ws_def)

lemma json_text_reads_back: "json_ok v \<Longrightarrow> reads_back v"
proof (induction v)
  case JNull
  show ?case unfolding reads_back_def
  proof (intro allI impI)
    fix f rest assume "length (json_text JNull) \<le> f"
    then obtain f' where "f = Suc f'" by (cases f) auto
    then show "parse_value f (json_text JNull @ rest) = Some (JNull, rest)" by (simp add: skip_ws_def is_json_ws_def)
  qed
next
  case (JBool b)
  show ?case unfolding reads_back_def
  proof (intro allI impI)
    fix f rest assume "length (json_text (JBool b)) \<le> f"
    then obtain f' where "f = Suc f'" by (cases f; cases b) auto
    then show "parse_value f (json_text (JBool b) @ rest) = Some (JBool b, rest)"
      by (cases b) (simp_all add: skip_ws_def is_json_ws_def)
  qed
next
  case (JNum r)
  then have dec: "is_decimal r" by simp
  obtain c t where ct: "js_to_string (Fin r) = c # t"
    and c: "c = CHR ''-'' \<or> (48 \<le> (of_char c :: int) \<and> (of_char c :: int) \<le> 57)"
    using js_to_string_head [OF dec] by auto
  have cs: "c \<noteq> CHR ''n'' \<and> c \<noteq> CHR ''t'' \<and> c \<noteq> CHR ''f'' \<and> c \<noteq> CHR 0x22 \<and> c \<noteq> CHR ''[''
      \<and> c \<noteq> CHR ''{'' \<and> \<not> is_json_ws c" using c by (auto simp: is_json_ws_def)
  show ?case unfolding reads_back_def
  proof (intro allI impI)
    fix f rest assume len: "length (json_text (JNum r)) \<le> f" and rest: "num_stop rest"
    then obtain f' where f: "f = Suc f'" using ct by (cases f) auto
    have "parse_json_number (c # t @ rest) = Some (r, rest)" using parse_js_to_string [OF dec rest] ct by simp
    moreover have jt: "json_text (JNum r) = c # t" using ct by simp
    ultimately show "parse_value f (json_text (JNum r) @ rest) = Some (JNum r, rest)"
      using cs unfolding f jt by (simp add: skip_ws_def)
  qed
next
  case (JStr s)
  show ?case unfolding reads_back_def
  proof (intro allI impI)
    fix f rest assume "length (json_text (JStr s)) \<le> f"
    then obtain f' where "f = Suc f'" by (cases f) (auto simp: json_quote_def)
    then show "parse_value f (json_text (JStr s) @ rest) = Some (JStr s, rest)"
      by (simp add: json_quote_def parse_str_body_quote)
  qed
next
  case (JArr vs)
  have all: "list_all reads_back vs" using JArr by (auto simp: list_all_iff)
  show ?case unfolding reads_back_def
  proof (intro allI impI)
    fix f rest assume len: "length (json_text (JArr vs)) \<le> f" and rest: "num_stop rest"
    then obtain f' where f: "f = Suc f'" by (cases f) auto
    show "parse_value f (json_text (JArr vs) @ rest) = Some (JArr vs, rest)"
    proof (cases vs)
      case Nil
      then show ?thesis by (simp add: f)
    next
      case (Cons v vs')
      define E where "E = concat (map (\<lambda>x. CHR '','' # json_text x) vs')"
      obtain c t where ct: "json_text v = c # t" and c: "\<not> is_json_ws c" "c \<noteq> CHR '']''"
        using json_text_head [of v] JArr.prems Cons by auto
      have lt: "length (json_text (JArr vs)) = Suc (Suc (length (json_text v) + length E))"
        unfolding Cons json_text_JArr_Cons E_def by simp
      have lv: "length (json_text v) \<le> f'" and lE: "length E < f'" using len f lt by simp_all
      have v: "parse_value f' (json_text v @ E @ CHR '']'' # rest) = Some (v, E @ CHR '']'' # rest)"
        using all Cons lv by (simp add: reads_back_def E_def num_stop_elems)
      have es: "parse_elems f' [v] (E @ CHR '']'' # rest) = Some ([v] @ vs', rest)"
        using all Cons lE by (simp add: parse_elems_text E_def)
      have sk: "skip_ws (json_text v @ E @ CHR '']'' # rest) = json_text v @ E @ CHR '']'' # rest"
        using ct c(1) by (rule skip_ws_json_text)
      show ?thesis unfolding f Cons json_text_JArr_Cons E_def [symmetric] using v es sk c ct by simp
    qed
  qed
next
  case (JObj ps)
  have all: "list_all (\<lambda>p. reads_back (snd p)) ps" and dist: "distinct (map fst ps)"
    using JObj by (auto simp: list_all_iff)
  show ?case unfolding reads_back_def
  proof (intro allI impI)
    fix f rest assume len: "length (json_text (JObj ps)) \<le> f" and rest: "num_stop rest"
    then obtain f' where f: "f = Suc f'" by (cases f) auto
    show "parse_value f (json_text (JObj ps) @ rest) = Some (JObj ps, rest)"
    proof (cases ps)
      case Nil
      then show ?thesis by (simp add: f)
    next
      case (Cons p ps')
      obtain k v where p: "p = (k, v)" by (cases p)
      define M where "M = concat (map (\<lambda>x. CHR '','' # member_text x) ps')"
      have lm: "length (json_text v) + 3 \<le> length (member_text p)" using length_member_text [of p] by (simp add: p)
      have lt: "length (json_text (JObj ps)) = Suc (Suc (length (member_text p) + length M))"
        unfolding Cons json_text_JObj_Cons M_def by simp
      obtain f'' where f': "f' = Suc f''" using len f lt by (cases f') auto
      have lv: "length (json_text v) \<le> f''" and lM: "length M < f''"
        using len f f' lt lm by simp_all
      have step: "parse_member (Suc f'') [] (member_text (k, v) @ M @ CHR ''}'' # rest) =
          parse_membs f'' ([] @ [(k, v)]) (M @ CHR ''}'' # rest)"
        using all Cons p lv by (intro parse_member_step) (simp_all add: M_def num_stop_elems)
      have ms: "parse_membs f'' [p] (M @ CHR ''}'' # rest) = Some ([p] @ ps', rest)"
        using all dist Cons lM by (simp add: parse_membs_text M_def)
      have sk: "skip_ws (member_text p @ M @ CHR ''}'' # rest) = member_text p @ M @ CHR ''}'' # rest"
        by (simp add: member_text_def json_quote_def)
      have hd: "hd (member_text p) = CHR 0x22" by (simp add: member_text_def json_quote_def)
      show ?thesis unfolding f f' Cons json_text_JObj_Cons M_def [symmetric] using step ms sk hd
        by (simp add: p member_text_def json_quote_def)
    qed
  qed
qed

lemma json_parse_json_text: "json_ok v \<Longrightarrow> json_parse (json_text v) = Some v"
proof -
  assume ok: "json_ok v"
  have rb: "\<forall>f rest. length (json_text v) \<le> f \<longrightarrow> num_stop rest \<longrightarrow> parse_value f (json_text v @ rest) = Some (v, rest)"
    using json_text_reads_back [OF ok] by (simp only: reads_back_def)
  have "parse_value (Suc (length (json_text v))) (json_text v @ []) = Some (v, [])"
    by (rule rb [rule_format]) simp_all
  then show ?thesis
    by (simp only: json_parse_def append_Nil2 option.case prod.case skip_ws_punct simp_thms if_True)
qed

subsection \<open>Which numbers are finite decimals\<close>

lemma is_decimal_times_pow10:
  assumes "r * 10 ^ k = of_int N"
  shows "is_decimal r"
proof -
  obtain p q where pq: "quotient_of r = (p, q)" by (cases "quotient_of r")
  have q0: "0 < q" using quotient_of_denom_pos [OF pq] .
  have r: "r = of_int p / of_int q" using pq by (rule quotient_of_div)
  have cop: "coprime p q" using quotient_of_coprime [OF pq] .
  have "(of_int (p * 10 ^ k) :: rat) = of_int (N * q)"
    using assms q0 by (simp add: r field_simps)
  then have "p * 10 ^ k = N * q" by (simp only: of_int_eq_iff)
  then have "q dvd p * 10 ^ k" by simp
  then have "q dvd 10 ^ k" using cop by (simp add: coprime_commute coprime_dvd_mult_right_iff)
  then show ?thesis by (rule is_decimalI [OF pq])
qed

lemma is_decimal_of_int [simp]: "is_decimal (of_int N)"
  using is_decimal_times_pow10 [of "of_int N" 0 N] by simp

lemma is_decimal_scale10 [simp]: "is_decimal (scale10 (of_int N) e)"
proof (cases "0 \<le> e")
  case True
  then have eq: "scale10 (of_int N) e = of_int (N * 10 ^ nat e)" by (simp add: scale10_def)
  show ?thesis unfolding eq by (rule is_decimal_of_int)
next
  case False
  then have "scale10 (of_int N) e * 10 ^ nat (- e) = of_int N" by (simp add: scale10_def)
  then show ?thesis by (rule is_decimal_times_pow10)
qed

lemma is_decimal_uminus [simp]: "is_decimal (- r) \<longleftrightarrow> is_decimal r"
  by (simp add: is_decimal_def rat_uminus_code case_prod_beta)

lemma parse_unsigned_decimal_Fin: "parse_unsigned_decimal s = Some (Fin r) \<Longrightarrow> is_decimal r"
  by (auto simp: parse_unsigned_decimal_def Let_def split: if_splits list.splits prod.splits)

lemma js_neg_eq_Fin: "js_neg v = Fin r \<longleftrightarrow> v = Fin (- r)"
  by (cases v) auto

lemma parse_float_decimal: "parse_float s = Fin r \<Longrightarrow> is_decimal r"
  by (auto simp: parse_float_def Let_def js_neg_eq_Fin split: list.splits if_splits option.splits
           dest: parse_unsigned_decimal_Fin)


subsection \<open>Numbers read by JSON.parse\<close>

fun json_nums_ok :: "json \<Rightarrow> bool" where
  "json_nums_ok (JNum r) = is_decimal r"
| "json_nums_ok (JArr vs) = list_all json_nums_ok vs"
| "json_nums_ok (JObj ps) = list_all (\<lambda>p. json_nums_ok (snd p)) ps"
| "json_nums_ok _ = True"

lemma parse_json_number_decimal: "parse_json_number s = Some (r, t) \<Longrightarrow> is_decimal r"
  unfolding parse_json_number_def Let_def
  by (auto split: if_splits prod.splits)

lemma list_all_obj_set:
  "list_all (\<lambda>p. P (snd p)) ps \<Longrightarrow> P v \<Longrightarrow> list_all (\<lambda>p. P (snd p)) (obj_set k v ps)"
  by (auto simp: obj_set_def list_all_iff dest: set_update_first [THEN subsetD])

lemma parse_nums_ok:
  "parse_value f s = Some (v, r) \<Longrightarrow> json_nums_ok v"
  "parse_elems f vs s = Some (vs', r) \<Longrightarrow> list_all json_nums_ok vs \<Longrightarrow> list_all json_nums_ok vs'"
  "parse_member f ps s = Some (ps', r) \<Longrightarrow> list_all (\<lambda>p. json_nums_ok (snd p)) ps \<Longrightarrow>
     list_all (\<lambda>p. json_nums_ok (snd p)) ps'"
  "parse_membs f ps s = Some (ps', r) \<Longrightarrow> list_all (\<lambda>p. json_nums_ok (snd p)) ps \<Longrightarrow>
     list_all (\<lambda>p. json_nums_ok (snd p)) ps'"
proof (induction f s and f vs s and f ps s and f ps s arbitrary: v r and vs' r and ps' r and ps' r
       rule: parse_value_parse_elems_parse_member_parse_membs.induct)
  case (2 f s)
  then show ?case
    by (auto split: list.splits if_splits option.splits prod.splits dest: parse_json_number_decimal)
next
  case (4 f vs s)
  then show ?case by (auto split: list.splits if_splits option.splits prod.splits)
next
  case (6 f ps s)
  then show ?case by (auto simp: list_all_obj_set split: list.splits if_splits option.splits prod.splits)
next
  case (8 f ps s)
  then show ?case by (auto split: list.splits if_splits)
qed simp_all

end
