(* ===== verification/Persist.thy ===== *)
theory Persist
  imports CartStore JsonText
begin

text \<open>
  Persistence of the cart (script.js lines 3 and 30). Saving is
  \<open>localStorage.setItem('cart', JSON.stringify(cart))\<close>: every item becomes an
  object with its five properties in creation order, a finite price a number and a
  NaN or infinite price \<open>null\<close> (\<open>SerializeJSONProperty\<close>). Loading is
  \<open>JSON.parse(localStorage.getItem('cart')) || []\<close>: an absent slot reads as
  \<open>null\<close>, a falsy value gives the empty cart, text that is not JSON throws a
  \<open>SyntaxError\<close>, which ends the \<open>DOMContentLoaded\<close> handler before any other
  handler is installed. A parsed value that is an array of objects of the saved
  shape (integral quantity) is a cart; any other truthy value would become the
  \<open>cart\<close> as it is, which the model does not follow: it is the error
  \<open>UnmodelledShape\<close>.
\<close>

datatype load_error = SyntaxError | UnmodelledShape

subsection \<open>Saving\<close>

definition price_json :: "jsnum option \<Rightarrow> json" where
  "price_json p = (case p of Some (Fin r) \<Rightarrow> JNum r | _ \<Rightarrow> JNull)"

definition item_json :: "item \<Rightarrow> json" where
  "item_json i =
     JObj [(''id'', JStr (item_id i)), (''name'', JStr (item_name i)), (''price'', price_json (price i)),
           (''image'', JStr (image i)), (''quantity'', JNum (of_int (quantity i)))]"

definition cart_json :: "cart \<Rightarrow> json" where
  "cart_json c = JArr (map item_json c)"

text \<open>\<open>JSON.stringify(cart)\<close> (line 30).\<close>

definition save_text :: "cart \<Rightarrow> string" where
  "save_text c = json_text (cart_json c)"

subsection \<open>Loading\<close>

definition item_keys :: "string list" where
  "item_keys = [''id'', ''name'', ''price'', ''image'', ''quantity'']"

definition item_of_json :: "json \<Rightarrow> item option" where
  "item_of_json v =
     (case v of
        JObj ps \<Rightarrow>
          if map fst ps \<noteq> item_keys then None
          else
            (case (the (map_of ps ''id''), the (map_of ps ''name''), the (map_of ps ''price''),
                   the (map_of ps ''image''), the (map_of ps ''quantity'')) of
               (JStr a, JStr b, p, JStr d, JNum q) \<Rightarrow>
                 if of_int \<lfloor>q\<rfloor> \<noteq> q then None
                 else
                   (case p of
                      JNull \<Rightarrow> Some \<lparr>item_id = a, item_name = b, price = None, image = d, quantity = \<lfloor>q\<rfloor>\<rparr>
                    | JNum r \<Rightarrow> Some \<lparr>item_id = a, item_name = b, price = Some (Fin r), image = d, quantity = \<lfloor>q\<rfloor>\<rparr>
                    | _ \<Rightarrow> None)
             | _ \<Rightarrow> None)
      | _ \<Rightarrow> None)"

text \<open>\<open>ToBoolean\<close> on a parsed JSON value is false for \<open>null\<close>, \<open>false\<close>, 0 and "".\<close>

definition json_falsy :: "json \<Rightarrow> bool" where
  "json_falsy v = (v = JNull \<or> v = JBool False \<or> v = JNum 0 \<or> v = JStr [])"

text \<open>The parsed value to the cart: the \<open>|| []\<close> and the shape the model follows.\<close>

definition cart_of_json :: "json \<Rightarrow> load_error + cart" where
  "cart_of_json v =
     (if json_falsy v then Inr []
      else
        (case v of
           JArr vs \<Rightarrow> (case those (map item_of_json vs) of Some c \<Rightarrow> Inr c | None \<Rightarrow> Inl UnmodelledShape)
         | _ \<Rightarrow> Inl UnmodelledShape))"

text \<open>Line 3: the slot's content (\<open>None\<close> when absent) to the initial cart.\<close>

definition load_cart :: "string option \<Rightarrow> load_error + cart" where
  "load_cart st =
     (case json_parse (case st of None \<Rightarrow> ''null'' | Some t \<Rightarrow> t) of
        None \<Rightarrow> Inl SyntaxError
      | Some v \<Rightarrow> cart_of_json v)"

text \<open>The price an item has after a save and a load: a NaN or infinite price is \<open>null\<close>.\<close>

definition saved_price :: "jsnum option \<Rightarrow> jsnum option" where
  "saved_price p = (case p of Some (Fin r) \<Rightarrow> Some (Fin r) | _ \<Rightarrow> None)"

subsection \<open>The value-level round trip\<close>

lemma item_of_json_item_json [simp]:
  "item_of_json (item_json i) = Some (i\<lparr>price := saved_price (price i)\<rparr>)"
  by (cases i) (auto simp: item_of_json_def item_json_def item_keys_def price_json_def saved_price_def
                     split: option.split jsnum.split)

lemma those_map_Some [simp]: "those (map (\<lambda>x. Some (f x)) xs) = Some (map f xs)"
  by (induction xs) auto

lemma cart_json_not_falsy [simp]: "\<not> json_falsy (cart_json c)"
  by (simp add: json_falsy_def cart_json_def)

lemma cart_of_json_cart_json:
  "cart_of_json (cart_json c) = Inr (map (\<lambda>i. i\<lparr>price := saved_price (price i)\<rparr>) c)"
proof -
  have "those (map item_of_json (map item_json c)) = Some (map (\<lambda>i. i\<lparr>price := saved_price (price i)\<rparr>) c)"
    by (simp add: comp_def)
  then show ?thesis by (simp add: cart_of_json_def cart_json_def json_falsy_def)
qed

subsection \<open>The text-level round trip\<close>

text \<open>
  A price the text round trip preserves: a finite decimal, or a price that is
  saved as \<open>null\<close>. Every price \<open>parseFloat\<close> returns is one
  (\<open>parse_float_decimal\<close>), and so is every number \<open>JSON.parse\<close> reads.
\<close>

definition price_decimal :: "item \<Rightarrow> bool" where
  "price_decimal i = (case price i of Some (Fin r) \<Rightarrow> is_decimal r | _ \<Rightarrow> True)"

definition price_loaded :: "jsnum option \<Rightarrow> bool" where
  "price_loaded p = (case p of None \<Rightarrow> True | Some (Fin r) \<Rightarrow> is_decimal r | Some _ \<Rightarrow> False)"

lemma item_of_json_price: "item_of_json v = Some i \<Longrightarrow> price i = None \<or> (\<exists>r. price i = Some (Fin r))"
  by (auto simp: item_of_json_def split: json.splits if_splits)

lemma json_ok_item_json: "price_decimal i \<Longrightarrow> json_ok (item_json i)"
  by (auto simp: item_json_def price_json_def price_decimal_def split: option.splits jsnum.splits)

lemma json_ok_cart_json: "list_all price_decimal c \<Longrightarrow> json_ok (cart_json c)"
  by (induction c) (simp_all add: cart_json_def json_ok_item_json)

lemma the_map_of_list_all:
  "k \<in> set (map fst ps) \<Longrightarrow> list_all (\<lambda>p. P (snd p)) ps \<Longrightarrow> P (the (map_of ps k))"
proof -
  assume k: "k \<in> set (map fst ps)" and all: "list_all (\<lambda>p. P (snd p)) ps"
  obtain x where m: "map_of ps k = Some x" using k by (cases "map_of ps k") (auto simp: map_of_eq_None_iff)
  then have "(k, x) \<in> set ps" by (rule map_of_SomeD)
  then have "P x" using all by (auto simp: list_all_iff)
  then show ?thesis using m by simp
qed

lemma item_of_json_decimal: "item_of_json v = Some i \<Longrightarrow> json_nums_ok v \<Longrightarrow> price_decimal i"
proof -
  assume iv: "item_of_json v = Some i" and ok: "json_nums_ok v"
  obtain ps where v: "v = JObj ps" and keys: "map fst ps = item_keys"
    using iv by (auto simp: item_of_json_def split: json.splits if_splits)
  have "''price'' \<in> set (map fst ps)" using keys by (simp add: item_keys_def)
  then have p: "json_nums_ok (the (map_of ps ''price''))"
    using ok v the_map_of_list_all [of "''price''" ps json_nums_ok] by simp
  show ?thesis using iv p v keys
    by (auto simp: item_of_json_def price_decimal_def split: json.splits if_splits)
qed

lemma those_map_list_all:
  "those (map f vs) = Some c \<Longrightarrow> list_all P vs \<Longrightarrow> (\<And>v i. f v = Some i \<Longrightarrow> P v \<Longrightarrow> Q i) \<Longrightarrow> list_all Q c"
  by (induction vs arbitrary: c) (auto split: option.splits)

lemma json_parse_nums_ok: "json_parse t = Some v \<Longrightarrow> json_nums_ok v"
  by (auto simp: json_parse_def simp del: parse_value.simps split: option.splits if_splits dest: parse_nums_ok(1))

lemma load_cart_decimal: "load_cart st = Inr c \<Longrightarrow> list_all price_decimal c"
proof -
  assume l: "load_cart st = Inr c"
  obtain v where p: "json_parse (case st of None \<Rightarrow> ''null'' | Some t \<Rightarrow> t) = Some v" and cv: "cart_of_json v = Inr c"
    using l by (auto simp: load_cart_def split: option.splits)
  have ok: "json_nums_ok v" using p by (rule json_parse_nums_ok)
  show ?thesis using cv ok
    by (auto simp: cart_of_json_def split: if_splits json.splits option.splits
             elim: those_map_list_all intro: item_of_json_decimal)
qed

lemma new_item_decimal: "price_decimal (new_item p)"
  by (auto simp: price_decimal_def new_item_def parse_float_decimal split: jsnum.splits)

lemma price_decimal_update_first:
  "list_all price_decimal c \<Longrightarrow> (\<And>i. price (f i) = price i) \<Longrightarrow> list_all price_decimal (update_first P f c)"
  by (rule list_all_update_first) (simp_all add: price_decimal_def)

lemma add_or_increment_decimal: "list_all price_decimal c \<Longrightarrow> list_all price_decimal (add_or_increment p c)"
  by (auto simp: add_or_increment_def Let_def new_item_decimal price_decimal_update_first split: option.splits)

lemma remove_item_decimal: "list_all price_decimal c \<Longrightarrow> list_all price_decimal (remove_item k c)"
  by (simp add: remove_item_def list_all_iff)

lemma quantity_change_decimal:
  "list_all price_decimal c \<Longrightarrow> quantity_change k raw c = Some c' \<Longrightarrow> list_all price_decimal c'"
  by (auto simp: quantity_change_def set_quantity_def price_decimal_update_first remove_item_decimal
           split: option.splits if_splits)

lemma load_save_text:
  "list_all price_decimal c \<Longrightarrow>
     load_cart (Some (save_text c)) = Inr (map (\<lambda>i. i\<lparr>price := saved_price (price i)\<rparr>) c)"
  unfolding load_cart_def save_text_def
  by (simp add: json_parse_json_text json_ok_cart_json cart_of_json_cart_json)

lemmas price_decimal_intros = add_or_increment_decimal remove_item_decimal quantity_change_decimal


subsection \<open>Properties\<close>

text \<open>
  Persistence round trip of the value: reading back the JSON value that
  \<open>JSON.stringify\<close> serialises gives the same items, in the same order, with the
  same ids, names, images, quantities and finite prices; only a NaN or infinite
  price comes back as \<open>null\<close>.
\<close>

theorem cart_json_roundtrip:
  "cart_of_json (cart_json c) = Inr (map (\<lambda>i. i\<lparr>price := saved_price (price i)\<rparr>) c)"
  by (rule cart_of_json_cart_json)

text \<open>
  C23 (persistence round trip of the text): when every price is a finite decimal
  or \<open>null\<close>, \<open>JSON.parse\<close> of the text \<open>JSON.stringify\<close> wrote to the slot loads
  the same items, in the same order, with the same ids, names, images, quantities
  and prices; only a NaN or infinite price comes back as \<open>null\<close>.
\<close>

theorem save_text_reloads:
  "list_all price_decimal c \<Longrightarrow>
     load_cart (Some (save_text c)) = Inr (map (\<lambda>i. i\<lparr>price := saved_price (price i)\<rparr>) c)"
  unfolding load_cart_def save_text_def
  by (simp add: json_parse_json_text json_ok_cart_json cart_of_json_cart_json)

theorem save_text_reloads_witness:
  "list_all price_decimal
     [\<lparr>item_id = ''P1'', item_name = ''Rose'', price = Some (Fin 10), image = ''r.png'', quantity = 2\<rparr>,
      \<lparr>item_id = ''P2'', item_name = ''Oud \"No. 1\"'', price = Some (Fin (4999 / 100)), image = ''o.png'', quantity = 1\<rparr>,
      \<lparr>item_id = ''P3'', item_name = ''Musk'', price = Some NaN, image = ''m.png'', quantity = 3\<rparr>] \<and>
   load_cart (Some (save_text
     [\<lparr>item_id = ''P1'', item_name = ''Rose'', price = Some (Fin 10), image = ''r.png'', quantity = 2\<rparr>,
      \<lparr>item_id = ''P2'', item_name = ''Oud \"No. 1\"'', price = Some (Fin (4999 / 100)), image = ''o.png'', quantity = 1\<rparr>,
      \<lparr>item_id = ''P3'', item_name = ''Musk'', price = Some NaN, image = ''m.png'', quantity = 3\<rparr>])) =
   Inr [\<lparr>item_id = ''P1'', item_name = ''Rose'', price = Some (Fin 10), image = ''r.png'', quantity = 2\<rparr>,
        \<lparr>item_id = ''P2'', item_name = ''Oud \"No. 1\"'', price = Some (Fin (4999 / 100)), image = ''o.png'', quantity = 1\<rparr>,
        \<lparr>item_id = ''P3'', item_name = ''Musk'', price = None, image = ''m.png'', quantity = 3\<rparr>]"
proof -
  have h: "list_all price_decimal
     [\<lparr>item_id = ''P1'', item_name = ''Rose'', price = Some (Fin 10), image = ''r.png'', quantity = 2\<rparr>,
      \<lparr>item_id = ''P2'', item_name = ''Oud \"No. 1\"'', price = Some (Fin (4999 / 100)), image = ''o.png'', quantity = 1\<rparr>,
      \<lparr>item_id = ''P3'', item_name = ''Musk'', price = Some NaN, image = ''m.png'', quantity = 3\<rparr>]"
    by code_simp
  show ?thesis using h save_text_reloads [OF h] by (simp add: saved_price_def)
qed

text \<open>
  Shape of a loaded cart in this model: every price of a cart read from the slot
  is \<open>null\<close> or a finite decimal. This is a property of the model, not of the
  browser: the model reads numbers exactly, where a browser reads a literal beyond
  the double range, such as \<open>1e400\<close>, as Infinity; and a price that is neither
  \<open>null\<close> nor a number makes the model's load an \<open>UnmodelledShape\<close> error.
\<close>

theorem loaded_prices_finite:
  "load_cart st = Inr c \<Longrightarrow> list_all (\<lambda>i. price_loaded (price i)) c"
proof -
  assume l: "load_cart st = Inr c"
  have d: "list_all price_decimal c" using l by (rule load_cart_decimal)
  obtain v where cv: "cart_of_json v = Inr c"
    using l by (auto simp: load_cart_def split: option.splits)
  have "list_all (\<lambda>i. price i = None \<or> (\<exists>r. price i = Some (Fin r))) c"
    using cv by (auto simp: cart_of_json_def list.pred_True split: if_splits json.splits option.splits
                      elim!: those_map_list_all [where P = "\<lambda>_. True"] dest: item_of_json_price)
  then show ?thesis unfolding list_all_iff
  proof (intro ballI)
    fix i assume "\<forall>i\<in>set c. price i = None \<or> (\<exists>r. price i = Some (Fin r))" and i: "i \<in> set c"
    then have "price i = None \<or> (\<exists>r. price i = Some (Fin r))" by blast
    moreover have "price_decimal i" using d i by (simp add: list_all_iff)
    ultimately show "price_loaded (price i)" by (auto simp: price_loaded_def price_decimal_def)
  qed
qed

theorem loaded_prices_finite_witness:
  "load_cart (Some ''[{\"id\":\"P1\",\"name\":\"Rose\",\"price\":null,\"image\":\"r.png\",\"quantity\":2}]'') =
     Inr [\<lparr>item_id = ''P1'', item_name = ''Rose'', price = None, image = ''r.png'', quantity = 2\<rparr>] \<and>
   list_all (\<lambda>i. price_loaded (price i)) [\<lparr>item_id = ''P1'', item_name = ''Rose'', price = None, image = ''r.png'', quantity = 2\<rparr>]"
proof -
  have h: "load_cart (Some ''[{\"id\":\"P1\",\"name\":\"Rose\",\"price\":null,\"image\":\"r.png\",\"quantity\":2}]'') =
     Inr [\<lparr>item_id = ''P1'', item_name = ''Rose'', price = None, image = ''r.png'', quantity = 2\<rparr>]"
    by code_simp
  show ?thesis using h loaded_prices_finite [OF h] by blast
qed

end
