(* ===== verification/Render.thy ===== *)
theory Render
  imports Persist
begin

text \<open>
  Presentation Sync: \<open>updateCartUI\<close> (script.js lines 5-31). It looks up the
  \<open>.cart-items\<close> element and returns at once when the page has none (line 9),
  without drawing or saving. Otherwise it empties the list and, in one
  \<open>forEach\<close> pass, adds \<open>item.price * item.quantity\<close> to \<open>total\<close> (from 0) and
  appends one entry built from the template of lines 17-24; then it writes
  \<open>Total: $\<close> and \<open>total.toFixed(2)\<close>, the \<open>reduce\<close> sum of the quantities, and
  the \<open>JSON.stringify\<close> of the cart to the storage slot. The model assumes that a
  page with \<open>.cart-items\<close> also has \<open>.cart-total\<close> and \<open>.cart-count\<close>.
  A rendered entry is the record of the values the template interpolates; the
  display is the record of what the function writes to the three elements.
\<close>

text \<open>\<open>ToNumber\<close> of a price: \<open>null\<close>, which a reloaded NaN price is, counts as 0.\<close>

definition price_number :: "jsnum option \<Rightarrow> jsnum" where
  "price_number p = (case p of None \<Rightarrow> Fin 0 | Some v \<Rightarrow> v)"

text \<open>\<open>item.price * item.quantity\<close> (line 14).\<close>

definition line_subtotal :: "item \<Rightarrow> jsnum" where
  "line_subtotal i = js_mul (price_number (price i)) (Fin (of_int (quantity i)))"

text \<open>Lines 12-14: \<open>let total = 0; cart.forEach(item => { total += ... })\<close>.\<close>

definition cart_total :: "cart \<Rightarrow> jsnum" where
  "cart_total c = foldl (\<lambda>t i. js_add t (line_subtotal i)) (Fin 0) c"

text \<open>Line 29: \<open>cart.reduce((sum, item) => sum + item.quantity, 0)\<close>.\<close>

definition cart_count :: "cart \<Rightarrow> int" where
  "cart_count c = foldl (\<lambda>s i. s + quantity i) 0 c"

record render_line =
  line_image :: string
  line_name :: string
  line_price :: string
  line_quantity :: string
  line_id :: string

text \<open>\<open>${item.price}\<close>: \<open>null\<close> prints as \<open>null\<close>, a number by \<open>Number::toString\<close>.\<close>

definition price_text :: "jsnum option \<Rightarrow> string" where
  "price_text p = (case p of None \<Rightarrow> ''null'' | Some v \<Rightarrow> js_to_string v)"

text \<open>
  Lines 15-25: the \<open>img\<close> source and \<open>alt\<close> text, the heading, the price after
  \<open>$\<close>, the quantity field's value and the \<open>data-id\<close> of the field and of the
  remove button (the same \<open>item.id\<close>).
\<close>

definition render_item :: "item \<Rightarrow> render_line" where
  "render_item i =
     \<lparr>line_image = image i, line_name = item_name i, line_price = price_text (price i),
      line_quantity = js_to_string (Fin (of_int (quantity i))), line_id = item_id i\<rparr>"

record display =
  disp_lines :: "render_line list"
  disp_total :: string
  disp_count :: string

text \<open>Lines 10-29: what the three elements show after a redraw.\<close>

definition render :: "cart \<Rightarrow> display" where
  "render c =
     \<lparr>disp_lines = map render_item c, disp_total = ''Total: $'' @ to_fixed 2 (cart_total c),
      disp_count = js_to_string (Fin (of_int (cart_count c)))\<rparr>"

text \<open>
  \<open>updateCartUI()\<close> on the display and the storage slot: nothing when the page has
  no \<open>.cart-items\<close> (line 9), else the redraw and the save (line 30).
\<close>

definition update_cart_ui ::
  "bool \<Rightarrow> cart \<Rightarrow> display \<Rightarrow> string option \<Rightarrow> display \<times> string option" where
  "update_cart_ui has_list c d st = (if has_list then (render c, Some (save_text c)) else (d, st))"

subsection \<open>The total and the count\<close>

text \<open>The exact value of a line when its price is finite or \<open>null\<close>.\<close>

definition line_value :: "item \<Rightarrow> rat" where
  "line_value i = (case price i of Some (Fin r) \<Rightarrow> r * of_int (quantity i) | _ \<Rightarrow> 0)"

definition finite_price :: "item \<Rightarrow> bool" where
  "finite_price i = (case price i of Some (Fin _) \<Rightarrow> True | None \<Rightarrow> True | _ \<Rightarrow> False)"

text \<open>
  A price that is \<open>null\<close> or a whole number. Every integer of magnitude at most
  \<open>2 ^ 53\<close> is a binary64 double, so on such prices, with the sum of the line
  magnitudes below \<open>2 ^ 53\<close>, every product and partial sum of lines 12-14 is an
  integer below \<open>2 ^ 53\<close> and no double operation of the browser rounds: there
  the exact values of this model are the browser's.
\<close>

definition integral :: "rat \<Rightarrow> bool" where
  "integral r \<longleftrightarrow> snd (quotient_of r) = 1"

definition integer_price :: "item \<Rightarrow> bool" where
  "integer_price i = (case price i of Some (Fin r) \<Rightarrow> integral r | None \<Rightarrow> True | _ \<Rightarrow> False)"

text \<open>
  The reference printing of an amount in dollars and cents: the magnitude rounded
  half up to a whole number \<open>n\<close> of cents, then \<open>n div 100\<close>, a point and the two
  digits of \<open>n mod 100\<close>, with a minus sign for a negative amount.
\<close>

definition cents_text :: "rat \<Rightarrow> string" where
  "cents_text x =
     (let n = \<lfloor>\<bar>x\<bar> * 100 + 1 / 2\<rfloor>
      in (if x < 0 then ''-'' else '''') @ int_to_string (n div 100) @ ''.'' @
         [digit_char (n div 10 mod 10), digit_char (n mod 10)])"

lemma line_subtotal_finite:
  "finite_price i \<Longrightarrow> line_subtotal i = Fin (line_value i)"
  by (auto simp: finite_price_def line_subtotal_def line_value_def price_number_def
           split: option.splits jsnum.splits)

lemma foldl_js_add_Fin:
  "list_all finite_price c \<Longrightarrow>
     foldl (\<lambda>t i. js_add t (line_subtotal i)) (Fin a) c = Fin (a + sum_list (map line_value c))"
  by (induction c arbitrary: a) (auto simp: line_subtotal_finite algebra_simps)

lemma foldl_js_add_NaN [simp]: "foldl (\<lambda>t i. js_add t (line_subtotal i)) NaN c = NaN"
  by (induction c) auto

lemma foldl_count: "foldl (\<lambda>s i. s + quantity i) a c = a + sum_list (map quantity c)"
  by (induction c arbitrary: a) (auto simp: algebra_simps)

lemma foldl_js_add_has_NaN:
  "NaN \<in> set (map line_subtotal c) \<Longrightarrow> foldl (\<lambda>t i. js_add t (line_subtotal i)) a c = NaN"
proof (induction c arbitrary: a)
  case Nil
  then show ?case by simp
next
  case (Cons i c)
  show ?case
  proof (cases "line_subtotal i = NaN")
    case True
    have "js_add a NaN = NaN" by (cases a) auto
    with True show ?thesis by simp
  next
    case False
    with Cons show ?thesis by simp
  qed
qed

text \<open>
  \<open>toFixed(2)\<close> below \<open>10 ^ 21\<close> is the reference printing: the rounding by
  \<open>(2 |p| 100 + q) div 2 q\<close> on \<open>x = p / q\<close> is the floor of \<open>|x| 100 + 1/2\<close>, and the
  zero padding of the digit string to three places puts the point before the last
  two digits of that integer.
\<close>

lemma int_digits_hundreds:
  "100 \<le> n \<Longrightarrow> int_digits n = int_digits (n div 100) @ [n div 10 mod 10, n mod 10]"
proof -
  assume n: "100 \<le> n"
  have "\<not> n div 10 < 10" using n by linarith
  then have "int_digits (n div 10) = int_digits (n div 10 div 10) @ [n div 10 mod 10]"
    by (rule int_digits_big)
  moreover have "\<not> n < 10" using n by simp
  ultimately show ?thesis by (simp add: int_digits_big zdiv_zmult2_eq [symmetric])
qed

lemma round_half_up_div:
  "0 < q \<Longrightarrow> (2 * a * 100 + q) div (2 * q) = \<lfloor>(of_int a / of_int q :: rat) * 100 + 1 / 2\<rfloor>"
proof -
  assume q: "0 < q"
  have "(of_int a / of_int q :: rat) * 100 + 1 / 2 = of_int (2 * a * 100 + q) / of_int (2 * q)"
    using q by (simp add: field_simps)
  then show ?thesis by (simp only: floor_divide_of_int_eq)
qed

lemma fixed2_digits:
  assumes "0 \<le> n"
  defines "m \<equiv> int_to_string n"
  defines "m' \<equiv> (if length m \<le> 2 then replicate (2 + 1 - length m) CHR ''0'' @ m else m)"
  shows "take (length m' - 2) m' @ ''.'' @ drop (length m' - 2) m' =
         int_to_string (n div 100) @ ''.'' @ [digit_char (n div 10 mod 10), digit_char (n mod 10)]"
proof (cases "100 \<le> n")
  case True
  have d: "int_digits n = int_digits (n div 100) @ [n div 10 mod 10, n mod 10]"
    using True by (rule int_digits_hundreds)
  have m: "int_to_string n = int_to_string (n div 100) @ [digit_char (n div 10 mod 10), digit_char (n mod 10)]"
    by (simp only: int_to_string_def d map_append list.map)
  have "int_to_string (n div 100) \<noteq> []" by (simp add: int_to_string_def)
  then have l: "\<not> length (int_to_string n) \<le> 2" by (simp only: m length_append) simp
  have L: "length (int_to_string n) - 2 = length (int_to_string (n div 100))" by (simp only: m length_append) simp
  show ?thesis unfolding m'_def m_def using l by (simp only: if_False L) (simp only: m take_append drop_append, simp)
next
  case False
  show ?thesis
  proof (cases "n < 10")
    case True
    then show ?thesis using assms(1) by (simp add: m'_def m_def int_to_string_def int_digits_small numeral_3_eq_3)
  next
    case ge: False
    have "int_digits n = [n div 10, n mod 10]"
      using ge False by (simp add: int_digits_big int_digits_small)
    then show ?thesis using ge False by (simp add: m'_def m_def int_to_string_def int_digits_small numeral_3_eq_3)
  qed
qed

lemma to_fixed_two_cents:
  "\<bar>x\<bar> < 10 ^ 21 \<Longrightarrow> to_fixed 2 (Fin x) = cents_text x"
proof -
  assume small: "\<bar>x\<bar> < 10 ^ 21"
  obtain p q where pq: "quotient_of x = (p, q)" by (cases "quotient_of x")
  have big: "\<not> 10 ^ 21 * q \<le> \<bar>p\<bar>" using small pq by (rule to_fixed_small)
  have q: "0 < q" using quotient_of_denom_pos [OF pq] .
  have x: "x = of_int p / of_int q" using pq by (rule quotient_of_div)
  have sg: "(p < 0) = (x < 0)" using q by (simp add: x divide_less_0_iff)
  have ax: "\<bar>x\<bar> = of_int \<bar>p\<bar> / of_int q" using q by (simp add: x abs_divide)
  define n where "n = (2 * \<bar>p\<bar> * 10 ^ 2 + q) div (2 * q)"
  have n: "n = \<lfloor>\<bar>x\<bar> * 100 + 1 / 2\<rfloor>" using round_half_up_div [OF q, of "\<bar>p\<bar>"] by (simp add: n_def ax)
  have n0: "0 \<le> n" using q by (simp add: n_def pos_imp_zdiv_nonneg_iff)
  define m where "m = int_to_string n"
  define m' where "m' = (if length m \<le> 2 then replicate (2 + 1 - length m) CHR ''0'' @ m else m)"
  have "to_fixed 2 (Fin x) = (if p < 0 then ''-'' else []) @ take (length m' - 2) m' @ ''.'' @ drop (length m' - 2) m'"
    using big by (simp only: to_fixed_def jsnum.case pq prod.case if_False Let_def n_def [symmetric] m_def [symmetric] m'_def [symmetric]) simp
  also have "\<dots> = cents_text x"
    by (simp only: m'_def m_def fixed2_digits [OF n0] cents_text_def Let_def sg n [symmetric])
  finally show ?thesis .
qed

text \<open>
  The quantity field: \<open>${item.quantity}\<close> prints a positive integer below
  \<open>10 ^ 21\<close> as its plain decimal digits (no exponent, no point), and \<open>parseInt\<close>
  reads such a digit string back as the same integer.
\<close>

lemma int_digits_times_10: "0 < s \<Longrightarrow> int_digits (s * 10 ^ z) = int_digits s @ replicate z 0"
proof (induction z)
  case 0
  then show ?case by simp
next
  case (Suc z)
  have p: "10 \<le> (10::int) ^ Suc z" using one_le_power [of "10::int" z] by simp
  have "(10::int) ^ Suc z \<le> s * 10 ^ Suc z" using Suc.prems p by simp
  then have "\<not> s * 10 ^ Suc z < 10" using p by linarith
  then have "int_digits (s * 10 ^ Suc z) = int_digits (s * 10 ^ z) @ [0]"
    by (simp add: int_digits_big mult.assoc [symmetric])
  then show ?case using Suc by (simp add: replicate_append_same)
qed

lemma length_int_digits_le: "0 < n \<Longrightarrow> n < 10 ^ m \<Longrightarrow> length (int_digits n) \<le> m"
proof (induction n arbitrary: m rule: int_digits.induct)
  case (1 n)
  have m: "0 < m" using "1.prems" by (cases m) simp_all
  show ?case
  proof (cases "n < 10")
    case True
    then show ?thesis using m by (simp only: int_digits_small list.size)
  next
    case False
    have e: "int_digits n = int_digits (n div 10) @ [n mod 10]" using False by (rule int_digits_big)
    have "n div 10 < 10 ^ (m - 1)" using "1.prems"(2) m by (cases m) simp_all
    moreover have "0 < n div 10" using False by simp
    ultimately have "length (int_digits (n div 10)) \<le> m - 1" using "1.IH" False by blast
    then show ?thesis using m by (simp only: e length_append list.size)
  qed
qed

lemma js_to_string_int: "0 < n \<Longrightarrow> n < 10 ^ 21 \<Longrightarrow> js_to_string (Fin (of_int n)) = int_to_string n"
proof -
  assume n0: "0 < n" and nb: "n < 10 ^ 21"
  have se: "dec_exp_search 0 1 = Some 0" by (subst dec_exp_search.simps) simp
  have dp: "dec_parts n 1 = (n, 0)" by (simp add: dec_parts_def se)
  obtain s z where st: "strip10 n = (s, z)" by (cases "strip10 n")
  have s0: "0 < s" and ns: "n = s * 10 ^ z" using strip10_props [OF n0 st] by simp_all
  have "int_digits n = int_digits s @ replicate z 0" unfolding ns by (rule int_digits_times_10 [OF s0])
  then have ds: "int_to_string n = int_to_string s @ replicate z CHR ''0''"
    by (simp only: int_to_string_def map_append map_replicate digit_char_0)
  have "length (int_to_string n) \<le> 21"
    using length_int_digits_le [OF n0 nb] by (simp add: int_to_string_def)
  then have len: "int (length (int_to_string s)) + int z \<le> 21" using ds by simp
  have "pos_to_string n 1 = int_to_string s @ replicate z CHR ''0''"
    unfolding pos_to_string_def dp st Let_def prod.case using len by simp
  then show ?thesis using n0 ds by (simp add: quotient_of_int)
qed

lemma digit_char_plain: "is_digit d \<Longrightarrow> \<not> is_js_space (digit_char d) \<and> digit_char d \<notin> set ''-+xX''"
proof -
  assume "is_digit d"
  then have "d \<in> set [0..9]" by (simp add: is_digit_def)
  moreover have "\<forall>d\<in>set [0..9]. \<not> is_js_space (digit_char d) \<and> digit_char d \<notin> set ''-+xX''"
    by code_simp
  ultimately show ?thesis by blast
qed

lemma parse_int_int_to_string: "0 \<le> n \<Longrightarrow> parse_int (int_to_string n) = Some n"
proof -
  assume n0: "0 \<le> n"
  define ds where "ds = int_digits n"
  have dd: "list_all is_digit ds" and dv: "digits_value 10 ds = n"
    using int_digits_props [OF n0] by (simp_all add: ds_def)
  obtain d ds' where dc: "ds = d # ds'" using int_digits_ne [of n] by (cases ds) (simp_all add: ds_def)
  define u where "u = map digit_char ds"
  have plain: "\<forall>c\<in>set u. \<not> is_js_space c \<and> c \<notin> set ''-+xX''"
    using dd digit_char_plain by (auto simp: list_all_iff u_def)
  have uc: "u = digit_char d # map digit_char ds'" by (simp add: u_def dc)
  have t: "trim_start u = u" using plain uc by (simp add: trim_start_def)
  have c: "digit_char d \<noteq> CHR ''-''" "digit_char d \<noteq> CHR ''+''" using plain uc by auto
  have hx: "\<not> (take 2 u = ''0x'' \<or> take 2 u = ''0X'')"
  proof
    assume "take 2 u = ''0x'' \<or> take 2 u = ''0X''"
    then have "CHR ''x'' \<in> set (take 2 u) \<or> CHR ''X'' \<in> set (take 2 u)" by auto
    then show False using plain set_take_subset by fastforce
  qed
  have rp: "radix_prefix 10 u = ds"
    using radix_prefix_digits [OF dd, of "[]"] by (simp add: u_def)
  have hx': "\<not> (take 2 (digit_char d # map digit_char ds') = ''0x'' \<or> take 2 (digit_char d # map digit_char ds') = ''0X'')"
    using hx by (simp only: uc not_False_eq_True)
  have rp': "radix_prefix 10 (digit_char d # map digit_char ds') = ds" using rp by (simp only: uc)
  have "parse_int u = (if ds = [] then None else Some (1 * digits_value 10 ds))"
    unfolding parse_int_def Let_def t by (simp only: uc list.case c if_False prod.case hx' rp')
  moreover have "int_to_string n = u" by (simp only: int_to_string_def u_def ds_def)
  moreover have "ds \<noteq> []" using dc by simp
  ultimately show ?thesis using dv by simp
qed

lemma set_quantity_same:
  "distinct (map item_id c) \<Longrightarrow> i \<in> set c \<Longrightarrow> set_quantity (item_id i) (quantity i) c = c"
  by (induction c) (auto simp: set_quantity_def)

lemma integral_Ints: "integral r \<longleftrightarrow> r \<in> \<int>"
proof
  assume "integral r"
  then obtain p where "quotient_of r = (p, 1)" by (cases "quotient_of r") (simp add: integral_def)
  then have "r = of_int p" using quotient_of_div [of r p 1] by simp
  then show "r \<in> \<int>" by simp
next
  assume "r \<in> \<int>"
  then obtain k where "r = of_int k" by (rule Ints_cases)
  then show "integral r" by (simp add: integral_def quotient_of_int)
qed

lemma integer_price_finite: "integer_price i \<Longrightarrow> finite_price i"
  by (auto simp: integer_price_def finite_price_def split: option.splits jsnum.splits)

lemma line_value_Ints: "integer_price i \<Longrightarrow> line_value i \<in> \<int>"
  by (auto simp: integer_price_def line_value_def integral_Ints split: option.splits jsnum.splits)

lemma sum_line_value_Ints: "list_all integer_price c \<Longrightarrow> (\<Sum>i\<leftarrow>c. line_value i) \<in> \<int>"
  by (induction c) (auto intro: line_value_Ints)

lemma abs_sum_list_le: "\<bar>\<Sum>i\<leftarrow>c. f i\<bar> \<le> (\<Sum>i\<leftarrow>c. \<bar>f i\<bar>)" for f :: "'a \<Rightarrow> rat"
  by (induction c) (auto intro: order_trans [OF abs_triangle_ineq])

lemma cents_text_Ints:
  assumes "x \<in> \<int>"
  shows "cents_text x = (if x < 0 then ''-'' else []) @ int_to_string \<lfloor>\<bar>x\<bar>\<rfloor> @ ''.00''"
proof -
  obtain k where x: "x = of_int k" using assms by (rule Ints_cases)
  have "\<lfloor>\<bar>x\<bar> * 100 + 1 / 2\<rfloor> = 100 * \<bar>k\<bar>"
    by (rule floor_unique) (simp_all add: x)
  moreover have "\<lfloor>\<bar>x\<bar>\<rfloor> = \<bar>k\<bar>" by (simp add: x flip: of_int_abs)
  moreover have "digit_char 0 = CHR ''0''" by code_simp
  ultimately show ?thesis by (simp add: cents_text_def Let_def)
qed

lemma cents_text_shape:
  "\<exists>sg k d1 d2. cents_text x = sg @ int_to_string k @ ''.'' @ [digit_char d1, digit_char d2] \<and>
     sg \<in> {[], ''-''} \<and> 0 \<le> k \<and> is_digit d1 \<and> is_digit d2"
proof -
  define n where "n = \<lfloor>\<bar>x\<bar> * 100 + 1 / 2\<rfloor>"
  have n0: "0 \<le> n" unfolding n_def by simp
  have "cents_text x = (if x < 0 then ''-'' else []) @ int_to_string (n div 100) @ ''.'' @
      [digit_char (n div 10 mod 10), digit_char (n mod 10)]"
    by (simp add: cents_text_def n_def Let_def)
  moreover have "(if x < 0 then ''-'' else []) \<in> {[], ''-''}" by simp
  ultimately show ?thesis using n0 by (fastforce simp: is_digit_def)
qed

lemma render_total_cents_text:
  "list_all finite_price c \<Longrightarrow> (\<Sum>i\<leftarrow>c. \<bar>line_value i\<bar>) < 10 ^ 21 \<Longrightarrow>
     disp_total (render c) = ''Total: $'' @ cents_text (\<Sum>i\<leftarrow>c. line_value i)"
  using foldl_js_add_Fin [of c 0] to_fixed_two_cents
    order_le_less_trans [OF abs_sum_list_le [of line_value c]]
  by (simp add: render_def cart_total_def)

subsection \<open>Properties\<close>

text \<open>
  C3 (total correctness): when every price is \<open>null\<close> or a whole number and the
  sum of the magnitudes of price times quantity is below \<open>2 ^ 53\<close>, the
  \<open>forEach\<close> accumulation of lines 12-14 computes exactly the sum over the lines
  of price times quantity (a \<open>null\<close> price counting 0). Under these hypotheses
  binary64 arithmetic is exact, so this is the total the browser computes.
\<close>

theorem cart_total_exact:
  "list_all integer_price c \<Longrightarrow> (\<Sum>i\<leftarrow>c. \<bar>line_value i\<bar>) < 2 ^ 53 \<Longrightarrow>
     cart_total c = Fin (\<Sum>i\<leftarrow>c. line_value i)"
  unfolding cart_total_def using foldl_js_add_Fin [of c 0]
  by (simp add: list_all_iff integer_price_finite)

theorem cart_total_exact_witness:
  "list_all integer_price
     [\<lparr>item_id = ''P1'', item_name = ''Rose'', price = Some (Fin 10), image = ''r.png'', quantity = 2\<rparr>,
      \<lparr>item_id = ''P2'', item_name = ''Oud'', price = Some (Fin 50), image = ''o.png'', quantity = 1\<rparr>] \<and>
   (\<Sum>i\<leftarrow>[\<lparr>item_id = ''P1'', item_name = ''Rose'', price = Some (Fin 10), image = ''r.png'', quantity = 2\<rparr>,
      \<lparr>item_id = ''P2'', item_name = ''Oud'', price = Some (Fin 50), image = ''o.png'', quantity = 1\<rparr>]. \<bar>line_value i\<bar>) < 2 ^ 53 \<and>
   cart_total
     [\<lparr>item_id = ''P1'', item_name = ''Rose'', price = Some (Fin 10), image = ''r.png'', quantity = 2\<rparr>,
      \<lparr>item_id = ''P2'', item_name = ''Oud'', price = Some (Fin 50), image = ''o.png'', quantity = 1\<rparr>] = Fin 70"
proof -
  have h: "list_all integer_price
     [\<lparr>item_id = ''P1'', item_name = ''Rose'', price = Some (Fin 10), image = ''r.png'', quantity = 2\<rparr>,
      \<lparr>item_id = ''P2'', item_name = ''Oud'', price = Some (Fin 50), image = ''o.png'', quantity = 1\<rparr>]"
    by code_simp
  have b: "(\<Sum>i\<leftarrow>[\<lparr>item_id = ''P1'', item_name = ''Rose'', price = Some (Fin 10), image = ''r.png'', quantity = 2\<rparr>,
      \<lparr>item_id = ''P2'', item_name = ''Oud'', price = Some (Fin 50), image = ''o.png'', quantity = 1\<rparr>]. \<bar>line_value i\<bar>) < 2 ^ 53"
    by (simp add: line_value_def)
  show ?thesis using h b cart_total_exact [OF h b] by (simp add: line_value_def)
qed

text \<open>
  C15 (a NaN price poisons the total): \<open>parseFloat\<close> of a card's price that is not
  a number gives NaN, and one NaN line makes the displayed total
  \<open>Total: $NaN\<close>, whatever the other lines are; the code never checks prices.
\<close>

theorem nan_price_poisons_total:
  "NaN \<in> set (map line_subtotal c) \<Longrightarrow> disp_total (render c) = ''Total: $NaN''"
  by (simp add: render_def cart_total_def foldl_js_add_has_NaN to_fixed_def)

theorem nan_price_poisons_total_witness:
  "NaN \<in> set (map line_subtotal
     [\<lparr>item_id = ''P1'', item_name = ''Rose'', price = Some (Fin 10), image = ''r.png'', quantity = 2\<rparr>,
      \<lparr>item_id = ''P2'', item_name = ''Oud'', price = Some (parse_float ''call us''), image = ''o.png'', quantity = 1\<rparr>]) \<and>
   disp_total (render
     [\<lparr>item_id = ''P1'', item_name = ''Rose'', price = Some (Fin 10), image = ''r.png'', quantity = 2\<rparr>,
      \<lparr>item_id = ''P2'', item_name = ''Oud'', price = Some (parse_float ''call us''), image = ''o.png'', quantity = 1\<rparr>]) =
     ''Total: $NaN''"
proof -
  have h: "NaN \<in> set (map line_subtotal
     [\<lparr>item_id = ''P1'', item_name = ''Rose'', price = Some (Fin 10), image = ''r.png'', quantity = 2\<rparr>,
      \<lparr>item_id = ''P2'', item_name = ''Oud'', price = Some (parse_float ''call us''), image = ''o.png'', quantity = 1\<rparr>])"
    by code_simp
  show ?thesis using h nan_price_poisons_total [OF h] by simp
qed

text \<open>The \<open>reduce\<close> of line 29 is the sum of the quantities.\<close>

theorem cart_count_sum: "cart_count c = (\<Sum>i\<leftarrow>c. quantity i)"
  using foldl_count [of 0 c] by (simp add: cart_count_def)

text \<open>
  A second \<open>updateCartUI()\<close> on an unchanged cart produces the same display and
  writes the same text to the slot as the first.
\<close>

theorem update_cart_ui_idempotent:
  "update_cart_ui h c (fst (update_cart_ui h c d st)) (snd (update_cart_ui h c d st)) =
     update_cart_ui h c d st"
  by (simp add: update_cart_ui_def)

text \<open>
  C20 (two decimals): when every price is finite or \<open>null\<close> and the sum of the
  magnitudes of the lines is below \<open>10 ^ 20\<close>, the text line 28 writes to
  \<open>.cart-total\<close> is \<open>Total: $\<close>, an optional minus sign, the digits of a whole
  number, a point and exactly two digits. The margin below the \<open>10 ^ 21\<close> at which
  \<open>toFixed\<close> switches to exponent notation covers the rounding of the browser's
  doubles, so the shape is the browser's too.
\<close>

theorem render_total_two_decimals:
  "list_all finite_price c \<Longrightarrow> (\<Sum>i\<leftarrow>c. \<bar>line_value i\<bar>) < 10 ^ 20 \<Longrightarrow>
     \<exists>sg k d1 d2. disp_total (render c) = ''Total: $'' @ sg @ int_to_string k @ ''.'' @ [digit_char d1, digit_char d2] \<and>
       sg \<in> {[], ''-''} \<and> 0 \<le> k \<and> is_digit d1 \<and> is_digit d2"
  using render_total_cents_text [of c] cents_text_shape [of "\<Sum>i\<leftarrow>c. line_value i"] by force

theorem render_total_two_decimals_witness:
  "list_all finite_price
     [\<lparr>item_id = ''P1'', item_name = ''Rose'', price = Some (Fin 10), image = ''r.png'', quantity = 2\<rparr>,
      \<lparr>item_id = ''P2'', item_name = ''Oud'', price = Some (Fin (49995 / 1000)), image = ''o.png'', quantity = 1\<rparr>] \<and>
   (\<Sum>i\<leftarrow>[\<lparr>item_id = ''P1'', item_name = ''Rose'', price = Some (Fin 10), image = ''r.png'', quantity = 2\<rparr>,
      \<lparr>item_id = ''P2'', item_name = ''Oud'', price = Some (Fin (49995 / 1000)), image = ''o.png'', quantity = 1\<rparr>]. \<bar>line_value i\<bar>) < 10 ^ 20 \<and>
   (\<exists>sg k d1 d2. disp_total (render
     [\<lparr>item_id = ''P1'', item_name = ''Rose'', price = Some (Fin 10), image = ''r.png'', quantity = 2\<rparr>,
      \<lparr>item_id = ''P2'', item_name = ''Oud'', price = Some (Fin (49995 / 1000)), image = ''o.png'', quantity = 1\<rparr>]) = ''Total: $'' @ sg @ int_to_string k @ ''.'' @ [digit_char d1, digit_char d2] \<and>
       sg \<in> {[], ''-''} \<and> 0 \<le> k \<and> is_digit d1 \<and> is_digit d2)"
proof -
  have h: "list_all finite_price
     [\<lparr>item_id = ''P1'', item_name = ''Rose'', price = Some (Fin 10), image = ''r.png'', quantity = 2\<rparr>,
      \<lparr>item_id = ''P2'', item_name = ''Oud'', price = Some (Fin (49995 / 1000)), image = ''o.png'', quantity = 1\<rparr>]"
    by (simp add: finite_price_def)
  have b: "(\<Sum>i\<leftarrow>[\<lparr>item_id = ''P1'', item_name = ''Rose'', price = Some (Fin 10), image = ''r.png'', quantity = 2\<rparr>,
      \<lparr>item_id = ''P2'', item_name = ''Oud'', price = Some (Fin (49995 / 1000)), image = ''o.png'', quantity = 1\<rparr>]. \<bar>line_value i\<bar>) < 10 ^ 20"
    by (simp add: line_value_def)
  show ?thesis using h b render_total_two_decimals [OF h b] by blast
qed

text \<open>
  C30 (the displayed total of whole prices): when every price is \<open>null\<close> or a
  whole number and the sum of the magnitudes of the lines is below \<open>2 ^ 53\<close>, the
  text line 28 writes to \<open>.cart-total\<close> is \<open>Total: $\<close>, a minus sign for a
  negative total, the decimal digits of the total's magnitude and \<open>.00\<close>. The total
  is then an exact double (C3), so this is the text the browser shows.
\<close>

theorem render_total_cents:
  "list_all integer_price c \<Longrightarrow> (\<Sum>i\<leftarrow>c. \<bar>line_value i\<bar>) < 2 ^ 53 \<Longrightarrow>
     disp_total (render c) =
       ''Total: $'' @ (if (\<Sum>i\<leftarrow>c. line_value i) < 0 then ''-'' else []) @
         int_to_string \<lfloor>\<bar>\<Sum>i\<leftarrow>c. line_value i\<bar>\<rfloor> @ ''.00''"
proof -
  assume p: "list_all integer_price c" and b: "(\<Sum>i\<leftarrow>c. \<bar>line_value i\<bar>) < 2 ^ 53"
  have f: "list_all finite_price c" using p by (simp add: list_all_iff integer_price_finite)
  have "(\<Sum>i\<leftarrow>c. \<bar>line_value i\<bar>) < 10 ^ 21" using b by simp
  then show ?thesis
    using render_total_cents_text [OF f] cents_text_Ints [OF sum_line_value_Ints [OF p]] by simp
qed

theorem render_total_cents_witness:
  "list_all integer_price
     [\<lparr>item_id = ''P1'', item_name = ''Rose'', price = Some (Fin 10), image = ''r.png'', quantity = 2\<rparr>,
      \<lparr>item_id = ''P2'', item_name = ''Oud'', price = Some (Fin 50), image = ''o.png'', quantity = 1\<rparr>] \<and>
   (\<Sum>i\<leftarrow>[\<lparr>item_id = ''P1'', item_name = ''Rose'', price = Some (Fin 10), image = ''r.png'', quantity = 2\<rparr>,
      \<lparr>item_id = ''P2'', item_name = ''Oud'', price = Some (Fin 50), image = ''o.png'', quantity = 1\<rparr>]. \<bar>line_value i\<bar>) < 2 ^ 53 \<and>
   disp_total (render
     [\<lparr>item_id = ''P1'', item_name = ''Rose'', price = Some (Fin 10), image = ''r.png'', quantity = 2\<rparr>,
      \<lparr>item_id = ''P2'', item_name = ''Oud'', price = Some (Fin 50), image = ''o.png'', quantity = 1\<rparr>]) = ''Total: $70.00''"
proof -
  have h: "list_all integer_price
     [\<lparr>item_id = ''P1'', item_name = ''Rose'', price = Some (Fin 10), image = ''r.png'', quantity = 2\<rparr>,
      \<lparr>item_id = ''P2'', item_name = ''Oud'', price = Some (Fin 50), image = ''o.png'', quantity = 1\<rparr>]"
    by code_simp
  have b: "(\<Sum>i\<leftarrow>[\<lparr>item_id = ''P1'', item_name = ''Rose'', price = Some (Fin 10), image = ''r.png'', quantity = 2\<rparr>,
      \<lparr>item_id = ''P2'', item_name = ''Oud'', price = Some (Fin 50), image = ''o.png'', quantity = 1\<rparr>]. \<bar>line_value i\<bar>) < 2 ^ 53"
    by (simp add: line_value_def)
  have v: "(\<Sum>i\<leftarrow>[\<lparr>item_id = ''P1'', item_name = ''Rose'', price = Some (Fin 10), image = ''r.png'', quantity = 2\<rparr>,
      \<lparr>item_id = ''P2'', item_name = ''Oud'', price = Some (Fin 50), image = ''o.png'', quantity = 1\<rparr>]. line_value i) = 70"
    by (simp add: line_value_def)
  have t: "int_to_string 70 = ''70''" by code_simp
  show ?thesis using h b render_total_cents [OF h b] by (simp only: v) (simp add: t)
qed

text \<open>
  C31 (the quantity field reads back): in a well-formed cart, committing a quantity
  field as \<open>updateCartUI\<close> rendered it (line 21), which fires the change handler
  of lines 86-97 with \<open>parseInt\<close> of the field's text, leaves the cart unchanged,
  for every quantity below \<open>10 ^ 21\<close>.
\<close>

theorem quantity_field_unchanged:
  "cart_wf c \<Longrightarrow> i \<in> set c \<Longrightarrow> quantity i < 10 ^ 21 \<Longrightarrow>
     quantity_change (item_id i) (line_quantity (render_item i)) c = Some c"
proof -
  assume wf: "cart_wf c" and i: "i \<in> set c" and b: "quantity i < 10 ^ 21"
  have q0: "0 < quantity i" using wf i by (simp add: cart_wf_def list_all_iff)
  have f: "find_item (item_id i) c \<noteq> None" using i by (auto simp: find_item_def find_None_iff)
  have p: "parse_int (line_quantity (render_item i)) = Some (quantity i)"
    using q0 b by (simp add: render_item_def js_to_string_int parse_int_int_to_string del: js_to_string.simps)
  have "set_quantity (item_id i) (quantity i) c = c"
    using wf i by (simp add: cart_wf_def set_quantity_same)
  then show ?thesis using f p q0 by (auto simp: quantity_change_def)
qed

theorem quantity_field_unchanged_witness:
  "cart_wf [\<lparr>item_id = ''P1'', item_name = ''Rose'', price = Some (Fin 10), image = ''r.png'', quantity = 2\<rparr>] \<and>
   \<lparr>item_id = ''P1'', item_name = ''Rose'', price = Some (Fin 10), image = ''r.png'', quantity = 2\<rparr> \<in> set [\<lparr>item_id = ''P1'', item_name = ''Rose'', price = Some (Fin 10), image = ''r.png'', quantity = 2\<rparr>] \<and>
   quantity \<lparr>item_id = ''P1'', item_name = ''Rose'', price = Some (Fin 10), image = ''r.png'', quantity = 2\<rparr> < 10 ^ 21 \<and>
   quantity_change (item_id \<lparr>item_id = ''P1'', item_name = ''Rose'', price = Some (Fin 10), image = ''r.png'', quantity = 2\<rparr>)
     (line_quantity (render_item \<lparr>item_id = ''P1'', item_name = ''Rose'', price = Some (Fin 10), image = ''r.png'', quantity = 2\<rparr>)) [\<lparr>item_id = ''P1'', item_name = ''Rose'', price = Some (Fin 10), image = ''r.png'', quantity = 2\<rparr>] =
     Some [\<lparr>item_id = ''P1'', item_name = ''Rose'', price = Some (Fin 10), image = ''r.png'', quantity = 2\<rparr>]"
proof -
  have h1: "cart_wf [\<lparr>item_id = ''P1'', item_name = ''Rose'', price = Some (Fin 10), image = ''r.png'', quantity = 2\<rparr>]"
    by (simp add: cart_wf_def)
  have h2: "\<lparr>item_id = ''P1'', item_name = ''Rose'', price = Some (Fin 10), image = ''r.png'', quantity = 2\<rparr> \<in> set [\<lparr>item_id = ''P1'', item_name = ''Rose'', price = Some (Fin 10), image = ''r.png'', quantity = 2\<rparr>]"
    by simp
  have h3: "quantity \<lparr>item_id = ''P1'', item_name = ''Rose'', price = Some (Fin 10), image = ''r.png'', quantity = 2\<rparr> < 10 ^ 21"
    by simp
  show ?thesis using h1 h2 h3 quantity_field_unchanged [OF h1 h2 h3] by blast
qed

end
