(* ===== verification/EventBridge.thy ===== *)
theory EventBridge
  imports Render
begin

text \<open>
  The Event Bridge: the \<open>DOMContentLoaded\<close> handler of script.js as a state machine.
  The page state is the record \<open>page\<close>: the cart, the storage slot, the display of
  the cart elements, whether the page has \<open>.cart-items\<close>, the \<open>display\<close> of the
  cart and checkout dialogs, the queue of pending animation callbacks and the
  alerts shown so far. One event per handler; \<open>step\<close> is the handler's whole
  body with the \<open>updateCartUI\<close> call it makes (\<open>sync\<close>). The close buttons do not
  hide their dialog: they start a 0.5 s tween whose \<open>onComplete\<close> does (lines
  65-73, 114-122). Both tweens last 0.5 s, so their callbacks run in the order
  they were started, each as an event \<open>AnimationComplete\<close> that may come after any
  other events. \<open>init_page\<close> is lines 3 and 339: the load and the first redraw,
  or the load error, after which no handler exists.
\<close>

datatype callback = HideCartModal | HideCheckoutModal

record page =
  cart :: cart
  storage :: "string option"
  disp :: display
  has_cart_list :: bool
  cart_modal :: bool
  checkout_modal :: bool
  pending :: "callback list"
  alerts :: "string list"

datatype event =
    AddToCart product
  | CartIconClick
  | CloseCartClick
  | RemoveClick string
  | QuantityChange string string
  | CheckoutClick
  | CloseCheckoutClick
  | CheckoutSubmit
  | AnimationComplete

definition empty_cart_msg :: string where
  "empty_cart_msg = ''Your cart is empty!''"

definition payment_msg :: string where
  "payment_msg = ''Payment successful! Your fragrances will be delivered soon.''"

text \<open>A call of \<open>updateCartUI()\<close> on the page.\<close>

definition sync :: "page \<Rightarrow> page" where
  "sync s =
     (let (d, st) = update_cart_ui (has_cart_list s) (cart s) (disp s) (storage s)
      in s\<lparr>disp := d, storage := st\<rparr>)"

fun run_callback :: "callback \<Rightarrow> page \<Rightarrow> page" where
  "run_callback HideCartModal s = s\<lparr>cart_modal := False\<rparr>"
| "run_callback HideCheckoutModal s = s\<lparr>checkout_modal := False\<rparr>"

text \<open>
  The handlers: add to cart (lines 35-54), cart icon (58-61), close cart (64-74),
  remove (77-83), quantity change (86-99), checkout button (102-110), close
  checkout (113-123), checkout form submission (126-133), and the end of a close
  tween. The GSAP tweens without a callback have no effect on the state.
\<close>

fun step :: "page \<Rightarrow> event \<Rightarrow> page" where
  "step s (AddToCart p) = sync (s\<lparr>cart := add_or_increment p (cart s)\<rparr>)"
| "step s CartIconClick = s\<lparr>cart_modal := True\<rparr>"
| "step s CloseCartClick = s\<lparr>pending := pending s @ [HideCartModal]\<rparr>"
| "step s (RemoveClick k) = sync (s\<lparr>cart := remove_item k (cart s)\<rparr>)"
| "step s (QuantityChange k raw) =
     (case quantity_change k raw (cart s) of None \<Rightarrow> s | Some c \<Rightarrow> sync (s\<lparr>cart := c\<rparr>))"
| "step s CheckoutClick =
     (if cart s = [] then s\<lparr>alerts := alerts s @ [empty_cart_msg]\<rparr>
      else s\<lparr>cart_modal := False, checkout_modal := True\<rparr>)"
| "step s CloseCheckoutClick = s\<lparr>pending := pending s @ [HideCheckoutModal]\<rparr>"
| "step s CheckoutSubmit =
     (sync (s\<lparr>alerts := alerts s @ [payment_msg], cart := []\<rparr>))\<lparr>checkout_modal := False\<rparr>"
| "step s AnimationComplete =
     (case pending s of [] \<Rightarrow> s | cb # cbs \<Rightarrow> run_callback cb (s\<lparr>pending := cbs\<rparr>))"

fun run :: "page \<Rightarrow> event list \<Rightarrow> page" where
  "run s [] = s"
| "run s (e # es) = run (step s e) es"

text \<open>
  Lines 3 and 339 for a page with the given storage slot, \<open>.cart-items\<close> flag and
  initial display: the loaded cart, both dialogs hidden, nothing pending, then the
  first \<open>updateCartUI()\<close>.
\<close>

definition init_page :: "string option \<Rightarrow> bool \<Rightarrow> display \<Rightarrow> load_error + page" where
  "init_page st has_list d =
     (case load_cart st of
        Inl e \<Rightarrow> Inl e
      | Inr c \<Rightarrow> Inr (sync \<lparr>cart = c, storage = st, disp = d, has_cart_list = has_list,
                             cart_modal = False, checkout_modal = False, pending = [], alerts = []\<rparr>))"

inductive reachable :: "page \<Rightarrow> bool" where
  init: "init_page st has_list d = Inr s \<Longrightarrow> reachable s"
| step: "reachable s \<Longrightarrow> reachable (step s e)"

text \<open>
  A page that starts from an empty slot and has \<open>.cart-items\<close>, with nothing
  drawn before the first redraw: \<open>init_page None True blank_display\<close> gives it.
\<close>

definition blank_display :: display where
  "blank_display = \<lparr>disp_lines = [], disp_total = [], disp_count = []\<rparr>"

definition start_page :: page where
  "start_page =
     sync \<lparr>cart = [], storage = None, disp = blank_display, has_cart_list = True,
           cart_modal = False, checkout_modal = False, pending = [], alerts = []\<rparr>"

subsection \<open>The page invariant\<close>

text \<open>
  The synchronisation the spec asks for (section 3, write-through; section 4.2):
  on a page with \<open>.cart-items\<close>, the display is the rendering of the cart and the
  slot holds its serialisation, after every event.
\<close>

definition in_sync :: "page \<Rightarrow> bool" where
  "in_sync s \<longleftrightarrow> (has_cart_list s \<longrightarrow> disp s = render (cart s) \<and> storage s = Some (save_text (cart s)))"

lemma sync_cart [simp]: "cart (sync s) = cart s"
  by (simp add: sync_def update_cart_ui_def split: prod.split)

lemma sync_fields [simp]:
  "has_cart_list (sync s) = has_cart_list s" "cart_modal (sync s) = cart_modal s"
  "checkout_modal (sync s) = checkout_modal s" "pending (sync s) = pending s" "alerts (sync s) = alerts s"
  by (simp_all add: sync_def update_cart_ui_def split: prod.split)

lemma sync_disp_storage [simp]:
  "disp (sync s) = (if has_cart_list s then render (cart s) else disp s)"
  "storage (sync s) = (if has_cart_list s then Some (save_text (cart s)) else storage s)"
  by (simp_all add: sync_def update_cart_ui_def)

lemma sync_in_sync [simp]: "in_sync (sync s)"
  by (simp add: in_sync_def)

lemma run_callback_fields [simp]:
  "cart (run_callback cb s) = cart s" "storage (run_callback cb s) = storage s"
  "disp (run_callback cb s) = disp s" "has_cart_list (run_callback cb s) = has_cart_list s"
  by (cases cb; simp)+

lemma init_page_in_sync: "init_page st has_list d = Inr s \<Longrightarrow> in_sync s"
  by (auto simp: init_page_def split: sum.splits)

lemma run_append [simp]: "run s (es @ es') = run (run s es) es'"
  by (induction es arbitrary: s) auto

lemma reachable_run: "reachable s \<Longrightarrow> reachable (run s es)"
  by (induction es arbitrary: s) (auto intro: reachable.step)

lemma init_page_start: "init_page None True blank_display = Inr start_page"
proof -
  have "load_cart None = Inr []" by code_simp
  then show ?thesis by (simp add: init_page_def start_page_def)
qed

lemma reachable_start: "reachable start_page"
  using init_page_start by (rule reachable.init)

lemma render_Nil: "render [] = \<lparr>disp_lines = [], disp_total = ''Total: $0.00'', disp_count = ''0''\<rparr>"
  by code_simp

lemma save_text_Nil: "save_text [] = ''[]''"
  by code_simp

lemma run_callback_checkout_modal:
  "checkout_modal (run_callback cb s) \<Longrightarrow> checkout_modal s"
  by (cases cb) auto

lemma run_animations:
  "n \<le> length (pending s) \<Longrightarrow>
     pending (run s (replicate n AnimationComplete)) = drop n (pending s) \<and>
     cart_modal (run s (replicate n AnimationComplete)) = (cart_modal s \<and> HideCartModal \<notin> set (take n (pending s)))"
proof (induction n arbitrary: s)
  case 0
  then show ?case by simp
next
  case (Suc n)
  then obtain cb cbs where p: "pending s = cb # cbs" by (cases "pending s") auto
  have "n \<le> length (pending (step s AnimationComplete))" using Suc.prems p by (cases cb) simp_all
  then have ih: "pending (run (step s AnimationComplete) (replicate n AnimationComplete)) = drop n (pending (step s AnimationComplete)) \<and>
      cart_modal (run (step s AnimationComplete) (replicate n AnimationComplete)) =
        (cart_modal (step s AnimationComplete) \<and> HideCartModal \<notin> set (take n (pending (step s AnimationComplete))))"
    by (rule Suc.IH)
  then show ?case using p by (cases cb) auto
qed

subsection \<open>Properties\<close>

text \<open>
  C1 (uniqueness and quantity floor over every run): from a page whose cart is
  well-formed, every sequence of events (adds, removes, quantity edits, checkouts,
  dialog and animation events, in any interleaving) leaves at most one item per id
  and no item with quantity \<open>\<le> 0\<close>.
\<close>

theorem run_keeps_cart_wf: "cart_wf (cart s) \<Longrightarrow> cart_wf (cart (run s es))"
proof (induction es arbitrary: s)
  case Nil
  then show ?case by simp
next
  case (Cons e es)
  from Cons.prems have "cart_wf (cart (step s e))"
    by (cases e) (auto simp: add_or_increment_wf remove_item_wf intro: quantity_change_wf
                       split: option.splits list.splits)
  then show ?case using Cons.IH by simp
qed

theorem run_keeps_cart_wf_witness:
  "cart_wf (cart start_page) \<and>
   cart_wf (cart (run start_page
     [AddToCart \<lparr>card_id = ''P1'', card_name = ''Rose'', card_price = ''10'', card_image = ''r.png''\<rparr>,
      AddToCart \<lparr>card_id = ''P1'', card_name = ''Rose'', card_price = ''10'', card_image = ''r.png''\<rparr>,
      QuantityChange ''P1'' ''-1'']))"
proof -
  have h: "cart_wf (cart start_page)" by (simp add: start_page_def)
  show ?thesis using h run_keeps_cart_wf [OF h] by blast
qed

text \<open>
  C2 (display and storage follow the cart): in every reachable page with
  \<open>.cart-items\<close>, the display is the rendering of the current cart and the slot
  holds \<open>JSON.stringify\<close> of it: every mutation is written through, and the
  events that do not mutate leave both in place.
\<close>

theorem reachable_display_storage_in_sync:
  "reachable s \<Longrightarrow> has_cart_list s \<Longrightarrow> disp s = render (cart s) \<and> storage s = Some (save_text (cart s))"
proof -
  assume r: "reachable s" and h: "has_cart_list s"
  from r have "in_sync s"
  proof (induction rule: reachable.induct)
    case (init st has_list d s)
    then show ?case by (rule init_page_in_sync)
  next
    case (step s e)
    then show ?case by (cases e) (auto simp: in_sync_def split: option.splits list.splits)
  qed
  with h show ?thesis by (simp add: in_sync_def)
qed

theorem reachable_display_storage_in_sync_witness:
  "reachable start_page \<and> has_cart_list start_page \<and>
   disp start_page = render (cart start_page) \<and> storage start_page = Some (save_text (cart start_page))"
proof -
  have h: "has_cart_list start_page" by (simp add: start_page_def)
  show ?thesis using reachable_start h reachable_display_storage_in_sync [OF reachable_start h] by blast
qed

text \<open>
  C8 (checkout opens only with items): the only event that opens the checkout
  dialog is the checkout button, and only on a non-empty cart; on an empty cart
  the button shows the notice instead (lines 103-106).
\<close>

theorem checkout_opens_only_nonempty:
  "\<not> checkout_modal s \<Longrightarrow> checkout_modal (step s e) \<Longrightarrow> e = CheckoutClick \<and> cart s \<noteq> []"
  by (cases e) (auto split: option.splits list.splits if_splits dest: run_callback_checkout_modal)

theorem checkout_opens_only_nonempty_witness:
  "\<not> checkout_modal (step start_page (AddToCart \<lparr>card_id = ''P1'', card_name = ''Rose'', card_price = ''10'', card_image = ''r.png''\<rparr>)) \<and>
   checkout_modal (step (step start_page (AddToCart \<lparr>card_id = ''P1'', card_name = ''Rose'', card_price = ''10'', card_image = ''r.png''\<rparr>)) CheckoutClick) \<and>
   cart (step start_page (AddToCart \<lparr>card_id = ''P1'', card_name = ''Rose'', card_price = ''10'', card_image = ''r.png''\<rparr>)) \<noteq> []"
proof -
  let ?s = "step start_page (AddToCart \<lparr>card_id = ''P1'', card_name = ''Rose'', card_price = ''10'', card_image = ''r.png''\<rparr>)"
  have c: "cart ?s \<noteq> []" by (simp add: start_page_def add_or_increment_new)
  have h1: "\<not> checkout_modal ?s" by (simp add: start_page_def)
  have h2: "checkout_modal (step ?s CheckoutClick)" using c by simp
  show ?thesis using h1 h2 checkout_opens_only_nonempty [OF h1 h2] by blast
qed

text \<open>
  C9 (checkout clears): the checkout form submission shows the payment notice,
  empties the cart, redraws it as empty with total \<open>0.00\<close> and count 0, saves
  \<open>[]\<close> and closes the checkout dialog.
\<close>

theorem checkout_submit_clears:
  "has_cart_list s \<Longrightarrow>
     cart (step s CheckoutSubmit) = [] \<and>
     disp (step s CheckoutSubmit) = \<lparr>disp_lines = [], disp_total = ''Total: $0.00'', disp_count = ''0''\<rparr> \<and>
     storage (step s CheckoutSubmit) = Some ''[]'' \<and>
     alerts (step s CheckoutSubmit) = alerts s @ [payment_msg] \<and> \<not> checkout_modal (step s CheckoutSubmit)"
  by (simp add: render_Nil save_text_Nil)

theorem checkout_submit_clears_witness:
  "has_cart_list start_page \<and> cart (step start_page CheckoutSubmit) = [] \<and>
   disp (step start_page CheckoutSubmit) = \<lparr>disp_lines = [], disp_total = ''Total: $0.00'', disp_count = ''0''\<rparr>"
proof -
  have h: "has_cart_list start_page" by (simp add: start_page_def)
  show ?thesis using h checkout_submit_clears [OF h] by blast
qed

text \<open>
  C12 (removing a missing id is a no-op): a remove click for an id not in the cart
  leaves the cart as it was.
\<close>

theorem remove_missing_unchanged:
  "k \<notin> set (map item_id (cart s)) \<Longrightarrow> cart (step s (RemoveClick k)) = cart s"
  by (simp add: remove_item_def)

theorem remove_missing_unchanged_witness:
  "''P2'' \<notin> set (map item_id (cart (step start_page (AddToCart \<lparr>card_id = ''P1'', card_name = ''Rose'', card_price = ''10'', card_image = ''r.png''\<rparr>)))) \<and>
   cart (step (step start_page (AddToCart \<lparr>card_id = ''P1'', card_name = ''Rose'', card_price = ''10'', card_image = ''r.png''\<rparr>)) (RemoveClick ''P2'')) =
   cart (step start_page (AddToCart \<lparr>card_id = ''P1'', card_name = ''Rose'', card_price = ''10'', card_image = ''r.png''\<rparr>))"
proof -
  let ?s = "step start_page (AddToCart \<lparr>card_id = ''P1'', card_name = ''Rose'', card_price = ''10'', card_image = ''r.png''\<rparr>)"
  have h: "''P2'' \<notin> set (map item_id (cart ?s))"
    by (simp add: start_page_def add_or_increment_new new_item_def)
  show ?thesis using h remove_missing_unchanged [OF h] by blast
qed

text \<open>
  C13 (malformed storage stops the page): stored text that \<open>JSON.parse\<close> rejects
  throws at line 3, so the page never gets its cart or any handler; the spec asks
  for an empty cart instead (spec sections 3 and 7).
\<close>

theorem malformed_storage_syntax_error:
  "json_parse t = None \<Longrightarrow> init_page (Some t) h d = Inl SyntaxError"
  by (simp add: init_page_def load_cart_def)

theorem malformed_storage_syntax_error_witness:
  "json_parse ''{'' = None \<and> init_page (Some ''{'') True blank_display = Inl SyntaxError"
proof -
  have h: "json_parse ''{'' = None" by code_simp
  show ?thesis using h malformed_storage_syntax_error [OF h] by blast
qed

text \<open>
  C14 (a closing animation hides a reopened cart): if the cart dialog is closed
  and reopened within the 0.5 s of the closing tween, the tween's \<open>onComplete\<close>
  still runs afterwards and hides the dialog the user just opened.
\<close>

theorem close_animation_hides_reopened_cart:
  "pending s = [] \<Longrightarrow>
     cart_modal (run s [CloseCartClick, CartIconClick]) \<and>
     \<not> cart_modal (run s [CloseCartClick, CartIconClick, AnimationComplete])"
  by simp

theorem close_animation_hides_reopened_cart_witness:
  "pending start_page = [] \<and> cart_modal (run start_page [CloseCartClick, CartIconClick]) \<and>
   \<not> cart_modal (run start_page [CloseCartClick, CartIconClick, AnimationComplete])"
proof -
  have h: "pending start_page = []" by (simp add: start_page_def)
  show ?thesis using h close_animation_hides_reopened_cart [OF h] by blast
qed

text \<open>
  C17 (no cart list, no persistence): on a page without \<open>.cart-items\<close>,
  \<open>updateCartUI\<close> returns before line 30, so no event ever writes the slot or the
  display, although the spec asks for write-through after every mutation.
\<close>

theorem no_cart_list_no_save:
  "\<not> has_cart_list s \<Longrightarrow> storage (step s e) = storage s \<and> disp (step s e) = disp s"
  by (cases e) (auto split: option.splits list.splits)

theorem no_cart_list_no_save_witness:
  "\<not> has_cart_list (start_page\<lparr>has_cart_list := False\<rparr>) \<and>
   storage (step (start_page\<lparr>has_cart_list := False\<rparr>)
     (AddToCart \<lparr>card_id = ''P1'', card_name = ''Rose'', card_price = ''10'', card_image = ''r.png''\<rparr>)) =
   storage (start_page\<lparr>has_cart_list := False\<rparr>)"
proof -
  have h: "\<not> has_cart_list (start_page\<lparr>has_cart_list := False\<rparr>)" by simp
  show ?thesis using h no_cart_list_no_save [OF h] by blast
qed

text \<open>
  C24 (reload restores the cart): on a page with \<open>.cart-items\<close>, after any
  sequence of events from any successful load, loading the slot again, as the
  next visit's line 3 does, gives back the current cart: same items, order, ids,
  names, images, quantities and finite prices, a NaN or infinite price as \<open>null\<close>.
  It composes the write-through of \<open>updateCartUI\<close>, the text-level round trip of
  the JSON built-ins, and the invariant that every price is a finite decimal
  (\<open>parseFloat\<close> and \<open>JSON.parse\<close> return no other finite numbers).
\<close>

theorem reload_restores_cart:
  "reachable s \<Longrightarrow> has_cart_list s \<Longrightarrow>
     load_cart (storage s) = Inr (map (\<lambda>i. i\<lparr>price := saved_price (price i)\<rparr>) (cart s))"
proof -
  assume r: "reachable s" and h: "has_cart_list s"
  from r have "in_sync s \<and> list_all price_decimal (cart s)"
  proof (induction rule: reachable.induct)
    case (init st has_list d s)
    then show ?case by (auto simp: init_page_def split: sum.splits dest: load_cart_decimal)
  next
    case (step s e)
    then show ?case
      by (cases e) (auto simp: in_sync_def price_decimal_intros split: option.splits list.splits)
  qed
  with h show ?thesis by (simp add: in_sync_def load_save_text)
qed

theorem reload_restores_cart_witness:
  "reachable (run start_page
     [AddToCart \<lparr>card_id = ''P1'', card_name = ''Rose'', card_price = ''10.50'', card_image = ''r.png''\<rparr>,
      AddToCart \<lparr>card_id = ''P2'', card_name = ''Oud'', card_price = ''call us'', card_image = ''o.png''\<rparr>]) \<and>
   has_cart_list (run start_page
     [AddToCart \<lparr>card_id = ''P1'', card_name = ''Rose'', card_price = ''10.50'', card_image = ''r.png''\<rparr>,
      AddToCart \<lparr>card_id = ''P2'', card_name = ''Oud'', card_price = ''call us'', card_image = ''o.png''\<rparr>]) \<and>
   load_cart (storage (run start_page
     [AddToCart \<lparr>card_id = ''P1'', card_name = ''Rose'', card_price = ''10.50'', card_image = ''r.png''\<rparr>,
      AddToCart \<lparr>card_id = ''P2'', card_name = ''Oud'', card_price = ''call us'', card_image = ''o.png''\<rparr>])) =
   Inr [\<lparr>item_id = ''P1'', item_name = ''Rose'', price = Some (Fin (21 / 2)), image = ''r.png'', quantity = 1\<rparr>,
        \<lparr>item_id = ''P2'', item_name = ''Oud'', price = None, image = ''o.png'', quantity = 1\<rparr>]"
proof -
  let ?s = "run start_page
     [AddToCart \<lparr>card_id = ''P1'', card_name = ''Rose'', card_price = ''10.50'', card_image = ''r.png''\<rparr>,
      AddToCart \<lparr>card_id = ''P2'', card_name = ''Oud'', card_price = ''call us'', card_image = ''o.png''\<rparr>]"
  have r: "reachable ?s" using reachable_start by (rule reachable_run)
  have h: "has_cart_list ?s" by (simp add: start_page_def)
  have c: "map (\<lambda>i. i\<lparr>price := saved_price (price i)\<rparr>) (cart ?s) =
     [\<lparr>item_id = ''P1'', item_name = ''Rose'', price = Some (Fin (21 / 2)), image = ''r.png'', quantity = 1\<rparr>,
      \<lparr>item_id = ''P2'', item_name = ''Oud'', price = None, image = ''o.png'', quantity = 1\<rparr>]"
    by code_simp
  show ?thesis using r h reload_restores_cart [OF r h] c by simp
qed

text \<open>
  C29 (every close takes effect): the closing tween's callback is queued behind
  the callbacks already pending, and once all of them have run the cart dialog is
  hidden and nothing is pending. Each \<open>AnimationComplete\<close> runs one callback, so
  the queue drains after as many completions as it holds.
\<close>

theorem close_cart_eventually_hidden:
  "\<not> cart_modal (run (step s CloseCartClick) (replicate (Suc (length (pending s))) AnimationComplete)) \<and>
   pending (run (step s CloseCartClick) (replicate (Suc (length (pending s))) AnimationComplete)) = []"
proof -
  let ?s = "step s CloseCartClick"
  have p: "pending ?s = pending s @ [HideCartModal]" by simp
  have "Suc (length (pending s)) \<le> length (pending ?s)" using p by simp
  then have "pending (run ?s (replicate (Suc (length (pending s))) AnimationComplete)) = drop (Suc (length (pending s))) (pending ?s) \<and>
      cart_modal (run ?s (replicate (Suc (length (pending s))) AnimationComplete)) =
        (cart_modal ?s \<and> HideCartModal \<notin> set (take (Suc (length (pending s))) (pending ?s)))"
    by (rule run_animations)
  then show ?thesis using p by simp
qed

end
