(* ===== verification/PageControls.thy ===== *)
theory PageControls
  imports Prelude
begin

text \<open>
  The page controls of script.js outside the cart: the product filter buttons
  (lines 135-152), the contact form (156-166), the navigation links (168-180) and
  the hamburger button (183-193). Their state is the DOM state the handlers change:
  the \<open>active\<close> class of the filter buttons, the \<open>hidden\<close> class of the product
  cards, the values of the contact form's fields, the \<open>active\<close> class of
  \<open>.nav-links\<close> (the open mobile menu) and the \<open>window.scrollTo\<close> requests. A
  \<open>data-*\<close> attribute that is absent reads as \<open>undefined\<close>, here \<open>None\<close>; the code
  compares it with \<open>===\<close>, under which \<open>undefined === undefined\<close> holds. The GSAP
  tweens these handlers start change only opacity and position, and are left out.
  An exception thrown in a handler ends that handler only; the page keeps the
  state it had reached, which here is the state before the event, since every
  handler throws before its first mutation.
\<close>

subsection \<open>Product filter\<close>

record filter_button =
  btn_filter :: "string option"
  btn_active :: bool

record catalogue_card =
  card_category :: "string option"
  card_hidden :: bool

text \<open>Line 142: \<open>filter === 'all' || card.dataset.category === filter\<close>.\<close>

definition card_matches :: "string option \<Rightarrow> catalogue_card \<Rightarrow> bool" where
  "card_matches f c \<longleftrightarrow> f = Some ''all'' \<or> card_category c = f"

text \<open>
  A click on the \<open>i\<close>-th filter button (lines 137-152): every button loses
  \<open>active\<close>, the clicked one gains it, and each card is shown (\<open>hidden\<close> removed)
  when it matches the button's \<open>data-filter\<close> and hidden otherwise. There is no
  button beyond the last, so no handler runs for such an index.
\<close>

definition filter_click ::
  "nat \<Rightarrow> filter_button list \<Rightarrow> catalogue_card list \<Rightarrow> filter_button list \<times> catalogue_card list" where
  "filter_click i bs cs =
     (if i < length bs then
        (let f = btn_filter (bs ! i);
             bs' = (map (\<lambda>b. b\<lparr>btn_active := False\<rparr>) bs)[i := (bs ! i)\<lparr>btn_active := True\<rparr>];
             cs' = map (\<lambda>c. if card_matches f c then c\<lparr>card_hidden := False\<rparr> else c\<lparr>card_hidden := True\<rparr>) cs
         in (bs', cs'))
      else (bs, cs))"

subsection \<open>Contact form\<close>

text \<open>
  The two fields' current values and the default values that \<open>form.reset()\<close>
  restores.
\<close>

record contact_form =
  name_value :: string
  email_value :: string
  name_default :: string
  email_default :: string

definition sent_msg :: string where
  "sent_msg = ''Message sent! Our perfumery team will respond within 24 hours.''"

definition fill_msg :: string where
  "fill_msg = ''Please fill in all required fields.''"

text \<open>
  Lines 156-166: a string is truthy when it is not empty, so both fields must be
  non-empty; then the confirmation and the reset, else the reminder and no change.
  The result is the form and the alert shown.
\<close>

definition contact_submit :: "contact_form \<Rightarrow> contact_form \<times> string" where
  "contact_submit f =
     (if name_value f \<noteq> [] \<and> email_value f \<noteq> []
      then (f\<lparr>name_value := name_default f, email_value := email_default f\<rparr>, sent_msg)
      else (f, fill_msg))"

subsection \<open>Navigation\<close>

record nav_state =
  nav_open :: bool
  scroll_requests :: "int list"

datatype nav_error = TypeError

text \<open>
  A click on a navigation link with the given \<open>href\<close> attribute (lines 170-180),
  on a page whose elements are given by id with their \<open>offsetTop\<close>:
  \<open>substring(1)\<close> drops the first character; \<open>getElementById\<close> of an id no element
  has is \<open>null\<close>, and reading its \<open>offsetTop\<close> throws a \<open>TypeError\<close> before the
  scroll and before the menu is closed.
\<close>

definition nav_click :: "(string \<rightharpoonup> int) \<Rightarrow> string \<Rightarrow> nav_state \<Rightarrow> nav_error + nav_state" where
  "nav_click elems href s =
     (case elems (drop 1 href) of
        None \<Rightarrow> Inl TypeError
      | Some y \<Rightarrow> Inr (s\<lparr>scroll_requests := scroll_requests s @ [y - 80], nav_open := False\<rparr>))"

text \<open>Lines 183-185: \<open>classList.toggle('active')\<close>.\<close>

definition hamburger_click :: "nav_state \<Rightarrow> nav_state" where
  "hamburger_click s = s\<lparr>nav_open := \<not> nav_open s\<rparr>"

subsection \<open>The controls as one state machine\<close>

record controls =
  buttons :: "filter_button list"
  cards :: "catalogue_card list"
  form :: contact_form
  nav :: nav_state
  elements :: "string \<rightharpoonup> int"
  control_alerts :: "string list"

datatype control_event = FilterClick nat | ContactSubmit | NavClick string | HamburgerClick

fun control_step :: "controls \<Rightarrow> control_event \<Rightarrow> controls" where
  "control_step s (FilterClick i) =
     (let (bs, cs) = filter_click i (buttons s) (cards s) in s\<lparr>buttons := bs, cards := cs\<rparr>)"
| "control_step s ContactSubmit =
     (let (f, m) = contact_submit (form s) in s\<lparr>form := f, control_alerts := control_alerts s @ [m]\<rparr>)"
| "control_step s (NavClick href) =
     (case nav_click (elements s) href (nav s) of Inl _ \<Rightarrow> s | Inr n \<Rightarrow> s\<lparr>nav := n\<rparr>)"
| "control_step s HamburgerClick = s\<lparr>nav := hamburger_click (nav s)\<rparr>"

subsection \<open>Properties\<close>

text \<open>
  C25 (filter): after a click on a filter button, that button is the only active
  one, the buttons keep their filters and the cards their categories, and exactly
  the cards matching the button's filter are shown.
\<close>

theorem filter_click_effect:
  "i < length bs \<Longrightarrow> filter_click i bs cs = (bs', cs') \<Longrightarrow>
     length bs' = length bs \<and> (\<forall>j < length bs'. btn_active (bs' ! j) \<longleftrightarrow> j = i) \<and>
     map btn_filter bs' = map btn_filter bs \<and> map card_category cs' = map card_category cs \<and>
     length cs' = length cs \<and> (\<forall>j < length cs'. card_hidden (cs' ! j) \<longleftrightarrow> \<not> card_matches (btn_filter (bs ! i)) (cs ! j))"
proof -
  assume i: "i < length bs" and fc: "filter_click i bs cs = (bs', cs')"
  have bs': "bs' = (map (\<lambda>b. b\<lparr>btn_active := False\<rparr>) bs)[i := (bs ! i)\<lparr>btn_active := True\<rparr>]"
    and cs': "cs' = map (\<lambda>c. if card_matches (btn_filter (bs ! i)) c then c\<lparr>card_hidden := False\<rparr>
                             else c\<lparr>card_hidden := True\<rparr>) cs"
    using i fc by (simp_all add: filter_click_def Let_def)
  have "map btn_filter bs' = map btn_filter bs"
    using i by (intro nth_equalityI) (auto simp: bs' nth_list_update)
  moreover have "map card_category cs' = map card_category cs" by (simp add: cs' comp_def)
  moreover have "\<forall>j < length bs'. btn_active (bs' ! j) \<longleftrightarrow> j = i" using i by (simp add: bs' nth_list_update)
  moreover have "\<forall>j < length cs'. card_hidden (cs' ! j) \<longleftrightarrow> \<not> card_matches (btn_filter (bs ! i)) (cs ! j)"
    by (simp add: cs')
  ultimately show ?thesis by (simp add: bs' cs')
qed

theorem filter_click_effect_witness:
  "1 < length [\<lparr>btn_filter = Some ''all'', btn_active = True\<rparr>, \<lparr>btn_filter = Some ''floral'', btn_active = False\<rparr>] \<and>
   filter_click 1 [\<lparr>btn_filter = Some ''all'', btn_active = True\<rparr>, \<lparr>btn_filter = Some ''floral'', btn_active = False\<rparr>]
     [\<lparr>card_category = Some ''floral'', card_hidden = False\<rparr>, \<lparr>card_category = Some ''woody'', card_hidden = False\<rparr>,
      \<lparr>card_category = None, card_hidden = True\<rparr>] =
   ([\<lparr>btn_filter = Some ''all'', btn_active = False\<rparr>, \<lparr>btn_filter = Some ''floral'', btn_active = True\<rparr>],
    [\<lparr>card_category = Some ''floral'', card_hidden = False\<rparr>, \<lparr>card_category = Some ''woody'', card_hidden = True\<rparr>,
     \<lparr>card_category = None, card_hidden = True\<rparr>]) \<and>
   \<not> card_hidden ([\<lparr>card_category = Some ''floral'', card_hidden = False\<rparr>, \<lparr>card_category = Some ''woody'', card_hidden = True\<rparr>,
     \<lparr>card_category = None, card_hidden = True\<rparr>] ! 0)"
proof -
  let ?bs = "[\<lparr>btn_filter = Some ''all'', btn_active = True\<rparr>, \<lparr>btn_filter = Some ''floral'', btn_active = False\<rparr>]"
  let ?cs = "[\<lparr>card_category = Some ''floral'', card_hidden = False\<rparr>, \<lparr>card_category = Some ''woody'', card_hidden = False\<rparr>,
      \<lparr>card_category = None, card_hidden = True\<rparr>]"
  let ?bs' = "[\<lparr>btn_filter = Some ''all'', btn_active = False\<rparr>, \<lparr>btn_filter = Some ''floral'', btn_active = True\<rparr>]"
  let ?cs' = "[\<lparr>card_category = Some ''floral'', card_hidden = False\<rparr>, \<lparr>card_category = Some ''woody'', card_hidden = True\<rparr>,
     \<lparr>card_category = None, card_hidden = True\<rparr>]"
  have i: "1 < length ?bs" by simp
  have fc: "filter_click 1 ?bs ?cs = (?bs', ?cs')" by (simp add: filter_click_def card_matches_def Let_def)
  have "\<not> card_hidden (?cs' ! 0)"
    using filter_click_effect [OF i fc] by (simp add: card_matches_def)
  with i fc show ?thesis by blast
qed

text \<open>
  C26 (contact form): the form is accepted exactly when both fields are non-empty
  (JavaScript truthiness: a name of spaces passes); then the fields are reset to
  their defaults and the confirmation is shown, otherwise the form is unchanged
  and the reminder is shown.
\<close>

theorem contact_submit_effect:
  "contact_submit f = (f', m) \<Longrightarrow>
     (name_value f \<noteq> [] \<and> email_value f \<noteq> [] \<and> m = sent_msg \<and>
        f' = f\<lparr>name_value := name_default f, email_value := email_default f\<rparr>) \<or>
     ((name_value f = [] \<or> email_value f = []) \<and> m = fill_msg \<and> f' = f)"
  by (auto simp: contact_submit_def split: if_splits)

theorem contact_submit_effect_witness:
  "contact_submit \<lparr>name_value = ''   '', email_value = ''a@b'', name_default = [], email_default = []\<rparr> =
     (\<lparr>name_value = [], email_value = [], name_default = [], email_default = []\<rparr>, sent_msg) \<and>
   ((''   '' \<noteq> [] \<and> ''a@b'' \<noteq> [] \<and> sent_msg = sent_msg \<and>
     \<lparr>name_value = [], email_value = [], name_default = [], email_default = []\<rparr> =
       \<lparr>name_value = ''   '', email_value = ''a@b'', name_default = [], email_default = []\<rparr>
         \<lparr>name_value := [], email_value := []\<rparr>) \<or>
    ((''   '' = [] \<or> ''a@b'' = []) \<and> sent_msg = fill_msg \<and>
     \<lparr>name_value = [], email_value = [], name_default = [], email_default = []\<rparr> =
       \<lparr>name_value = ''   '', email_value = ''a@b'', name_default = [], email_default = []\<rparr>))"
proof -
  have h: "contact_submit \<lparr>name_value = ''   '', email_value = ''a@b'', name_default = [], email_default = []\<rparr> =
     (\<lparr>name_value = [], email_value = [], name_default = [], email_default = []\<rparr>, sent_msg)"
    by (simp add: contact_submit_def)
  show ?thesis using h contact_submit_effect [OF h] by simp
qed

text \<open>
  C27 (navigation error path): a click on a link whose target id no element has
  (\<open>href="#"\<close>, a misspelt id, or an \<open>href\<close> without \<open>#\<close>) throws before it
  scrolls or closes the mobile menu: the page controls are unchanged, an open
  menu stays open.
\<close>

theorem nav_click_missing_target:
  "elements s (drop 1 href) = None \<Longrightarrow> control_step s (NavClick href) = s"
  by (simp add: nav_click_def)

theorem nav_click_missing_target_witness:
  "elements \<lparr>buttons = [], cards = [], form = \<lparr>name_value = [], email_value = [], name_default = [], email_default = []\<rparr>,
      nav = \<lparr>nav_open = True, scroll_requests = []\<rparr>, elements = [''about'' \<mapsto> 900], control_alerts = []\<rparr> (drop 1 ''#'') = None \<and>
   nav_open (nav (control_step
     \<lparr>buttons = [], cards = [], form = \<lparr>name_value = [], email_value = [], name_default = [], email_default = []\<rparr>,
      nav = \<lparr>nav_open = True, scroll_requests = []\<rparr>, elements = [''about'' \<mapsto> 900], control_alerts = []\<rparr> (NavClick ''#'')))"
proof -
  let ?s = "\<lparr>buttons = [], cards = [], form = \<lparr>name_value = [], email_value = [], name_default = [], email_default = []\<rparr>,
      nav = \<lparr>nav_open = True, scroll_requests = []\<rparr>, elements = [''about'' \<mapsto> 900], control_alerts = []\<rparr>"
  have h: "elements ?s (drop 1 ''#'') = None" by simp
  show ?thesis using h nav_click_missing_target [OF h] by simp
qed

text \<open>
  C28 (navigation with a target): a click on a link whose target id an element
  has requests a scroll to 80 pixels above that element (line 175, for the fixed
  navigation bar) and closes the mobile menu (line 179).
\<close>

theorem nav_click_scrolls:
  "elements s (drop 1 href) = Some y \<Longrightarrow>
     nav (control_step s (NavClick href)) = \<lparr>nav_open = False, scroll_requests = scroll_requests (nav s) @ [y - 80]\<rparr>"
  by (simp add: nav_click_def)

theorem nav_click_scrolls_witness:
  "elements \<lparr>buttons = [], cards = [], form = \<lparr>name_value = [], email_value = [], name_default = [], email_default = []\<rparr>,
      nav = \<lparr>nav_open = True, scroll_requests = []\<rparr>, elements = [''about'' \<mapsto> 900], control_alerts = []\<rparr> (drop 1 ''#about'') = Some 900 \<and>
   nav (control_step
     \<lparr>buttons = [], cards = [], form = \<lparr>name_value = [], email_value = [], name_default = [], email_default = []\<rparr>,
      nav = \<lparr>nav_open = True, scroll_requests = []\<rparr>, elements = [''about'' \<mapsto> 900], control_alerts = []\<rparr> (NavClick ''#about'')) =
     \<lparr>nav_open = False, scroll_requests = [820]\<rparr>"
proof -
  let ?s = "\<lparr>buttons = [], cards = [], form = \<lparr>name_value = [], email_value = [], name_default = [], email_default = []\<rparr>,
      nav = \<lparr>nav_open = True, scroll_requests = []\<rparr>, elements = [''about'' \<mapsto> 900], control_alerts = []\<rparr>"
  have h: "elements ?s (drop 1 ''#about'') = Some 900" by simp
  show ?thesis using h nav_click_scrolls [OF h] by simp
qed

end
