(* ===== verification/Animations.thy ===== *)
theory Animations
  imports Gsap EventBridge PageControls
begin

text \<open>
  The animations of script.js: the tweens the handlers start (lines 53, 60,
  65-73, 109, 114-122, 144-147, 186-192) and the ones registered once the page has
  loaded (lines 196-336), with the values, durations, eases, delays, staggers and
  scroll triggers the code gives them, in the order the code creates them. The
  dialog contents \<open>.cart-content\<close> and \<open>.checkout-content\<close> carry a style that the
  dialog tweens change: \<open>styled_page\<close> pairs the page of \<open>EventBridge\<close> with those
  two styles, and \<open>sstep\<close> applies to them the style each tween leaves when it has
  finished (\<open>Gsap.settle\<close>), a close tween when its \<open>onComplete\<close> runs, an open
  tween when it is started (a \<open>from\<close> tween ends where the element was).
\<close>

subsection \<open>The tweens of the handlers\<close>

text \<open>Line 53: the add-to-cart button grows to 1.1 and back, \<open>yoyo\<close> with one repeat.\<close>

definition add_button_pulse :: tween where
  "add_button_pulse =
     (base_tween To [(''scale'', 11 / 10)])\<lparr>tw_duration := 1 / 5, tw_repeat := 1, tw_yoyo := True\<rparr>"

text \<open>Lines 60 and 109: the dialog content slides in from 100 px below, transparent.\<close>

definition cart_open_tween :: tween where
  "cart_open_tween = (base_tween From [(''y'', 100), (''opacity'', 0)])\<lparr>tw_ease := Power3Out\<rparr>"

definition checkout_open_tween :: tween where
  "checkout_open_tween = (base_tween From [(''y'', 100), (''opacity'', 0)])\<lparr>tw_ease := Power3Out\<rparr>"

text \<open>
  Lines 65-73 and 114-122: the content slides out to 100 px below and fades out;
  the \<open>onComplete\<close> that hides the dialog is \<open>EventBridge.run_callback\<close>.
\<close>

definition cart_close_tween :: tween where
  "cart_close_tween = (base_tween To [(''y'', 100), (''opacity'', 0)])\<lparr>tw_ease := Power3In\<rparr>"

definition checkout_close_tween :: tween where
  "checkout_close_tween = (base_tween To [(''y'', 100), (''opacity'', 0)])\<lparr>tw_ease := Power3In\<rparr>"

text \<open>Lines 144-147: a card the filter shows fades in from 50 px below.\<close>

definition filter_card_tween :: tween where
  "filter_card_tween =
     (base_tween (FromTo [(''opacity'', 0), (''y'', 50)]) [(''opacity'', 1), (''y'', 0)])\<lparr>tw_ease := Power3Out\<rparr>"

text \<open>Lines 186-192: the links of the opened menu drop in one after the other.\<close>

definition nav_links_tween :: tween where
  "nav_links_tween =
     (base_tween From [(''y'', 20), (''opacity'', 0)])\<lparr>tw_stagger := 1 / 10, tw_ease := Power3Out\<rparr>"

text \<open>
  The selector \<open>.nav-links.active a\<close> of line 186 is evaluated after the toggle of
  line 184: it matches the \<open>n\<close> links when the click opened the menu and nothing
  when it closed it.
\<close>

definition nav_links_animated :: "nat \<Rightarrow> nav_state \<Rightarrow> nat" where
  "nav_links_animated n s = (if nav_open (hamburger_click s) then n else 0)"

subsection \<open>The animations registered at load\<close>

text \<open>
  What the script hands to GSAP: a single tween on a target, or a timeline of
  tweens on targets with their position parameters.
\<close>

datatype registration = Single target tween | Timeline "(target \<times> tween \<times> position) list"

definition entrance :: "(string \<times> rat) list \<Rightarrow> rat \<Rightarrow> tween" where
  "entrance vs d = (base_tween From vs)\<lparr>tw_duration := d, tw_ease := Power3Out\<rparr>"

definition on_scroll :: "target \<Rightarrow> string \<Rightarrow> tween \<Rightarrow> tween" where
  "on_scroll t st tw =
     tw\<lparr>tw_scroll := Some \<lparr>st_trigger = t, st_start = st, st_end = None, st_scrub = False\<rparr>\<rparr>"

text \<open>Lines 199-203: the navigation bar drops in from 100 px above.\<close>

definition navbar_tween :: tween where
  "navbar_tween = entrance [(''y'', -100)] 1"

text \<open>
  Lines 206-211: the hero timeline; the paragraph starts 1.2 s before the end of the
  heading, the button 1 s before the end so far, the image 1.5 s before it.
\<close>

definition hero_timeline :: "(target \<times> tween \<times> position) list" where
  "hero_timeline =
     [(Sel ''.hero-content h1'', entrance [(''y'', 100), (''opacity'', 0)] (3 / 2), AtEnd),
      (Sel ''.hero-content p'', entrance [(''y'', 100), (''opacity'', 0)] (3 / 2), BeforeEnd (6 / 5)),
      (Sel ''.cta-button'', entrance [(''y'', 100), (''opacity'', 0)] (3 / 2), BeforeEnd 1),
      (Sel ''.hero-image img'',
       (entrance [(''scale'', 1 / 2), (''opacity'', 0), (''rotation'', 10)] 2)\<lparr>tw_ease := BackOut (17 / 10)\<rparr>,
       BeforeEnd (3 / 2))]"

text \<open>Lines 214-223: the hero image follows the scroll through the hero section.\<close>

definition parallax_tween :: tween where
  "parallax_tween =
     (base_tween To [(''yPercent'', 20)])\<lparr>tw_ease := EaseNone,
        tw_scroll := Some \<lparr>st_trigger = Sel ''.hero'', st_start = ''top top'', st_end = Some ''bottom top'',
                           st_scrub = True\<rparr>\<rparr>"

text \<open>Lines 226-238: the \<open>i\<close>-th product card rises in when it scrolls into view, \<open>i / 10\<close> s late.\<close>

definition product_tween :: "nat \<Rightarrow> tween" where
  "product_tween i =
     (on_scroll (Nth ''.product-card'' i) ''top 85%'' (entrance [(''y'', 100), (''opacity'', 0)] 1))\<lparr>tw_delay := of_nat i / 10\<rparr>"

text \<open>Lines 241-272: the about section's heading, paragraphs (staggered) and image.\<close>

definition about_tweens :: "registration list" where
  "about_tweens =
     [Single (Sel ''.about h2'') (on_scroll (Sel ''.about'') ''top 80%'' (entrance [(''y'', 50), (''opacity'', 0)] 1)),
      Single (Sel ''.about-content p'')
        (on_scroll (Sel ''.about'') ''top 80%'' ((entrance [(''y'', 50), (''opacity'', 0)] 1)\<lparr>tw_stagger := 1 / 5\<rparr>)),
      Single (Sel ''.about-image'')
        (on_scroll (Sel ''.about'') ''top 80%'' (entrance [(''scale'', 4 / 5), (''opacity'', 0)] (3 / 2)))]"

text \<open>
  Lines 276-287: testimonial card \<open>i\<close> slides in from 200 px to the left when
  \<open>i\<close> is even (\<open>i % 2 === 0\<close>) and from 200 px to the right otherwise.
\<close>

definition testimonial_tween :: "nat \<Rightarrow> tween" where
  "testimonial_tween i =
     on_scroll (Nth ''.testimonial-card'' i) ''top 90%''
       (entrance [(''x'', if i mod 2 = 0 then -200 else 200), (''opacity'', 0)] (3 / 2))"

text \<open>Lines 290-322: the contact heading, the form's children (staggered) and the footer.\<close>

definition contact_footer_tweens :: "registration list" where
  "contact_footer_tweens =
     [Single (Sel ''.contact h2'') (on_scroll (Sel ''.contact'') ''top 80%'' (entrance [(''y'', 50), (''opacity'', 0)] 1)),
      Single (Sel ''.contact form > *'')
        (on_scroll (Sel ''.contact'') ''top 80%'' ((entrance [(''y'', 50), (''opacity'', 0)] 1)\<lparr>tw_stagger := 1 / 5\<rparr>)),
      Single (Sel ''footer'') (on_scroll (Sel ''footer'') ''top 90%'' (entrance [(''y'', 50), (''opacity'', 0)] 1))]"

text \<open>Lines 325-335: each social link grows in when the footer scrolls into view.\<close>

definition social_tween :: tween where
  "social_tween = on_scroll (Sel ''footer'') ''top 90%'' (entrance [(''scale'', 4 / 5), (''opacity'', 0)] 1)"

text \<open>
  Lines 196-336 on a page with \<open>np\<close> product cards, \<open>nt\<close> testimonial cards and
  \<open>nl\<close> social links (what \<open>gsap.utils.toArray\<close> returns), in the order of the code.
\<close>

definition page_animations :: "nat \<Rightarrow> nat \<Rightarrow> nat \<Rightarrow> registration list" where
  "page_animations np nt nl =
     [Single (Sel ''.navbar'') navbar_tween, Timeline hero_timeline, Single (Sel ''.hero-image img'') parallax_tween]
     @ map (\<lambda>i. Single (Nth ''.product-card'' i) (product_tween i)) [0..<np]
     @ about_tweens
     @ map (\<lambda>i. Single (Nth ''.testimonial-card'' i) (testimonial_tween i)) [0..<nt]
     @ contact_footer_tweens
     @ map (\<lambda>i. Single (Nth ''.social-links a'' i) social_tween) [0..<nl]"

text \<open>The tweens of a registration, with the targets they animate.\<close>

fun reg_tweens :: "registration \<Rightarrow> (target \<times> tween) list" where
  "reg_tweens (Single t tw) = [(t, tw)]"
| "reg_tweens (Timeline cs) = map (\<lambda>(t, tw, p). (t, tw)) cs"

subsection \<open>The dialog contents under their tweens\<close>

record styled_page =
  spage :: page
  cart_style :: style
  checkout_style :: style

text \<open>
  One event on the styled page: the page takes its \<open>EventBridge.step\<close>; the open
  tweens (lines 60 and 109, the latter only when the checkout opens) and the
  close tweens, when the \<open>onComplete\<close> of the queue's first callback runs, leave the
  style of their dialog's content as \<open>settle\<close> gives it. Tweens overlapping on one
  element are not modelled: each is taken to run to its end.
\<close>

definition sstep :: "styled_page \<Rightarrow> event \<Rightarrow> styled_page" where
  "sstep s e =
     (let p = spage s
      in case e of
           CartIconClick \<Rightarrow> s\<lparr>spage := step p e, cart_style := settle cart_open_tween (cart_style s)\<rparr>
         | CheckoutClick \<Rightarrow>
             if cart p = [] then s\<lparr>spage := step p e\<rparr>
             else s\<lparr>spage := step p e, checkout_style := settle checkout_open_tween (checkout_style s)\<rparr>
         | AnimationComplete \<Rightarrow>
             (case pending p of
                HideCartModal # _ \<Rightarrow> s\<lparr>spage := step p e, cart_style := settle cart_close_tween (cart_style s)\<rparr>
              | HideCheckoutModal # _ \<Rightarrow>
                  s\<lparr>spage := step p e, checkout_style := settle checkout_close_tween (checkout_style s)\<rparr>
              | [] \<Rightarrow> s\<lparr>spage := step p e\<rparr>)
         | _ \<Rightarrow> s\<lparr>spage := step p e\<rparr>)"

fun srun :: "styled_page \<Rightarrow> event list \<Rightarrow> styled_page" where
  "srun s [] = s"
| "srun s (e # es) = srun (sstep s e) es"

subsection \<open>Lemmas\<close>

lemma spage_sstep [simp]: "spage (sstep s e) = step (spage s) e"
  by (simp add: sstep_def Let_def split: event.split list.split callback.split)

lemma spage_srun: "spage (srun s es) = run (spage s) es"
  by (induction es arbitrary: s) simp_all

lemma srun_append: "srun s (es @ fs) = srun (srun s es) fs"
  by (induction es arbitrary: s) simp_all

lemma settle_open_tweens [simp]:
  "settle cart_open_tween cur = cur" "settle checkout_open_tween cur = cur"
  by (simp_all add: settle_From cart_open_tween_def checkout_open_tween_def base_tween_def)

lemma settle_close_tweens [simp]:
  "settle cart_close_tween cur = cur(''opacity'' := 0, ''y'' := 100)"
  "settle checkout_close_tween cur = cur(''opacity'' := 0, ''y'' := 100)"
  by (simp_all add: settle_To cart_close_tween_def checkout_close_tween_def base_tween_def set_vars_Cons
      fun_upd_twist)

text \<open>No tween of the script brings a dialog content back from opacity 0.\<close>

lemma sstep_cart_opacity_0:
  "cart_style s ''opacity'' = 0 \<Longrightarrow> cart_style (sstep s e) ''opacity'' = 0"
  by (simp add: sstep_def Let_def split: event.split list.split callback.split)

lemma srun_cart_opacity_0:
  "cart_style s ''opacity'' = 0 \<Longrightarrow> cart_style (srun s es) ''opacity'' = 0"
  by (induction es arbitrary: s) (simp_all add: sstep_cart_opacity_0)

text \<open>The close tween of the cart ends when its callback, last in the queue, has run.\<close>

lemma close_completes_cart_opacity_0:
  "pending (spage s) = q @ [HideCartModal] \<Longrightarrow>
     cart_style (srun s (replicate (Suc (length q)) AnimationComplete)) ''opacity'' = 0"
proof (induction q arbitrary: s)
  case Nil
  then show ?case by (simp add: sstep_def)
next
  case (Cons c q)
  have "pending (spage (sstep s AnimationComplete)) = q @ [HideCartModal]"
    using Cons.prems by (cases c) simp_all
  then show ?case using Cons.IH by simp
qed

definition css_content :: style where
  "css_content = (\<lambda>k. if k = ''opacity'' then 1 else 0)"

lemma cart_reopen_scenario:
  "cart_style (srun \<lparr>spage = start_page, cart_style = css_content, checkout_style = css_content\<rparr>
      [CartIconClick]) ''opacity'' = 1 \<and>
   cart_modal (spage (srun \<lparr>spage = start_page, cart_style = css_content, checkout_style = css_content\<rparr>
      [CartIconClick, CloseCartClick, AnimationComplete, CartIconClick])) \<and>
   cart_style (srun \<lparr>spage = start_page, cart_style = css_content, checkout_style = css_content\<rparr>
      [CartIconClick, CloseCartClick, AnimationComplete, CartIconClick]) ''opacity'' = 0"
  by (simp add: sstep_def start_page_def css_content_def)

lemma product_tween_timing:
  "stagger_start (product_tween i) 0 = of_nat i / 10 \<and> tween_end_time (product_tween i) = of_nat i / 10 + 1"
  by (simp add: product_tween_def on_scroll_def entrance_def base_tween_def stagger_start_def tween_end_time_def)

lemma testimonial_sides:
  "map_of (tw_vars (testimonial_tween (Suc i))) ''x'' = map_option uminus (map_of (tw_vars (testimonial_tween i)) ''x'')"
  by (simp add: testimonial_tween_def on_scroll_def entrance_def base_tween_def mod_Suc)

subsection \<open>Properties\<close>

text \<open>
  C33 (a closed cart reopens invisible): once a close of the cart dialog has run
  its tween to the end (lines 65-73), whatever events follow, opening the cart
  again (lines 58-61) displays the dialog with its content at opacity 0: the
  \<open>gsap.from\<close> of line 60 animates from opacity 0 to the current opacity, which the
  close tween has left at 0.
\<close>

theorem reopened_cart_content_invisible:
  "cart_modal (spage (srun s (CloseCartClick # replicate (Suc (length (pending (spage s)))) AnimationComplete
                              @ es @ [CartIconClick]))) \<and>
   cart_style (srun s (CloseCartClick # replicate (Suc (length (pending (spage s)))) AnimationComplete
                        @ es @ [CartIconClick])) ''opacity'' = 0"
proof -
  define s1 where "s1 = sstep s CloseCartClick"
  have q: "pending (spage s1) = pending (spage s) @ [HideCartModal]" by (simp add: s1_def)
  have "cart_style (srun s1 (replicate (Suc (length (pending (spage s)))) AnimationComplete)) ''opacity'' = 0"
    using close_completes_cart_opacity_0 [OF q] .
  then have "cart_style (srun s1 (replicate (Suc (length (pending (spage s)))) AnimationComplete @ es)) ''opacity'' = 0"
    by (simp add: srun_append srun_cart_opacity_0)
  then show ?thesis by (simp add: s1_def srun_append sstep_def)
qed

text \<open>
  The hero entrance schedule: GSAP places the four tweens of the hero
  timeline (lines 206-211) at 0 s (heading), 0.3 s (paragraph), 0.8 s (button)
  and 0.8 s (image), so each starts while the one before is still running, and the
  entrance ends after 2.8 s, when the image's 2 s tween ends.
\<close>

theorem hero_timeline_schedule:
  "map fst (timeline_place 0 (map snd hero_timeline)) = [0, 3 / 10, 4 / 5, 4 / 5] \<and>
   timeline_end 0 (map snd hero_timeline) = 14 / 5"
  by (simp add: hero_timeline_def entrance_def base_tween_def tween_end_time_def Let_def)

end
