(* ===== verification/Boot.thy ===== *)
theory Boot
  imports EventBridge PageControls
begin

text \<open>
  The page as one system: the \<open>DOMContentLoaded\<close> handler of script.js installs its
  handlers one statement after the other (lines 35-339). A statement
  \<open>document.querySelector(s).addEventListener(...)\<close> (or \<open>getElementById\<close>) on a page
  without the element calls \<open>addEventListener\<close> on \<open>null\<close> and throws a
  \<open>TypeError\<close>, which ends the handler: the statements after it, the later
  handlers, the animations and the first \<open>updateCartUI()\<close> of line 339, never run.
  \<open>installed\<close> is the list of handlers that do get installed on a page with the
  given elements, \<open>boot\<close> the page after the load, and \<open>site_step\<close> one event of
  the cart (\<open>EventBridge.step\<close>) or of the page controls
  (\<open>PageControls.control_step\<close>), which only an installed handler acts on.
\<close>

datatype handler =
    AddButtons | CartIcon | CloseCart | RemoveClicks | QuantityChanges | CheckoutButton
  | CloseCheckout | CheckoutForm | FilterButtons | ContactForm | NavLinks | Hamburger
  | LoadAnimations | FirstRender

text \<open>The statements of lines 35-339 in the order of the code.\<close>

definition script_handlers :: "handler list" where
  "script_handlers =
     [AddButtons, CartIcon, CloseCart, RemoveClicks, QuantityChanges, CheckoutButton, CloseCheckout,
      CheckoutForm, FilterButtons, ContactForm, NavLinks, Hamburger, LoadAnimations, FirstRender]"

text \<open>
  The element a statement dereferences (lines 58, 64, 102, 113, 126, 156, 183);
  \<open>querySelectorAll(...).forEach\<close> and \<open>document.addEventListener\<close> need none.
\<close>

fun required_element :: "handler \<Rightarrow> string option" where
  "required_element CartIcon = Some ''.cart-icon''"
| "required_element CloseCart = Some ''.close-cart''"
| "required_element CheckoutButton = Some ''#checkout-btn''"
| "required_element CloseCheckout = Some ''.close-checkout''"
| "required_element CheckoutForm = Some ''#checkout-form''"
| "required_element ContactForm = Some ''#contact-form''"
| "required_element Hamburger = Some ''.hamburger''"
| "required_element _ = None"

definition runs_on :: "(string \<Rightarrow> bool) \<Rightarrow> handler \<Rightarrow> bool" where
  "runs_on present h \<longleftrightarrow> (case required_element h of None \<Rightarrow> True | Some x \<Rightarrow> present x)"

definition installed :: "(string \<Rightarrow> bool) \<Rightarrow> handler list" where
  "installed present = takeWhile (runs_on present) script_handlers"

text \<open>
  Lines 3 and 35-339 on a page whose elements are \<open>present\<close>: the load (its
  \<open>SyntaxError\<close> stops everything), then the first redraw if line 339 is reached.
\<close>

definition boot :: "(string \<Rightarrow> bool) \<Rightarrow> string option \<Rightarrow> display \<Rightarrow> load_error + page" where
  "boot present st d =
     (case load_cart st of
        Inl e \<Rightarrow> Inl e
      | Inr c \<Rightarrow>
          (let p = \<lparr>cart = c, storage = st, disp = d, has_cart_list = present ''.cart-items'',
                    cart_modal = False, checkout_modal = False, pending = [], alerts = []\<rparr>
           in Inr (if FirstRender \<in> set (installed present) then sync p else p)))"

text \<open>
  The handler an event of the cart needs; the end of a tween is GSAP's and needs
  none.
\<close>

fun event_handler :: "event \<Rightarrow> handler option" where
  "event_handler (AddToCart _) = Some AddButtons"
| "event_handler CartIconClick = Some CartIcon"
| "event_handler CloseCartClick = Some CloseCart"
| "event_handler (RemoveClick _) = Some RemoveClicks"
| "event_handler (QuantityChange _ _) = Some QuantityChanges"
| "event_handler CheckoutClick = Some CheckoutButton"
| "event_handler CloseCheckoutClick = Some CloseCheckout"
| "event_handler CheckoutSubmit = Some CheckoutForm"
| "event_handler AnimationComplete = None"

fun control_handler :: "control_event \<Rightarrow> handler" where
  "control_handler (FilterClick _) = FilterButtons"
| "control_handler ContactSubmit = ContactForm"
| "control_handler (NavClick _) = NavLinks"
| "control_handler HamburgerClick = Hamburger"

record site =
  shop :: page
  ctl :: controls

datatype site_event = ShopEvent event | ControlEvent control_event

text \<open>
  An event on the page: the handler acts when it was installed; otherwise nothing
  in the model changes (the browser's default action of a form submission, a
  navigation, is not modelled).
\<close>

fun site_step :: "(string \<Rightarrow> bool) \<Rightarrow> site \<Rightarrow> site_event \<Rightarrow> site" where
  "site_step present s (ShopEvent e) =
     (case event_handler e of
        None \<Rightarrow> s\<lparr>shop := step (shop s) e\<rparr>
      | Some h \<Rightarrow> if h \<in> set (installed present) then s\<lparr>shop := step (shop s) e\<rparr> else s)"
| "site_step present s (ControlEvent e) =
     (if control_handler e \<in> set (installed present) then s\<lparr>ctl := control_step (ctl s) e\<rparr> else s)"

fun site_run :: "(string \<Rightarrow> bool) \<Rightarrow> site \<Rightarrow> site_event list \<Rightarrow> site" where
  "site_run present s [] = s"
| "site_run present s (e # es) = site_run present (site_step present s e) es"

text \<open>The events of each component in a run of the page, in their order.\<close>

fun shop_events :: "site_event list \<Rightarrow> event list" where
  "shop_events [] = []"
| "shop_events (ShopEvent e # es) = e # shop_events es"
| "shop_events (ControlEvent _ # es) = shop_events es"

fun control_events :: "site_event list \<Rightarrow> control_event list" where
  "control_events [] = []"
| "control_events (ShopEvent _ # es) = control_events es"
| "control_events (ControlEvent c # es) = c # control_events es"

subsection \<open>Lemmas\<close>

lemma installed_everything: "(\<And>x. present x) \<Longrightarrow> installed present = script_handlers"
  by (simp add: installed_def runs_on_def takeWhile_eq_all_conv split: option.split)

lemma first_render_installed:
  "FirstRender \<in> set (installed present) \<longleftrightarrow> (\<forall>h\<in>set script_handlers. runs_on present h)"
  by (simp add: installed_def script_handlers_def runs_on_def)

lemma site_run_everything:
  assumes "\<And>x. present x"
  shows "shop (site_run present s es) = run (shop s) (shop_events es) \<and>
         ctl (site_run present s es) = foldl control_step (ctl s) (control_events es)"
proof (induction es arbitrary: s)
  case Nil
  then show ?case by simp
next
  case (Cons e es)
  have all: "h \<in> set (installed present)" for h
    using installed_everything [OF assms] by (cases h) (simp_all add: script_handlers_def)
  show ?case
  proof (cases e)
    case (ShopEvent x)
    then show ?thesis using Cons.IH [of "site_step present s e"] all by (simp split: option.split)
  next
    case (ControlEvent c)
    then show ?thesis using Cons.IH [of "site_step present s e"] all by simp
  qed
qed

lemma installed_no_close_cart:
  "\<not> present ''.close-cart'' \<Longrightarrow> set (installed present) \<subseteq> {AddButtons, CartIcon}"
  by (auto simp: installed_def script_handlers_def runs_on_def)

lemma run_callback_other:
  "cb \<noteq> HideCartModal \<Longrightarrow> cart_modal (run_callback cb s) = cart_modal s \<and> pending (run_callback cb s) = pending s"
  by (cases cb) simp_all

lemma site_step_keeps_cart_open:
  assumes "\<not> present ''.close-cart''" "cart_modal (shop s)" "HideCartModal \<notin> set (pending (shop s))"
  shows "cart_modal (shop (site_step present s e)) \<and> HideCartModal \<notin> set (pending (shop (site_step present s e)))"
proof (cases e)
  case (ShopEvent x)
  have i: "set (installed present) \<subseteq> {AddButtons, CartIcon}" using installed_no_close_cart [of present, OF assms(1)] .
  show ?thesis
  proof (cases x)
    case AnimationComplete
    then show ?thesis using assms(2,3) ShopEvent
      by (cases "pending (shop s)") (auto simp: run_callback_other)
  qed (use assms(2,3) ShopEvent i in auto)
next
  case (ControlEvent c)
  then show ?thesis using assms(2,3) by simp
qed

subsection \<open>Properties\<close>

text \<open>
  The page is the interleaving of its parts: on a page that has every element
  the script dereferences, the load is \<open>EventBridge.init_page\<close>, and in any run of
  the page the cart goes through exactly \<open>EventBridge.run\<close> of the cart's events
  and the controls through \<open>PageControls.control_step\<close> of theirs: neither part
  sees the other's events.
\<close>

theorem full_page_refines:
  "(\<forall>x. present x) \<Longrightarrow>
     boot present st d = init_page st True d \<and>
     shop (site_run present s es) = run (shop s) (shop_events es) \<and>
     ctl (site_run present s es) = foldl control_step (ctl s) (control_events es)"
proof -
  assume all: "\<forall>x. present x"
  then have "FirstRender \<in> set (installed present)"
    by (simp add: installed_everything script_handlers_def)
  then have "boot present st d = init_page st True d"
    using all by (simp add: boot_def init_page_def split: sum.split)
  then show ?thesis using site_run_everything [of present s es] all by simp
qed

theorem full_page_refines_witness:
  "(\<forall>x. (\<lambda>_. True) x) \<and>
   boot (\<lambda>_. True) None blank_display = init_page None True blank_display \<and>
   shop (site_run (\<lambda>_. True) \<lparr>shop = start_page,
      ctl = \<lparr>buttons = [], cards = [], form = \<lparr>name_value = [], email_value = [], name_default = [],
               email_default = []\<rparr>, nav = \<lparr>nav_open = False, scroll_requests = []\<rparr>,
             elements = Map.empty, control_alerts = []\<rparr>\<rparr> [ControlEvent HamburgerClick, ShopEvent CheckoutClick])
     = run (shop \<lparr>shop = start_page,
      ctl = \<lparr>buttons = [], cards = [], form = \<lparr>name_value = [], email_value = [], name_default = [],
               email_default = []\<rparr>, nav = \<lparr>nav_open = False, scroll_requests = []\<rparr>,
             elements = Map.empty, control_alerts = []\<rparr>\<rparr>) [CheckoutClick] \<and>
   ctl (site_run (\<lambda>_. True) \<lparr>shop = start_page,
      ctl = \<lparr>buttons = [], cards = [], form = \<lparr>name_value = [], email_value = [], name_default = [],
               email_default = []\<rparr>, nav = \<lparr>nav_open = False, scroll_requests = []\<rparr>,
             elements = Map.empty, control_alerts = []\<rparr>\<rparr> [ControlEvent HamburgerClick, ShopEvent CheckoutClick])
     = foldl control_step (ctl \<lparr>shop = start_page,
      ctl = \<lparr>buttons = [], cards = [], form = \<lparr>name_value = [], email_value = [], name_default = [],
               email_default = []\<rparr>, nav = \<lparr>nav_open = False, scroll_requests = []\<rparr>,
             elements = Map.empty, control_alerts = []\<rparr>\<rparr>) [HamburgerClick]"
  using full_page_refines [of "\<lambda>_. True" None blank_display 
      "\<lparr>shop = start_page,
      ctl = \<lparr>buttons = [], cards = [], form = \<lparr>name_value = [], email_value = [], name_default = [],
               email_default = []\<rparr>, nav = \<lparr>nav_open = False, scroll_requests = []\<rparr>,
             elements = Map.empty, control_alerts = []\<rparr>\<rparr>"
      "[ControlEvent HamburgerClick, ShopEvent CheckoutClick]"]
  by simp

text \<open>
  C34 (a missing element leaves the saved cart undrawn): when the page lacks an
  element that one of the statements of lines 35-339 dereferences, the handler
  stops there with a \<open>TypeError\<close>, line 339 is never reached, and the page keeps
  the display its HTML had, whatever cart the storage slot holds.
\<close>

theorem missing_element_skips_first_render:
  "h \<in> set script_handlers \<Longrightarrow> required_element h = Some x \<Longrightarrow> \<not> present x \<Longrightarrow>
     boot present st d = Inr p \<Longrightarrow> FirstRender \<notin> set (installed present) \<and> disp p = d \<and> storage p = st"
proof -
  assume h: "h \<in> set script_handlers" and r: "required_element h = Some x" and m: "\<not> present x"
    and b: "boot present st d = Inr p"
  have "\<not> runs_on present h" using r m by (simp add: runs_on_def)
  then have nf: "FirstRender \<notin> set (installed present)" using h first_render_installed by blast
  then show ?thesis using b by (auto simp: boot_def Let_def split: sum.splits)
qed

theorem missing_element_skips_first_render_witness:
  "Hamburger \<in> set script_handlers \<and> required_element Hamburger = Some ''.hamburger'' \<and>
   \<not> (\<lambda>y. y \<noteq> ''.hamburger'') ''.hamburger'' \<and>
   boot (\<lambda>y. y \<noteq> ''.hamburger'') (Some ''[]'') blank_display =
     Inr \<lparr>cart = [], storage = Some ''[]'', disp = blank_display, has_cart_list = True,
          cart_modal = False, checkout_modal = False, pending = [], alerts = []\<rparr> \<and>
   FirstRender \<notin> set (installed (\<lambda>y. y \<noteq> ''.hamburger''))"
proof -
  have h1: "Hamburger \<in> set script_handlers" by (simp add: script_handlers_def)
  have h2: "required_element Hamburger = Some ''.hamburger''" by simp
  have h3: "\<not> (\<lambda>y. y \<noteq> ''.hamburger'') ''.hamburger''" by simp
  have h4: "boot (\<lambda>y. y \<noteq> ''.hamburger'') (Some ''[]'') blank_display =
     Inr \<lparr>cart = [], storage = Some ''[]'', disp = blank_display, has_cart_list = True,
          cart_modal = False, checkout_modal = False, pending = [], alerts = []\<rparr>"
    by code_simp
  show ?thesis using missing_element_skips_first_render [OF h1 h2 h3 h4] h1 h2 h3 h4 by blast
qed

text \<open>
  C19 (without a close button the cart cannot be closed): on a page without
  \<open>.close-cart\<close>, the handler stops at line 64, so neither the close handler nor
  the checkout button (line 102), the only code that hides the cart dialog, is
  installed: once the dialog is open, it stays open whatever the user does.
\<close>

theorem cart_never_closes_without_close_button:
  "\<not> present ''.close-cart'' \<Longrightarrow> cart_modal (shop s) \<Longrightarrow> HideCartModal \<notin> set (pending (shop s)) \<Longrightarrow>
     cart_modal (shop (site_run present s es))"
proof (induction es arbitrary: s)
  case Nil
  then show ?case by simp
next
  case (Cons e es)
  then show ?case using site_step_keeps_cart_open [of present s e] by simp
qed

theorem cart_never_closes_without_close_button_witness:
  "\<not> (\<lambda>y. y \<noteq> ''.close-cart'') ''.close-cart'' \<and>
   cart_modal (shop (\<lparr>shop = start_page\<lparr>cart_modal := True\<rparr>,
      ctl = \<lparr>buttons = [], cards = [], form = \<lparr>name_value = [], email_value = [], name_default = [],
               email_default = []\<rparr>, nav = \<lparr>nav_open = False, scroll_requests = []\<rparr>,
             elements = Map.empty, control_alerts = []\<rparr>\<rparr>)) \<and> HideCartModal \<notin> set (pending (shop (\<lparr>shop = start_page\<lparr>cart_modal := True\<rparr>,
      ctl = \<lparr>buttons = [], cards = [], form = \<lparr>name_value = [], email_value = [], name_default = [],
               email_default = []\<rparr>, nav = \<lparr>nav_open = False, scroll_requests = []\<rparr>,
             elements = Map.empty, control_alerts = []\<rparr>\<rparr>))) \<and>
   cart_modal (shop (site_run (\<lambda>y. y \<noteq> ''.close-cart'') (\<lparr>shop = start_page\<lparr>cart_modal := True\<rparr>,
      ctl = \<lparr>buttons = [], cards = [], form = \<lparr>name_value = [], email_value = [], name_default = [],
               email_default = []\<rparr>, nav = \<lparr>nav_open = False, scroll_requests = []\<rparr>,
             elements = Map.empty, control_alerts = []\<rparr>\<rparr>)
     [ShopEvent CloseCartClick, ShopEvent AnimationComplete, ShopEvent CheckoutClick]))"
proof -
  have h1: "\<not> (\<lambda>y. y \<noteq> ''.close-cart'') ''.close-cart''" by simp
  have h2: "cart_modal (shop (\<lparr>shop = start_page\<lparr>cart_modal := True\<rparr>,
      ctl = \<lparr>buttons = [], cards = [], form = \<lparr>name_value = [], email_value = [], name_default = [],
               email_default = []\<rparr>, nav = \<lparr>nav_open = False, scroll_requests = []\<rparr>,
             elements = Map.empty, control_alerts = []\<rparr>\<rparr>))" by simp
  have h3: "HideCartModal \<notin> set (pending (shop (\<lparr>shop = start_page\<lparr>cart_modal := True\<rparr>,
      ctl = \<lparr>buttons = [], cards = [], form = \<lparr>name_value = [], email_value = [], name_default = [],
               email_default = []\<rparr>, nav = \<lparr>nav_open = False, scroll_requests = []\<rparr>,
             elements = Map.empty, control_alerts = []\<rparr>\<rparr>)))" by (simp add: start_page_def)
  show ?thesis using h1 h2 h3 cart_never_closes_without_close_button [of "\<lambda>y. y \<noteq> ''.close-cart''"] by blast
qed

end
