(* ===== verification/JsonFuel.thy ===== *)
theory JsonFuel
  imports Json
begin

text \<open>
  Fuel adequacy of the \<open>JSON.parse\<close> model (\<open>Json.json_parse\<close>). The parsers
  \<open>parse_value\<close>, \<open>parse_elems\<close>, \<open>parse_member\<close> and \<open>parse_membs\<close> recurse on a fuel
  argument; here each reader is shown never to lengthen its input, each recursive call to
  get a strictly shorter suffix, and so a successful parse with any fuel to succeed, with
  the same result, with every fuel above the number of characters consumed.
  \<open>json_parse\<close>'s fuel, \<open>length s + 1\<close>, is always above it: the fuel is an artefact of
  the model, not a limit of the parser the script calls.
\<close>

lemma length_skip_ws: "length (skip_ws s) \<le> length s"
  by (simp add: skip_ws_def length_dropWhile_le)

lemma length_radix_prefix: "length (radix_prefix R s) \<le> length s"
  by (induction s) (auto split: option.splits)

lemma parse_str_body_shorter: "parse_str_body s = Some (t, r) \<Longrightarrow> length r \<le> length s"
proof (induction s arbitrary: t rule: parse_str_body.induct)
  case 1
  then show ?case by simp
next
  case (2 c cs)
  show ?case
    using "2.prems" "2.IH"
    by (auto simp: Let_def split: if_splits option.splits list.splits) fastforce+
qed

lemma parse_json_number_shorter: "parse_json_number s = Some (x, r) \<Longrightarrow> length r \<le> length s"
  unfolding parse_json_number_def Let_def
  using length_radix_prefix [of 10]
  by (auto split: if_splits prod.splits list.splits option.splits dest!: arg_cong [where f = length])

lemma skip_ws_Cons_shorter: "skip_ws s = c # t \<Longrightarrow> length t < length s"
  using length_skip_ws [of s] by simp

lemma parse_value_SucE:
  assumes "parse_value (Suc f) s = Some (v, r)"
  obtains (flat) "length r \<le> length s" "\<And>g. parse_value (Suc g) s = Some (v, r)"
    | (arr) t v1 r1 vs where "length t < length s" "parse_value f t = Some (v1, r1)"
        "parse_elems f [v1] r1 = Some (vs, r)"
        "\<And>g. parse_value g t = Some (v1, r1) \<Longrightarrow> parse_elems g [v1] r1 = Some (vs, r) \<Longrightarrow>
           parse_value (Suc g) s = Some (v, r)"
    | (obj) t ps where "length t < length s" "parse_member f [] t = Some (ps, r)"
        "\<And>g. parse_member g [] t = Some (ps, r) \<Longrightarrow> parse_value (Suc g) s = Some (v, r)"
proof -
  obtain c t where sk: "skip_ws s = c # t" using assms by (cases "skip_ws s") auto
  have lt: "length t < length s" using sk by (rule skip_ws_Cons_shorter)
  have lct: "length (c # t) \<le> length s" using lt by simp
  consider (lit) "c \<noteq> CHR ''['' \<and> c \<noteq> CHR ''{''" | (a) "c = CHR ''[''" | (o) "c = CHR ''{''" by blast
  then show ?thesis
  proof cases
    case lit
    have same: "\<And>g. parse_value (Suc g) s = parse_value (Suc f) s" using sk lit by simp
    have "length r \<le> length s"
      using assms sk lit lt lct
      by (auto split: if_splits option.splits dest!: parse_str_body_shorter parse_json_number_shorter)
    then show ?thesis using flat same assms by simp
  next
    case a
    show ?thesis
    proof (cases "skip_ws t")
      case Nil
      then show ?thesis using assms sk a by simp
    next
      case (Cons d t')
      show ?thesis
      proof (cases "d = CHR '']''")
        case True
        have "length r \<le> length s" using assms sk a Cons True skip_ws_Cons_shorter [OF Cons] lt by auto
        moreover have "\<And>g. parse_value (Suc g) s = parse_value (Suc f) s" using sk a Cons True by simp
        ultimately show ?thesis using flat assms by simp
      next
        case False
        obtain v1 r1 vs where p1: "parse_value f t = Some (v1, r1)" and p2: "parse_elems f [v1] r1 = Some (vs, r)"
          and v: "v = JArr vs"
          using assms sk a Cons False by (auto split: option.splits)
        have "\<And>g. parse_value g t = Some (v1, r1) \<Longrightarrow> parse_elems g [v1] r1 = Some (vs, r) \<Longrightarrow>
            parse_value (Suc g) s = Some (v, r)"
          using sk a Cons False v by simp
        then show ?thesis using arr lt p1 p2 by blast
      qed
    qed
  next
    case o
    show ?thesis
    proof (cases "skip_ws t")
      case Nil
      then show ?thesis using assms sk o by simp
    next
      case (Cons d t')
      show ?thesis
      proof (cases "d = CHR ''}''")
        case True
        have "length r \<le> length s" using assms sk o Cons True skip_ws_Cons_shorter [OF Cons] lt by auto
        moreover have "\<And>g. parse_value (Suc g) s = parse_value (Suc f) s" using sk o Cons True by simp
        ultimately show ?thesis using flat assms by simp
      next
        case False
        obtain ps where p: "parse_member f [] t = Some (ps, r)" and v: "v = JObj ps"
          using assms sk o Cons False by auto
        have "\<And>g. parse_member g [] t = Some (ps, r) \<Longrightarrow> parse_value (Suc g) s = Some (v, r)"
          using sk o Cons False v by simp
        then show ?thesis using obj lt p by blast
      qed
    qed
  qed
qed

lemma parse_elems_SucE:
  assumes "parse_elems (Suc f) vs s = Some (vs', r)"
  obtains (close) "length r \<le> length s" "\<And>g. parse_elems (Suc g) vs s = Some (vs', r)"
    | (more) t v1 r1 where "length t < length s" "parse_value f t = Some (v1, r1)"
        "parse_elems f (vs @ [v1]) r1 = Some (vs', r)"
        "\<And>g. parse_value g t = Some (v1, r1) \<Longrightarrow> parse_elems g (vs @ [v1]) r1 = Some (vs', r) \<Longrightarrow>
           parse_elems (Suc g) vs s = Some (vs', r)"
proof -
  obtain d t where sk: "skip_ws s = d # t" using assms by (cases "skip_ws s") auto
  have lt: "length t < length s" using sk by (rule skip_ws_Cons_shorter)
  show ?thesis
  proof (cases "d = CHR '']''")
    case True
    then show ?thesis using assms sk lt close by simp
  next
    case False
    then have c: "d = CHR '',''" using assms sk by (auto split: if_splits)
    obtain v1 r1 where p1: "parse_value f t = Some (v1, r1)" and p2: "parse_elems f (vs @ [v1]) r1 = Some (vs', r)"
      using assms sk False c by (auto split: option.splits)
    have "\<And>g. parse_value g t = Some (v1, r1) \<Longrightarrow> parse_elems g (vs @ [v1]) r1 = Some (vs', r) \<Longrightarrow>
        parse_elems (Suc g) vs s = Some (vs', r)"
      using sk False c by simp
    then show ?thesis using more lt p1 p2 by blast
  qed
qed

lemma parse_member_SucE:
  assumes "parse_member (Suc f) ps s = Some (ps', r)"
  obtains t k v1 r1 where "length t < length s" "parse_value f t = Some (v1, r1)"
    "parse_membs f (obj_set k v1 ps) r1 = Some (ps', r)"
    "\<And>g. parse_value g t = Some (v1, r1) \<Longrightarrow> parse_membs g (obj_set k v1 ps) r1 = Some (ps', r) \<Longrightarrow>
       parse_member (Suc g) ps s = Some (ps', r)"
proof -
  obtain d t0 where sk: "skip_ws s = d # t0" using assms by (cases "skip_ws s") auto
  have d: "d = CHR 0x22" using assms sk by (auto split: if_splits)
  obtain k r' where ps: "parse_str_body t0 = Some (k, r')" using assms sk d by (auto split: option.splits)
  obtain e t where sk2: "skip_ws r' = e # t" using assms sk d ps by (cases "skip_ws r'") auto
  have e: "e = CHR '':''" using assms sk d ps sk2 by (auto split: if_splits)
  obtain v1 r1 where p1: "parse_value f t = Some (v1, r1)" and p2: "parse_membs f (obj_set k v1 ps) r1 = Some (ps', r)"
    using assms sk d ps sk2 e by (auto split: option.splits)
  have "length t < length s"
    using skip_ws_Cons_shorter [OF sk] skip_ws_Cons_shorter [OF sk2] parse_str_body_shorter [OF ps] by simp
  moreover have "\<And>g. parse_value g t = Some (v1, r1) \<Longrightarrow> parse_membs g (obj_set k v1 ps) r1 = Some (ps', r) \<Longrightarrow>
      parse_member (Suc g) ps s = Some (ps', r)"
    using sk d ps sk2 e by simp
  ultimately show ?thesis using that p1 p2 by blast
qed

lemma parse_membs_SucE:
  assumes "parse_membs (Suc f) ps s = Some (ps', r)"
  obtains (close) "length r \<le> length s" "\<And>g. parse_membs (Suc g) ps s = Some (ps', r)"
    | (more) t where "length t < length s" "parse_member f ps t = Some (ps', r)"
        "\<And>g. parse_member g ps t = Some (ps', r) \<Longrightarrow> parse_membs (Suc g) ps s = Some (ps', r)"
proof -
  obtain d t where sk: "skip_ws s = d # t" using assms by (cases "skip_ws s") auto
  have lt: "length t < length s" using sk by (rule skip_ws_Cons_shorter)
  show ?thesis
  proof (cases "d = CHR ''}''")
    case True
    then show ?thesis using assms sk lt close by simp
  next
    case False
    then have c: "d = CHR '',''" using assms sk by (auto split: if_splits)
    have p: "parse_member f ps t = Some (ps', r)" using assms sk False c by simp
    have "\<And>g. parse_member g ps t = Some (ps', r) \<Longrightarrow> parse_membs (Suc g) ps s = Some (ps', r)"
      using sk False c by simp
    then show ?thesis using more lt p by blast
  qed
qed

text \<open>Every level of the descent consumes at least one character before it recurses, so
  fuel one larger than the consumed length always suffices; \<open>parse_fuel_bound\<close> proves
  this for the four mutually recursive readers at once, by induction on the fuel, from
  the unfolding lemmas above.\<close>

lemma fuel_arith2:
  "(t::nat) < s \<Longrightarrow> r \<le> r1 \<Longrightarrow> r1 \<le> t \<Longrightarrow> s - r < Suc g \<Longrightarrow> t - r1 < g \<and> r1 - r < g"
  by arith

lemma fuel_arith1: "(t::nat) < s \<Longrightarrow> r \<le> t \<Longrightarrow> s - r < Suc g \<Longrightarrow> t - r < g"
  by arith

lemma Suc_fuel: "(a::nat) < g \<Longrightarrow> \<exists>g'. g = Suc g' \<and> a < Suc g'"
  by (cases g) auto

lemma parse_fuel_bound:
  "(\<forall>s v r. parse_value f s = Some (v, r) \<longrightarrow>
      length r \<le> length s \<and> (\<forall>g. length s - length r < g \<longrightarrow> parse_value g s = Some (v, r))) \<and>
   (\<forall>vs s vs' r. parse_elems f vs s = Some (vs', r) \<longrightarrow>
      length r \<le> length s \<and> (\<forall>g. length s - length r < g \<longrightarrow> parse_elems g vs s = Some (vs', r))) \<and>
   (\<forall>ps s ps' r. parse_member f ps s = Some (ps', r) \<longrightarrow>
      length r \<le> length s \<and> (\<forall>g. length s - length r < g \<longrightarrow> parse_member g ps s = Some (ps', r))) \<and>
   (\<forall>ps s ps' r. parse_membs f ps s = Some (ps', r) \<longrightarrow>
      length r \<le> length s \<and> (\<forall>g. length s - length r < g \<longrightarrow> parse_membs g ps s = Some (ps', r)))"
proof (induction f)
  case 0
  then show ?case by simp
next
  case (Suc f)
  have IV: "\<And>s v r. parse_value f s = Some (v, r) \<Longrightarrow>
      length r \<le> length s \<and> (\<forall>g. length s - length r < g \<longrightarrow> parse_value g s = Some (v, r))"
    and IE: "\<And>vs s vs' r. parse_elems f vs s = Some (vs', r) \<Longrightarrow>
      length r \<le> length s \<and> (\<forall>g. length s - length r < g \<longrightarrow> parse_elems g vs s = Some (vs', r))"
    and IM: "\<And>ps s ps' r. parse_member f ps s = Some (ps', r) \<Longrightarrow>
      length r \<le> length s \<and> (\<forall>g. length s - length r < g \<longrightarrow> parse_member g ps s = Some (ps', r))"
    and IS: "\<And>ps s ps' r. parse_membs f ps s = Some (ps', r) \<Longrightarrow>
      length r \<le> length s \<and> (\<forall>g. length s - length r < g \<longrightarrow> parse_membs g ps s = Some (ps', r))"
    using Suc.IH by blast+
  have V: "\<forall>s v r. parse_value (Suc f) s = Some (v, r) \<longrightarrow>
      length r \<le> length s \<and> (\<forall>g. length s - length r < g \<longrightarrow> parse_value g s = Some (v, r))"
  proof (intro allI impI)
    fix s v r assume "parse_value (Suc f) s = Some (v, r)"
    then show "length r \<le> length s \<and> (\<forall>g. length s - length r < g \<longrightarrow> parse_value g s = Some (v, r))"
    proof (cases rule: parse_value_SucE)
      case flat
      then show ?thesis by (auto dest: Suc_fuel)
    next
      case (arr t v1 r1 vs)
      have i1: "length r1 \<le> length t" "\<forall>g. length t - length r1 < g \<longrightarrow> parse_value g t = Some (v1, r1)"
        using IV [OF arr(2)] by blast+
      have i2: "length r \<le> length r1" "\<forall>g. length r1 - length r < g \<longrightarrow> parse_elems g [v1] r1 = Some (vs, r)"
        using IE [OF arr(3)] by blast+
      show ?thesis
      proof (intro conjI allI impI)
        show "length r \<le> length s" using i1(1) i2(1) arr(1) by simp
        fix g assume "length s - length r < g"
        then obtain g' where g: "g = Suc g'" "length s - length r < Suc g'" by (blast dest: Suc_fuel)
        have "length t - length r1 < g' \<and> length r1 - length r < g'"
          using fuel_arith2 [OF arr(1) i2(1) i1(1) g(2)] .
        then show "parse_value g s = Some (v, r)" using i1(2) i2(2) arr(4) g(1) by blast
      qed
    next
      case (obj t ps)
      have i: "length r \<le> length t" "\<forall>g. length t - length r < g \<longrightarrow> parse_member g [] t = Some (ps, r)"
        using IM [OF obj(2)] by blast+
      show ?thesis
      proof (intro conjI allI impI)
        show "length r \<le> length s" using i(1) obj(1) by simp
        fix g assume "length s - length r < g"
        then obtain g' where g: "g = Suc g'" "length s - length r < Suc g'" by (blast dest: Suc_fuel)
        have "length t - length r < g'" using fuel_arith1 [OF obj(1) i(1) g(2)] .
        then show "parse_value g s = Some (v, r)" using i(2) obj(3) g(1) by blast
      qed
    qed
  qed
  have E: "\<forall>vs s vs' r. parse_elems (Suc f) vs s = Some (vs', r) \<longrightarrow>
      length r \<le> length s \<and> (\<forall>g. length s - length r < g \<longrightarrow> parse_elems g vs s = Some (vs', r))"
  proof (intro allI impI)
    fix vs s vs' r assume "parse_elems (Suc f) vs s = Some (vs', r)"
    then show "length r \<le> length s \<and> (\<forall>g. length s - length r < g \<longrightarrow> parse_elems g vs s = Some (vs', r))"
    proof (cases rule: parse_elems_SucE)
      case close
      then show ?thesis by (auto dest: Suc_fuel)
    next
      case (more t v1 r1)
      have i1: "length r1 \<le> length t" "\<forall>g. length t - length r1 < g \<longrightarrow> parse_value g t = Some (v1, r1)"
        using IV [OF more(2)] by blast+
      have i2: "length r \<le> length r1" "\<forall>g. length r1 - length r < g \<longrightarrow> parse_elems g (vs @ [v1]) r1 = Some (vs', r)"
        using IE [OF more(3)] by blast+
      show ?thesis
      proof (intro conjI allI impI)
        show "length r \<le> length s" using i1(1) i2(1) more(1) by simp
        fix g assume "length s - length r < g"
        then obtain g' where g: "g = Suc g'" "length s - length r < Suc g'" by (blast dest: Suc_fuel)
        have "length t - length r1 < g' \<and> length r1 - length r < g'"
          using fuel_arith2 [OF more(1) i2(1) i1(1) g(2)] .
        then show "parse_elems g vs s = Some (vs', r)" using i1(2) i2(2) more(4) g(1) by blast
      qed
    qed
  qed
  have M: "\<forall>ps s ps' r. parse_member (Suc f) ps s = Some (ps', r) \<longrightarrow>
      length r \<le> length s \<and> (\<forall>g. length s - length r < g \<longrightarrow> parse_member g ps s = Some (ps', r))"
  proof (intro allI impI)
    fix ps s ps' r assume "parse_member (Suc f) ps s = Some (ps', r)"
    then obtain t v1 r1 k where m: "length t < length s" "parse_value f t = Some (v1, r1)"
      "parse_membs f (obj_set k v1 ps) r1 = Some (ps', r)"
      "\<And>g. parse_value g t = Some (v1, r1) \<Longrightarrow> parse_membs g (obj_set k v1 ps) r1 = Some (ps', r) \<Longrightarrow>
         parse_member (Suc g) ps s = Some (ps', r)"
      by (rule parse_member_SucE) blast
    have i1: "length r1 \<le> length t" "\<forall>g. length t - length r1 < g \<longrightarrow> parse_value g t = Some (v1, r1)"
      using IV [OF m(2)] by blast+
    have i2: "length r \<le> length r1" "\<forall>g. length r1 - length r < g \<longrightarrow> parse_membs g (obj_set k v1 ps) r1 = Some (ps', r)"
      using IS [OF m(3)] by blast+
    show "length r \<le> length s \<and> (\<forall>g. length s - length r < g \<longrightarrow> parse_member g ps s = Some (ps', r))"
    proof (intro conjI allI impI)
      show "length r \<le> length s" using i1(1) i2(1) m(1) by simp
      fix g assume "length s - length r < g"
      then obtain g' where g: "g = Suc g'" "length s - length r < Suc g'" by (blast dest: Suc_fuel)
      have "length t - length r1 < g' \<and> length r1 - length r < g'"
        using fuel_arith2 [OF m(1) i2(1) i1(1) g(2)] .
      then show "parse_member g ps s = Some (ps', r)" using i1(2) i2(2) m(4) g(1) by blast
    qed
  qed
  have S: "\<forall>ps s ps' r. parse_membs (Suc f) ps s = Some (ps', r) \<longrightarrow>
      length r \<le> length s \<and> (\<forall>g. length s - length r < g \<longrightarrow> parse_membs g ps s = Some (ps', r))"
  proof (intro allI impI)
    fix ps s ps' r assume "parse_membs (Suc f) ps s = Some (ps', r)"
    then show "length r \<le> length s \<and> (\<forall>g. length s - length r < g \<longrightarrow> parse_membs g ps s = Some (ps', r))"
    proof (cases rule: parse_membs_SucE)
      case close
      then show ?thesis by (auto dest: Suc_fuel)
    next
      case (more t)
      have i: "length r \<le> length t" "\<forall>g. length t - length r < g \<longrightarrow> parse_member g ps t = Some (ps', r)"
        using IM [OF more(2)] by blast+
      show ?thesis
      proof (intro conjI allI impI)
        show "length r \<le> length s" using i(1) more(1) by simp
        fix g assume "length s - length r < g"
        then obtain g' where g: "g = Suc g'" "length s - length r < Suc g'" by (blast dest: Suc_fuel)
        have "length t - length r < g'" using fuel_arith1 [OF more(1) i(1) g(2)] .
        then show "parse_membs g ps s = Some (ps', r)" using i(2) more(3) g(1) by blast
      qed
    qed
  qed
  show ?case using V E M S by blast
qed

text \<open>Adequacy of the model's fuel: the fuel that
  \<open>json_parse\<close> gives the parser, one unit per character, is never what makes it fail.
  Whenever the recursive descent reads a value with some amount of fuel and only white
  space follows, \<open>json_parse\<close> returns that value.\<close>

theorem json_parse_fuel_enough:
  "parse_value f s = Some (v, r) \<Longrightarrow> skip_ws r = [] \<Longrightarrow> json_parse s = Some v"
proof -
  assume p: "parse_value f s = Some (v, r)" and w: "skip_ws r = []"
  have "\<forall>g. length s - length r < g \<longrightarrow> parse_value g s = Some (v, r)"
    using parse_fuel_bound p by blast
  then have "parse_value (Suc (length s)) s = Some (v, r)" using less_Suc_eq_le diff_le_self by blast
  then show "json_parse s = Some v" using w by (simp add: json_parse_def)
qed

theorem json_parse_fuel_enough_witness:
  "parse_value 3 ''[1]'' = Some (JArr [JNum 1], []) \<and> skip_ws [] = [] \<and> json_parse ''[1]'' = Some (JArr [JNum 1])"
proof -
  have p: "parse_value 3 ''[1]'' = Some (JArr [JNum 1], [])" by code_simp
  have w: "skip_ws [] = []" by (simp add: skip_ws_def)
  show ?thesis using json_parse_fuel_enough [OF p w] p w by simp
qed

end
