(* ===== verification/PriceLiteral.thy ===== *)
theory PriceLiteral
  imports Render
begin

text \<open>
  \<open>parseFloat\<close> on the prices of the product cards (line 40). A
  \<open>StrDecimalLiteral\<close> is described by its parts: leading white space, an
  optional sign, integer digits, fraction digits (\<open>JsonText.frac_text\<close>) and an
  optional exponent \<open>e\<close> or \<open>E\<close> with an optional sign and at least one digit
  (\<open>exp_lit_text\<close>); \<open>parseFloat\<close> reads the longest such prefix and ignores
  what follows, as long as the rest does not continue the literal
  (\<open>JsonText.num_stop\<close>).
\<close>

text \<open>The exponent part: its marker, sign text and digits.\<close>

fun exp_lit_text :: "(char \<times> string \<times> int list) option \<Rightarrow> string" where
  "exp_lit_text None = []"
| "exp_lit_text (Some (e, sg, ds)) = e # sg @ map digit_char ds"

fun exp_lit_value :: "(char \<times> string \<times> int list) option \<Rightarrow> int" where
  "exp_lit_value None = 0"
| "exp_lit_value (Some (e, sg, ds)) = (if sg = ''-'' then - digits_value 10 ds else digits_value 10 ds)"

fun exp_ok :: "(char \<times> string \<times> int list) option \<Rightarrow> bool" where
  "exp_ok None = True"
| "exp_ok (Some (e, sg, ds)) \<longleftrightarrow>
     (e = CHR ''e'' \<or> e = CHR ''E'') \<and> (sg = [] \<or> sg = ''+'' \<or> sg = ''-'') \<and> ds \<noteq> [] \<and> list_all is_digit ds"

text \<open>The sign a literal's optional \<open>+\<close> or \<open>-\<close> gives it.\<close>

definition sign_value :: "string \<Rightarrow> rat" where
  "sign_value sg = (if sg = ''-'' then -1 else 1)"

text \<open>The exact value of a literal with sign, digits, fraction digits and exponent.\<close>

definition literal_value :: "string \<Rightarrow> int list \<Rightarrow> int list \<Rightarrow> (char \<times> string \<times> int list) option \<Rightarrow> rat" where
  "literal_value sg ip fp ex =
     sign_value sg * of_int (digits_value 10 (ip @ fp)) * power_int 10 (exp_lit_value ex - int (length fp))"

subsection \<open>parseFloat on literals\<close>

lemma radix_digit_E: "radix_digit 10 (CHR ''E'') = None"
  by (simp add: radix_digit_def)

lemma trim_start_skip:
  "list_all is_js_space ws \<Longrightarrow> t = c # r \<Longrightarrow> \<not> is_js_space c \<Longrightarrow> trim_start (ws @ t) = t"
  by (simp add: trim_start_def list_all_iff dropWhile_append2)

lemma digits_head:
  "list_all is_digit ds \<Longrightarrow> ds = d # ds' \<Longrightarrow>
     \<not> is_js_space (digit_char d) \<and> digit_char d \<notin> set ''-+xX'' \<and> digit_char d \<noteq> CHR ''I'' \<and>
     digit_char d \<noteq> CHR ''.''"
  using digit_char_plain [of d] by (simp add: digit_char_eq_iff is_digit_def)

lemma parse_exponent_lit:
  assumes "exp_ok ex" "num_stop rest"
  shows "parse_exponent (exp_lit_text ex @ rest) = exp_lit_value ex"
proof (cases ex)
  case None
  then show ?thesis using assms(2)
    by (cases rest) (simp_all add: parse_exponent_def num_stop_def)
next
  case (Some a)
  then obtain e sg ds where a: "ex = Some (e, sg, ds)" by (cases a) auto
  have ok: "e = CHR ''e'' \<or> e = CHR ''E''" "sg = [] \<or> sg = ''+'' \<or> sg = ''-''" "ds \<noteq> []"
    "list_all is_digit ds"
    using assms(1) a by simp_all
  obtain d ds' where dc: "ds = d # ds'" using ok(3) by (cases ds) auto
  have h: "digit_char d \<noteq> CHR ''-''" "digit_char d \<noteq> CHR ''+''" using digits_head [OF ok(4) dc] by auto
  have rp: "radix_prefix 10 (map digit_char ds @ rest) = ds"
    using radix_prefix_digits [OF ok(4)] num_stop_prefix [OF assms(2)] by simp
  from ok(2) show ?thesis
  proof (elim disjE)
    assume "sg = []"
    then show ?thesis using ok(1,3) h rp by (auto simp: a parse_exponent_def dc)
  next
    assume "sg = ''+''"
    then show ?thesis using ok(1,3) rp by (auto simp: a parse_exponent_def)
  next
    assume "sg = ''-''"
    then show ?thesis using ok(1,3) rp by (auto simp: a parse_exponent_def)
  qed
qed

lemma frac_stop_exp_lit: "exp_ok ex \<Longrightarrow> num_stop rest \<Longrightarrow> frac_stop (exp_lit_text ex @ rest)"
  by (cases ex) (auto simp: frac_stop_def num_stop_def radix_digit_e radix_digit_E split: list.split)

lemma frac_text_head: "fp \<noteq> [] \<Longrightarrow> frac_text fp = CHR ''.'' # map digit_char fp"
  by (simp add: frac_text_def)

lemma parse_unsigned_decimal_body:
  assumes ne: "ip \<noteq> [] \<or> fp \<noteq> []" and ip: "list_all is_digit ip" and fp: "list_all is_digit fp"
    and u: "frac_stop u"
  shows "parse_unsigned_decimal (map digit_char ip @ frac_text fp @ u) =
         Some (Fin (scale10 (of_int (digits_value 10 (ip @ fp))) (parse_exponent u - int (length fp))))"
proof -
  define s where "s = map digit_char ip @ frac_text fp @ u"
  have hd: "\<exists>c r. s = c # r \<and> c \<noteq> CHR ''I''"
  proof (cases ip)
    case (Cons d ds')
    then show ?thesis using digits_head [OF ip Cons] by (simp add: s_def)
  next
    case Nil
    then show ?thesis using ne by (simp add: s_def frac_text_head)
  qed
  then have ni: "take 8 s \<noteq> ''Infinity''" by auto
  have "radix_prefix 10 (frac_text fp @ u) = []"
    using u by (cases "fp = []") (simp_all add: frac_text_def radix_digit_point frac_stop_prefix)
  then have rp: "radix_prefix 10 s = ip" using radix_prefix_digits [OF ip] by (simp add: s_def)
  have r1: "drop (length ip) s = frac_text fp @ u" by (simp add: s_def)
  have fr: "(case drop (length ip) s of c # t \<Rightarrow> if c = CHR ''.''
              then (radix_prefix 10 t, drop (length (radix_prefix 10 t)) t) else ([], drop (length ip) s)
            | [] \<Rightarrow> ([], [])) = (fp, u)"
  proof (cases "fp = []")
    case True
    then show ?thesis using u by (cases u) (simp_all add: r1 frac_text_def frac_stop_def)
  next
    case False
    have "radix_prefix 10 (map digit_char fp @ u) = fp"
      using radix_prefix_digits [OF fp] frac_stop_prefix [OF u] by simp
    then show ?thesis using False by (simp add: r1 frac_text_head)
  qed
  show ?thesis
    using ni ne unfolding s_def [symmetric]
    by (simp add: parse_unsigned_decimal_def Let_def rp fr)
qed

lemma parse_float_literal:
  assumes ws: "list_all is_js_space ws" and sg: "sg = [] \<or> sg = ''+'' \<or> sg = ''-''"
    and ne: "ip \<noteq> [] \<or> fp \<noteq> []" and ip: "list_all is_digit ip" and fp: "list_all is_digit fp"
    and ex: "exp_ok ex" and rest: "num_stop rest"
  shows "parse_float (ws @ sg @ map digit_char ip @ frac_text fp @ exp_lit_text ex @ rest) =
         Fin (sign_value sg * of_int (digits_value 10 (ip @ fp)) * power_int 10 (exp_lit_value ex - int (length fp)))"
proof -
  define body where "body = map digit_char ip @ frac_text fp @ exp_lit_text ex @ rest"
  have pu: "parse_unsigned_decimal body =
      Some (Fin (of_int (digits_value 10 (ip @ fp)) * power_int 10 (exp_lit_value ex - int (length fp))))"
    using parse_unsigned_decimal_body [OF ne ip fp frac_stop_exp_lit [OF ex rest]]
    by (simp add: body_def parse_exponent_lit [OF ex rest] scale10_powi)
  obtain c r where bc: "body = c # r" and c: "\<not> is_js_space c" "c \<noteq> CHR ''-''" "c \<noteq> CHR ''+''"
  proof (cases ip)
    case (Cons d ds')
    then show ?thesis using that digits_head [OF ip Cons] by (simp add: body_def)
  next
    case Nil
    then show ?thesis using that ne by (simp add: body_def frac_text_head is_js_space_def)
  qed
  from sg show ?thesis
  proof (elim disjE)
    assume s: "sg = []"
    have "trim_start (ws @ body) = body" using trim_start_skip [OF ws bc c(1)] .
    then show ?thesis using pu c bc by (simp add: s parse_float_def body_def [symmetric] sign_value_def)
  next
    assume s: "sg = ''+''"
    have "trim_start (ws @ CHR ''+'' # body) = CHR ''+'' # body"
      using trim_start_skip [OF ws, of "CHR ''+'' # body"] by (simp add: is_js_space_def)
    then show ?thesis using pu by (simp add: s parse_float_def body_def [symmetric] sign_value_def)
  next
    assume s: "sg = ''-''"
    have "trim_start (ws @ CHR ''-'' # body) = CHR ''-'' # body"
      using trim_start_skip [OF ws, of "CHR ''-'' # body"] by (simp add: is_js_space_def)
    then show ?thesis using pu by (simp add: s parse_float_def body_def [symmetric] sign_value_def)
  qed
qed

text \<open>
  C32 (a card's whole-number price is read as \<open>parseFloat\<close> reads it): when a
  card's \<open>data-price\<close> is white space, an optional sign, digits with an optional
  fraction and an optional exponent, followed by any text that does not continue
  the literal (a currency, say), and the literal's value is a whole number of
  magnitude at most \<open>2 ^ 53\<close>, the item the add-to-cart handler builds from it
  (lines 37-43, \<open>parseFloat(card.dataset.price)\<close>) has that value as its price.
  Such a value is a double, and \<open>parseFloat\<close> rounds to the nearest double, so it
  is the browser's value too.
\<close>

theorem new_item_price_literal:
  "card_price p = ws @ sg @ map digit_char ip @ frac_text fp @ exp_lit_text ex @ rest \<Longrightarrow>
   list_all is_js_space ws \<Longrightarrow> sg = [] \<or> sg = ''+'' \<or> sg = ''-'' \<Longrightarrow> ip @ fp \<noteq> [] \<Longrightarrow>
   list_all is_digit ip \<Longrightarrow> list_all is_digit fp \<Longrightarrow> exp_ok ex \<Longrightarrow> num_stop rest \<Longrightarrow>
   integral (literal_value sg ip fp ex) \<Longrightarrow> \<bar>literal_value sg ip fp ex\<bar> \<le> 2 ^ 53 \<Longrightarrow>
   price (new_item p) = Some (Fin (literal_value sg ip fp ex))"
  using parse_float_literal [of ws sg ip fp] by (simp add: new_item_def literal_value_def)

theorem new_item_price_literal_witness:
  "card_price \<lparr>card_id = ''P3'', card_name = ''Amber'', card_price = '' +12.5e1 EUR'', card_image = ''a.png''\<rparr> = [CHR '' ''] @ ''+'' @ map digit_char [1, 2] @ frac_text [5] @ exp_lit_text (Some (CHR ''e'', [], [1])) @ '' EUR'' \<and>
   list_all is_js_space [CHR '' ''] \<and> (''+'' = [] \<or> ''+'' = ''+'' \<or> ''+'' = ''-'') \<and>
   [1, 2] @ [5] \<noteq> ([] :: int list) \<and> list_all is_digit [1, 2] \<and> list_all is_digit [5] \<and>
   exp_ok (Some (CHR ''e'', [], [1])) \<and> num_stop '' EUR'' \<and>
   integral (literal_value ''+'' [1, 2] [5] (Some (CHR ''e'', [], [1]))) \<and> \<bar>literal_value ''+'' [1, 2] [5] (Some (CHR ''e'', [], [1]))\<bar> \<le> 2 ^ 53 \<and>
   price (new_item \<lparr>card_id = ''P3'', card_name = ''Amber'', card_price = '' +12.5e1 EUR'', card_image = ''a.png''\<rparr>) = Some (Fin 125)"
proof -
  have h1: "card_price \<lparr>card_id = ''P3'', card_name = ''Amber'', card_price = '' +12.5e1 EUR'', card_image = ''a.png''\<rparr> = [CHR '' ''] @ ''+'' @ map digit_char [1, 2] @ frac_text [5] @ exp_lit_text (Some (CHR ''e'', [], [1])) @ '' EUR''"
    by code_simp
  have h2: "list_all is_js_space [CHR '' '']" by code_simp
  have h3: "''+'' = [] \<or> ''+'' = ''+'' \<or> ''+'' = ''-''" by simp
  have h4: "[1, 2] @ [5] \<noteq> ([] :: int list)" by simp
  have h5: "list_all is_digit [1, 2]" by (simp add: is_digit_def)
  have h6: "list_all is_digit [5]" by (simp add: is_digit_def)
  have h7: "exp_ok (Some (CHR ''e'', [], [1]))" by (simp add: is_digit_def)
  have h8: "num_stop '' EUR''" by code_simp
  have v: "literal_value ''+'' [1, 2] [5] (Some (CHR ''e'', [], [1])) = 125"
    by (simp add: literal_value_def sign_value_def digits_value_def)
  have h9: "integral (literal_value ''+'' [1, 2] [5] (Some (CHR ''e'', [], [1])))" unfolding v by code_simp
  have h10: "\<bar>literal_value ''+'' [1, 2] [5] (Some (CHR ''e'', [], [1]))\<bar> \<le> 2 ^ 53" unfolding v by simp
  have h11: "price (new_item \<lparr>card_id = ''P3'', card_name = ''Amber'', card_price = '' +12.5e1 EUR'', card_image = ''a.png''\<rparr>) = Some (Fin 125)"
    using new_item_price_literal [OF h1 h2 h3 h4 h5 h6 h7 h8 h9 h10] by (simp only: v)
  show ?thesis using h1 h2 h3 h4 h5 h6 h7 h8 h9 h10 h11 by blast
qed

end
