(* ===== verification/Spec2Isabelle.thy ===== *)
theory Spec2Isabelle
  imports Animations Boot JsonFuel PriceLiteral
begin

text \<open>
  \<^bold>\<open>A verification development for the storefront script src/script.js.\<close>

  \<^emph>\<open>The program.\<close> \<open>src/script.js\<close> is one \<open>DOMContentLoaded\<close> handler. Its cart
  part (lines 1-133 and 339) keeps a global array \<open>cart\<close> of line items, loaded
  from the \<open>localStorage\<close> slot \<open>cart\<close> (line 3), mutated by four handlers (add
  to cart, lines 34-55; remove, lines 77-83; quantity change, lines 86-99;
  checkout form submission, lines 126-133), each followed by \<open>updateCartUI\<close>
  (lines 5-31), which redraws the cart list, total and count and saves the cart.
  The cart icon, the two close buttons and the checkout button (lines 58-74,
  102-123) show and hide two dialogs; a close button hides its dialog only in the
  \<open>onComplete\<close> callback of a 0.5 s GSAP tween. The page controls (lines
  135-193: product filter, contact form, navigation links, hamburger menu) have
  state of their own and do not touch the cart. Lines 195-336 start the page's
  animations; the handlers start tweens of their own (lines 53, 60, 65-73, 109,
  114-122, 144-147, 186-192). Each listener is installed by a statement that
  dereferences its element, so a missing element ends the handler early.

  \<^emph>\<open>Theories and what they model.\<close>
  \<^item> \<open>Prelude\<close>: \<open>update_first\<close> (a write to the object \<open>find\<close> returned),
    \<open>join_with\<close>, and the lemmas on lists of records read as maps from a key field
    (\<open>key_map\<close>), shared by the components.
  \<^item> \<open>JsNum\<close>: the ECMAScript built-ins the code calls: the number domain
    \<open>jsnum\<close> (finite values, the infinities, NaN) with \<open>+\<close> (\<open>js_add\<close>) and \<open>*\<close>
    (\<open>js_mul\<close>), \<open>parseFloat\<close> (line 40), \<open>parseInt\<close> (line 89),
    \<open>Number::toString\<close> (template interpolation, line 21) and \<open>toFixed\<close> (line 28).
  \<^item> \<open>Json\<close>: \<open>JSON.stringify\<close> (\<open>json_text\<close>, line 30) and \<open>JSON.parse\<close>
    (\<open>json_parse\<close>, line 3) on the datatype \<open>json\<close>.
  \<^item> \<open>JsonText\<close>: the text-level round trip of the two: \<open>json_parse (json_text v) =
    Some v\<close> for every value whose numbers are finite decimals and whose objects
    have distinct keys (\<open>json_ok\<close>); every finite decimal printed by
    \<open>Number::toString\<close> reads back as itself; every number \<open>parseFloat\<close> or
    \<open>JSON.parse\<close> returns is a finite decimal.
  \<^item> \<open>JsonFuel\<close>: the fuel adequacy of the \<open>JSON.parse\<close> model: the fuel that
    \<open>json_parse\<close> gives its recursive descent never makes it fail.
  \<^item> \<open>CartStore\<close>: the records \<open>product\<close> (a card's \<open>dataset\<close>) and \<open>item\<close>; the
    mutations \<open>add_or_increment\<close> (lines 37-50), \<open>remove_item\<close> (lines 80, 95),
    \<open>set_quantity\<close> (line 92) and \<open>quantity_change\<close> (lines 88-97); the invariant
    \<open>cart_wf\<close> (unique ids, positive quantities); the contract of spec section 4.1
    on maps from ids to quantities (\<open>spec_add\<close>, \<open>spec_remove\<close>,
    \<open>spec_set_quantity\<close>) and the abstraction \<open>cart_qty\<close>.
  \<^item> \<open>Persist\<close>: the save (\<open>item_json\<close>, \<open>cart_json\<close>, \<open>save_text\<close>, line 30) and
    the load (\<open>item_of_json\<close>, \<open>cart_of_json\<close>, \<open>load_cart\<close>, line 3) with its
    errors \<open>SyntaxError\<close> and \<open>UnmodelledShape\<close>; the price invariant
    \<open>price_decimal\<close>, kept by every mutation.
  \<^item> \<open>Render\<close>: \<open>updateCartUI\<close> as \<open>update_cart_ui\<close>: the early return without
    \<open>.cart-items\<close>, the rendered entries (\<open>render_item\<close>), the \<open>forEach\<close> total
    (\<open>cart_total\<close>), the \<open>reduce\<close> count (\<open>cart_count\<close>), and the save; the
    reference printing \<open>cents_text\<close> of an amount in dollars and cents, which
    \<open>toFixed(2)\<close> is proved to equal below \<open>10 ^ 21\<close>.
  \<^item> \<open>EventBridge\<close>: the page state \<open>page\<close> (cart, slot, display, dialogs, pending
    tween callbacks, alerts), \<open>step\<close> with one equation per handler, \<open>run\<close> over
    event lists, \<open>init_page\<close> (lines 3 and 339) and the inductive \<open>reachable\<close>.
  \<^item> \<open>PageControls\<close>: the filter buttons and product cards (\<open>filter_click\<close>,
    lines 136-152), the contact form (\<open>contact_submit\<close>, lines 156-166), the
    navigation links with the \<open>TypeError\<close> of a missing target (\<open>nav_click\<close>,
    lines 168-180) and the hamburger toggle (lines 183-193), composed as
    \<open>control_step\<close> on the record \<open>controls\<close>.
  \<^item> \<open>PriceLiteral\<close>: \<open>parseFloat\<close> on the prices of the product cards: a
    decimal literal with white space, sign, fraction, exponent (\<open>exp_lit_text\<close>)
    and trailing text is read as its exact value.
  \<^item> \<open>Gsap\<close>: the GSAP library's semantics from its documentation (not code of
    the repository, so not in the map): eases, the end values of \<open>to\<close>, \<open>from\<close>
    and \<open>fromTo\<close> tweens, delay, repeat and yoyo (\<open>style_at\<close>, \<open>settle\<close>),
    stagger, and timeline placement with \<open>"-=x"\<close> positions.
  \<^item> \<open>Animations\<close>: every tween the script creates, with the code's parameters;
    the load-time section as \<open>page_animations\<close>; and \<open>styled_page\<close>/\<open>sstep\<close>,
    the \<open>EventBridge\<close> page with the styles of the two dialog contents under
    their open and close tweens.
  \<^item> \<open>Boot\<close>: the handler as its sequence of statements (\<open>script_handlers\<close>), the
    element each one dereferences, the statements that run before the first
    \<open>TypeError\<close> (\<open>installed\<close>), the load with the first render if reached
    (\<open>boot\<close>), and the whole page (\<open>site_step\<close>) running the cart and the
    controls with only the installed listeners.
  \<^item> \<open>Spec2Isabelle\<close> (this theory): the spec's scenarios and the behaviours that
    involve several components.
  Components interact by composition: a handler of \<open>EventBridge\<close> calls a
  mutation of \<open>CartStore\<close> and then \<open>sync\<close>, which is \<open>update_cart_ui\<close> of
  \<open>Render\<close>, which calls \<open>save_text\<close> of \<open>Persist\<close>, which calls \<open>json_text\<close>;
  \<open>init_page\<close> calls \<open>load_cart\<close>, which calls \<open>json_parse\<close>. The page controls
  share no state with the cart page; \<open>Boot\<close> composes the two as one page whose
  events each reach only their own component, and \<open>Animations\<close> layers the
  dialog styles over \<open>EventBridge.step\<close>.

  \<^emph>\<open>What the lemmas show.\<close> Safety and invariants: every run keeps \<open>cart_wf\<close>
  from a well-formed cart (C1); every reachable page with \<open>.cart-items\<close> shows the
  rendering of its cart and stores its serialisation (C2, by rule induction on
  \<open>reachable\<close>); add and quantity edits keep \<open>cart_wf\<close> (C6, C7); only the
  checkout button on a non-empty cart opens the checkout dialog (C8). Refinement:
  add, quantity change and remove implement the map contract for every cart (C4,
  C5, C22). Functional: on whole-number prices with line magnitudes summing below
  \<open>2 ^ 53\<close> the total is the exact sum of price times quantity (C3), a repeated add
  changes only the quantity (C21), checkout clears the cart, its display and its
  slot (C9), and the spec's scenarios: two adds of a new card on any page give
  one item of quantity 2 (C10), a quantity of 0 removes (C11), removing a missing
  id changes nothing (C12). Round trips: the saved text reads back to the same
  items (C23); after any sequence of events a reload restores the current cart
  (C24, composing C2's invariant, the JSON round trip and the price invariant).
  Liveness: every close of the cart dialog takes effect once the queued callbacks
  have run (C29). Animations and page start-up: a closed cart dialog reopens with
  invisible content (C33, a defect of line 60); a page missing one dereferenced
  element never runs the first render, so the saved cart is not drawn (C34, a
  defect); on a page without \<open>.close-cart\<close> the cart dialog, once open, can never
  be closed (C19). Bounds: the displayed total has an integer part, a point and
  two digits (C20). Functional, display: on whole-number prices the displayed
  total is its digits followed by \<open>.00\<close> (C30). Round trip of the quantity field:
  committing it as rendered leaves a well-formed cart unchanged (C31;
  \<open>toString\<close> prints an integer below \<open>10 ^ 21\<close> as plain digits, which
  \<open>parseInt\<close> reads back). A card whose \<open>data-price\<close> is a literal with sign,
  fraction, exponent and trailing text and a whole-number value
  (\<open>" +12.5e1 EUR"\<close>) adds an item with that value (C32). Page controls: a filter
  click activates exactly its button and shows exactly the matching cards (C25);
  the contact form needs both fields non-empty (C26); a link with no target throws
  and leaves the menu open (C27), one with a target scrolls and closes it (C28).
  Behaviours where the code departs from the spec: malformed storage throws and
  stops the page (C13); a closing tween hides a reopened cart dialog (C14); a NaN
  price poisons the total (C15) and reloads as 0 (C16); without \<open>.cart-items\<close>
  nothing is saved (C17); a quantity \<open>1e3\<close> becomes 1 (C18).

  Supporting lemmas that are not claims of their own: \<open>cart_json_roundtrip\<close>
  (the JSON value of the cart reads back), \<open>loaded_prices_finite\<close> (in this
  model a loaded price is \<open>null\<close> or finite), \<open>json_parse_fuel_enough\<close> (the
  model's fuel never fails a parse), \<open>full_page_refines\<close> (with every element
  present \<open>Boot\<close> gives the \<open>EventBridge\<close> page), \<open>hero_timeline_schedule\<close> (the
  start times of the hero timeline) and \<open>load_accepts_invalid_cart\<close> (stored text
  with a repeated id and a zero quantity loads as it is).

  \<^emph>\<open>Bounds and fuel.\<close> \<open>dec_exp_search\<close> stops at the denominator \<open>q\<close>; this is
  enough, since \<open>q\<close> divides \<open>10 ^ q\<close> whenever it divides some power of 10
  (\<open>dvd_pow10_bound\<close>), so the search finds the exponent of every finite decimal.
  \<open>json_parse\<close> runs the parser with fuel one more than the input length: each
  nested value and each further array element or object member consumes at least
  one character. On the text of a serialisable value this fuel is proved enough
  (\<open>json_text_reads_back\<close>: fuel at least the text length), and it is enough on
  every input (\<open>json_parse_fuel_enough\<close>): a parse that succeeds with any
  fuel succeeds with every fuel above the number of characters it consumes
  (\<open>parse_fuel_bound\<close>), so fuel never causes a \<open>SyntaxError\<close> and
  \<open>json_parse\<close> is the total function \<open>JSON.parse\<close> is.

  \<^emph>\<open>Modelling choices.\<close> Finite numbers are exact rationals: binary64 rounding is
  not modelled (so \<open>1.005.toFixed(2)\<close> is \<open>1.01\<close> here and \<open>1.00\<close> in a browser),
  nor overflow to Infinity or signed zero. The claims whose values depend on the
  arithmetic are therefore stated where binary64 is exact: the total (C3, C30)
  and the parsed price (C32) on whole numbers of magnitude at most \<open>2 ^ 53\<close>,
  every one of which is a double, so that no addition, product or
  \<open>parseFloat\<close> rounds; the two-decimal shape (C20) below \<open>10 ^ 20\<close>, a margin
  below the \<open>10 ^ 21\<close> at which \<open>toFixed\<close> changes notation.
  Strings are byte strings. The page (index.html, not in the repository) is
  assumed to give every product card its four \<open>data-\<close> attributes and to have
  \<open>.cart-total\<close> and \<open>.cart-count\<close> wherever it has \<open>.cart-items\<close>, and GSAP to
  be loaded. Outside \<open>Boot\<close> the page is assumed to have every element the handler
  dereferences, so that the handler runs from line 3 to line 339; \<open>Boot\<close> drops
  that assumption and \<open>full_page_refines\<close> shows that with every element present it gives the
  same page. The HTML markup of a rendered entry is represented by the values
  the template interpolates. Every event may occur in every state: the model does
  not restrict clicks to visible elements. In \<open>EventBridge\<close>, GSAP tweens without a
  callback do not change state; \<open>Animations\<close> records what they do to the
  dialog styles, taking each tween to run to its end before the next one on the
  same element (overlapping tweens are not modelled). The browser's clamping of
  \<open>scrollTo\<close> to the page is not modelled: the model records the requested
  position.

  \<^emph>\<open>Not modelled, and why.\<close> Everything of src/script.js that computes or
  changes state is a definition here; what remains depends on parts that are not
  in the repository or not in the program:
  \<^item> binary64 arithmetic: finite numbers are exact rationals, so the JavaScript
    built-ins are only partly modelled (no rounding of \<open>+\<close>, \<open>*\<close>,
    \<open>parseFloat\<close> or \<open>toFixed\<close> to the nearest double, no overflow, no \<open>-0\<close>);
  \<^item> the pairing of product cards with filter categories and their visibility:
    which \<open>.product-card\<close> carries which \<open>data-\<close> attributes and which add
    button a visitor can reach is fixed by index.html, which is not in the
    repository, so add-to-cart clicks are not tied to the cards the filter
    shows;
  \<^item> the playing of the scroll-triggered tweens, which depends on the scroll
    position and the layout of index.html: they are recorded with their
    triggers, delays and staggers (\<open>product_tween_timing\<close>,
    \<open>testimonial_sides\<close>), not played; frame timing and the browser's
    rendering;
  \<^item> the default action of a form submission whose listener was never
    installed (a navigation away from the page).
\<close>

lemma parse_int_zero: "parse_int ''0'' = Some 0"
  by code_simp

lemma parse_int_exponent: "parse_int ''1e3'' = Some 1"
  by code_simp

subsection \<open>Scenarios and behaviours across components\<close>

text \<open>
  C10 (scenario, add twice): on any page whose cart does not hold the card's id,
  two clicks on the card's add button append one line item, the item the handler
  builds (lines 37-43) with quantity 2, and redraw the cart as it is then (on a
  page without \<open>.cart-items\<close> the display is left as it was).
\<close>

theorem scenario_add_twice:
  "card_id p \<notin> set (map item_id (cart s)) \<Longrightarrow>
   cart (run s [AddToCart p, AddToCart p]) = cart s @ [(new_item p)\<lparr>quantity := 2\<rparr>] \<and>
   disp (run s [AddToCart p, AddToCart p]) =
     (if has_cart_list s then render (cart s @ [(new_item p)\<lparr>quantity := 2\<rparr>]) else disp s)"
proof -
  assume n: "card_id p \<notin> set (map item_id (cart s))"
  have id: "item_id (new_item p) = card_id p" by (simp add: new_item_def)
  have 1: "add_or_increment p (cart s) = cart s @ [new_item p]"
    using n by (rule add_or_increment_new)
  have "card_id p \<in> set (map item_id (cart s @ [new_item p]))" using id by simp
  then have "add_or_increment p (cart s @ [new_item p]) =
      update_first (\<lambda>i. item_id i = card_id p) (\<lambda>i. i\<lparr>quantity := quantity i + 1\<rparr>) (cart s @ [new_item p])"
    by (rule add_or_increment_existing)
  also have "\<dots> = cart s @ [(new_item p)\<lparr>quantity := 2\<rparr>]"
    using n id by (subst update_first_append_no_match) (force, simp add: new_item_def)
  finally show ?thesis using 1 by simp
qed

theorem scenario_add_twice_witness:
  "card_id \<lparr>card_id = ''P1'', card_name = ''Rose'', card_price = ''10'', card_image = ''r.png''\<rparr> \<notin> set (map item_id (cart start_page)) \<and>
   cart (run start_page [AddToCart \<lparr>card_id = ''P1'', card_name = ''Rose'', card_price = ''10'', card_image = ''r.png''\<rparr>, AddToCart \<lparr>card_id = ''P1'', card_name = ''Rose'', card_price = ''10'', card_image = ''r.png''\<rparr>]) = cart start_page @ [(new_item \<lparr>card_id = ''P1'', card_name = ''Rose'', card_price = ''10'', card_image = ''r.png''\<rparr>)\<lparr>quantity := 2\<rparr>] \<and>
   disp (run start_page [AddToCart \<lparr>card_id = ''P1'', card_name = ''Rose'', card_price = ''10'', card_image = ''r.png''\<rparr>, AddToCart \<lparr>card_id = ''P1'', card_name = ''Rose'', card_price = ''10'', card_image = ''r.png''\<rparr>]) =
     (if has_cart_list start_page then render (cart start_page @ [(new_item \<lparr>card_id = ''P1'', card_name = ''Rose'', card_price = ''10'', card_image = ''r.png''\<rparr>)\<lparr>quantity := 2\<rparr>]) else disp start_page)"
proof -
  have h: "card_id \<lparr>card_id = ''P1'', card_name = ''Rose'', card_price = ''10'', card_image = ''r.png''\<rparr> \<notin> set (map item_id (cart start_page))" by (simp add: start_page_def)
  show ?thesis using h scenario_add_twice [OF h] by blast
qed

text \<open>
  C11 (scenario, quantity to zero removes): on a cart holding one item, typing 0
  in its quantity field removes it and leaves the cart empty.
\<close>

theorem scenario_quantity_zero_removes:
  "cart s = [i] \<Longrightarrow> cart (step s (QuantityChange (item_id i) ''0'')) = []"
  by (simp add: quantity_change_def find_item_def parse_int_zero remove_item_def)

theorem scenario_quantity_zero_removes_witness:
  "cart (step start_page (AddToCart \<lparr>card_id = ''P1'', card_name = ''Rose'', card_price = ''10'', card_image = ''r.png''\<rparr>)) =
     [\<lparr>item_id = ''P1'', item_name = ''Rose'', price = Some (Fin 10), image = ''r.png'', quantity = 1\<rparr>] \<and>
   cart (step (step start_page (AddToCart \<lparr>card_id = ''P1'', card_name = ''Rose'', card_price = ''10'', card_image = ''r.png''\<rparr>))
     (QuantityChange ''P1'' ''0'')) = []"
proof -
  have h: "cart (step start_page (AddToCart \<lparr>card_id = ''P1'', card_name = ''Rose'', card_price = ''10'', card_image = ''r.png''\<rparr>)) =
     [\<lparr>item_id = ''P1'', item_name = ''Rose'', price = Some (Fin 10), image = ''r.png'', quantity = 1\<rparr>]"
    by code_simp
  show ?thesis using h scenario_quantity_zero_removes [OF h] by simp
qed

text \<open>
  C16 (a NaN price is lost on reload): a line whose price is NaN counts NaN in the
  total; saved and read back, its price is \<open>null\<close> and the line counts 0, so the
  total after a reload differs from the total before it.
\<close>

theorem nan_price_reloads_as_zero:
  "price i = Some NaN \<Longrightarrow>
     line_subtotal i = NaN \<and> cart_of_json (cart_json [i]) = Inr [i\<lparr>price := None\<rparr>] \<and>
     line_subtotal (i\<lparr>price := None\<rparr>) = Fin 0"
  by (simp add: line_subtotal_def price_number_def cart_of_json_cart_json saved_price_def)

theorem nan_price_reloads_as_zero_witness:
  "price \<lparr>item_id = ''P1'', item_name = ''Rose'', price = Some (parse_float ''TBA''), image = ''r.png'', quantity = 1\<rparr> = Some NaN \<and>
   line_subtotal \<lparr>item_id = ''P1'', item_name = ''Rose'', price = None, image = ''r.png'', quantity = 1\<rparr> = Fin 0"
proof -
  have h: "price \<lparr>item_id = ''P1'', item_name = ''Rose'', price = Some (parse_float ''TBA''), image = ''r.png'', quantity = 1\<rparr> = Some NaN"
    by code_simp
  show ?thesis using h nan_price_reloads_as_zero [OF h] by simp
qed

text \<open>
  C18 (exponent notation in the quantity field): \<open>parseInt\<close> stops at the first
  character that is not a digit, so a quantity typed as \<open>1e3\<close> (a valid value of a
  number input, meaning 1000) sets the quantity to 1.
\<close>

theorem quantity_exponent_truncated:
  "k \<in> set (map item_id c) \<Longrightarrow> quantity_change k ''1e3'' c = Some (set_quantity k 1 c)"
proof -
  assume "k \<in> set (map item_id c)"
  then obtain y where "find_item k c = Some y"
    by (cases "find_item k c") (auto simp: find_item_def)
  then show ?thesis by (simp add: quantity_change_def parse_int_exponent)
qed

theorem quantity_exponent_truncated_witness:
  "''P1'' \<in> set (map item_id [\<lparr>item_id = ''P1'', item_name = ''Rose'', price = Some (Fin 10), image = ''r.png'', quantity = 4\<rparr>]) \<and>
   quantity_change ''P1'' ''1e3'' [\<lparr>item_id = ''P1'', item_name = ''Rose'', price = Some (Fin 10), image = ''r.png'', quantity = 4\<rparr>] =
     Some [\<lparr>item_id = ''P1'', item_name = ''Rose'', price = Some (Fin 10), image = ''r.png'', quantity = 1\<rparr>]"
proof -
  have h: "''P1'' \<in> set (map item_id [\<lparr>item_id = ''P1'', item_name = ''Rose'', price = Some (Fin 10), image = ''r.png'', quantity = 4\<rparr>])"
    by simp
  show ?thesis using h quantity_exponent_truncated [OF h] by (simp add: set_quantity_def)
qed

text \<open>
  The load does not check the invariant: stored text with a repeated id and
  a zero quantity is loaded as it is, so a page can start from a cart that breaks
  uniqueness and the quantity floor that every mutation keeps.
\<close>

theorem load_accepts_invalid_cart:
  "load_cart (Some ''[{\"id\":\"P1\",\"name\":\"Rose\",\"price\":10,\"image\":\"r.png\",\"quantity\":0},{\"id\":\"P1\",\"name\":\"Rose\",\"price\":10,\"image\":\"r.png\",\"quantity\":3}]'') =
     Inr [\<lparr>item_id = ''P1'', item_name = ''Rose'', price = Some (Fin 10), image = ''r.png'', quantity = 0\<rparr>,
          \<lparr>item_id = ''P1'', item_name = ''Rose'', price = Some (Fin 10), image = ''r.png'', quantity = 3\<rparr>] \<and>
   \<not> cart_wf [\<lparr>item_id = ''P1'', item_name = ''Rose'', price = Some (Fin 10), image = ''r.png'', quantity = 0\<rparr>,
              \<lparr>item_id = ''P1'', item_name = ''Rose'', price = Some (Fin 10), image = ''r.png'', quantity = 3\<rparr>]"
proof -
  have "load_cart (Some ''[{\"id\":\"P1\",\"name\":\"Rose\",\"price\":10,\"image\":\"r.png\",\"quantity\":0},{\"id\":\"P1\",\"name\":\"Rose\",\"price\":10,\"image\":\"r.png\",\"quantity\":3}]'') =
     Inr [\<lparr>item_id = ''P1'', item_name = ''Rose'', price = Some (Fin 10), image = ''r.png'', quantity = 0\<rparr>,
          \<lparr>item_id = ''P1'', item_name = ''Rose'', price = Some (Fin 10), image = ''r.png'', quantity = 3\<rparr>]"
    by code_simp
  then show ?thesis by (simp add: cart_wf_def)
qed

end
